theory Spec2Isabelle
  imports Main "HOL-Library.Word"
begin

unbundle bit_operations_syntax

section \<open>Basic types\<close>

type_synonym u32 = "32 word"

text \<open>Vulkan object handles. The null handle is 0.\<close>

type_synonym handle = nat

named_theorems vk_consts

definition VK_NULL_HANDLE :: handle where
  "VK_NULL_HANDLE = 0"

text \<open>Failures of the program as values: \<open>liong::panic\<close> and a failed
  \<open>liong::assert\<close> carry their message; \<open>Unsupported\<close> is a request for a
  submit class the context has no queue family for; \<open>Undefined\<close> marks a step
  whose behaviour C++ leaves undefined (\<open>back()\<close> of an empty vector, an index
  past the end of an array, a shift by 32 or more).\<close>

datatype SubmitType = L_SUBMIT_TYPE_ANY | L_SUBMIT_TYPE_GRAPHICS | L_SUBMIT_TYPE_COMPUTE

datatype error = Panic string | Unsupported SubmitType | Undefined string

datatype VkCommandBufferLevel =
  VK_COMMAND_BUFFER_LEVEL_PRIMARY | VK_COMMAND_BUFFER_LEVEL_SECONDARY

datatype VkImageLayout =
    VK_IMAGE_LAYOUT_UNDEFINED
  | VK_IMAGE_LAYOUT_GENERAL
  | VK_IMAGE_LAYOUT_COLOR_ATTACHMENT_OPTIMAL
  | VK_IMAGE_LAYOUT_SHADER_READ_ONLY_OPTIMAL
  | VK_IMAGE_LAYOUT_TRANSFER_SRC_OPTIMAL
  | VK_IMAGE_LAYOUT_TRANSFER_DST_OPTIMAL
  | VK_IMAGE_LAYOUT_PREINITIALIZED
  | VK_IMAGE_LAYOUT_PRESENT_SRC_KHR

datatype VkPipelineBindPoint =
  VK_PIPELINE_BIND_POINT_GRAPHICS | VK_PIPELINE_BIND_POINT_COMPUTE

datatype VkSubpassContents =
  VK_SUBPASS_CONTENTS_INLINE | VK_SUBPASS_CONTENTS_SECONDARY_COMMAND_BUFFERS

subsection \<open>Flag bits of the Vulkan headers\<close>

definition VK_ACCESS_INDEX_READ_BIT :: u32 where
  [vk_consts]: "VK_ACCESS_INDEX_READ_BIT = 0x2"
definition VK_ACCESS_VERTEX_ATTRIBUTE_READ_BIT :: u32 where
  [vk_consts]: "VK_ACCESS_VERTEX_ATTRIBUTE_READ_BIT = 0x4"
definition VK_ACCESS_UNIFORM_READ_BIT :: u32 where
  [vk_consts]: "VK_ACCESS_UNIFORM_READ_BIT = 0x8"
definition VK_ACCESS_INPUT_ATTACHMENT_READ_BIT :: u32 where
  [vk_consts]: "VK_ACCESS_INPUT_ATTACHMENT_READ_BIT = 0x10"
definition VK_ACCESS_SHADER_READ_BIT :: u32 where
  [vk_consts]: "VK_ACCESS_SHADER_READ_BIT = 0x20"
definition VK_ACCESS_SHADER_WRITE_BIT :: u32 where
  [vk_consts]: "VK_ACCESS_SHADER_WRITE_BIT = 0x40"
definition VK_ACCESS_COLOR_ATTACHMENT_READ_BIT :: u32 where
  [vk_consts]: "VK_ACCESS_COLOR_ATTACHMENT_READ_BIT = 0x80"
definition VK_ACCESS_COLOR_ATTACHMENT_WRITE_BIT :: u32 where
  [vk_consts]: "VK_ACCESS_COLOR_ATTACHMENT_WRITE_BIT = 0x100"
definition VK_ACCESS_TRANSFER_READ_BIT :: u32 where
  [vk_consts]: "VK_ACCESS_TRANSFER_READ_BIT = 0x800"
definition VK_ACCESS_TRANSFER_WRITE_BIT :: u32 where
  [vk_consts]: "VK_ACCESS_TRANSFER_WRITE_BIT = 0x1000"

definition VK_PIPELINE_STAGE_TOP_OF_PIPE_BIT :: u32 where
  [vk_consts]: "VK_PIPELINE_STAGE_TOP_OF_PIPE_BIT = 0x1"
definition VK_PIPELINE_STAGE_VERTEX_INPUT_BIT :: u32 where
  [vk_consts]: "VK_PIPELINE_STAGE_VERTEX_INPUT_BIT = 0x4"
definition VK_PIPELINE_STAGE_VERTEX_SHADER_BIT :: u32 where
  [vk_consts]: "VK_PIPELINE_STAGE_VERTEX_SHADER_BIT = 0x8"
definition VK_PIPELINE_STAGE_FRAGMENT_SHADER_BIT :: u32 where
  [vk_consts]: "VK_PIPELINE_STAGE_FRAGMENT_SHADER_BIT = 0x80"
definition VK_PIPELINE_STAGE_COLOR_ATTACHMENT_OUTPUT_BIT :: u32 where
  [vk_consts]: "VK_PIPELINE_STAGE_COLOR_ATTACHMENT_OUTPUT_BIT = 0x400"
definition VK_PIPELINE_STAGE_COMPUTE_SHADER_BIT :: u32 where
  [vk_consts]: "VK_PIPELINE_STAGE_COMPUTE_SHADER_BIT = 0x800"
definition VK_PIPELINE_STAGE_TRANSFER_BIT :: u32 where
  [vk_consts]: "VK_PIPELINE_STAGE_TRANSFER_BIT = 0x1000"
definition VK_PIPELINE_STAGE_BOTTOM_OF_PIPE_BIT :: u32 where
  [vk_consts]: "VK_PIPELINE_STAGE_BOTTOM_OF_PIPE_BIT = 0x2000"
definition VK_PIPELINE_STAGE_ALL_GRAPHICS_BIT :: u32 where
  [vk_consts]: "VK_PIPELINE_STAGE_ALL_GRAPHICS_BIT = 0x8000"
definition VK_PIPELINE_STAGE_ALL_COMMANDS_BIT :: u32 where
  [vk_consts]: "VK_PIPELINE_STAGE_ALL_COMMANDS_BIT = 0x10000"

definition VK_BUFFER_USAGE_TRANSFER_SRC_BIT :: u32 where
  [vk_consts]: "VK_BUFFER_USAGE_TRANSFER_SRC_BIT = 0x1"
definition VK_BUFFER_USAGE_TRANSFER_DST_BIT :: u32 where
  [vk_consts]: "VK_BUFFER_USAGE_TRANSFER_DST_BIT = 0x2"
definition VK_BUFFER_USAGE_UNIFORM_BUFFER_BIT :: u32 where
  [vk_consts]: "VK_BUFFER_USAGE_UNIFORM_BUFFER_BIT = 0x10"
definition VK_BUFFER_USAGE_STORAGE_BUFFER_BIT :: u32 where
  [vk_consts]: "VK_BUFFER_USAGE_STORAGE_BUFFER_BIT = 0x20"
definition VK_BUFFER_USAGE_INDEX_BUFFER_BIT :: u32 where
  [vk_consts]: "VK_BUFFER_USAGE_INDEX_BUFFER_BIT = 0x40"
definition VK_BUFFER_USAGE_VERTEX_BUFFER_BIT :: u32 where
  [vk_consts]: "VK_BUFFER_USAGE_VERTEX_BUFFER_BIT = 0x80"

definition VK_QUEUE_GRAPHICS_BIT :: u32 where
  [vk_consts]: "VK_QUEUE_GRAPHICS_BIT = 0x1"
definition VK_QUEUE_COMPUTE_BIT :: u32 where
  [vk_consts]: "VK_QUEUE_COMPUTE_BIT = 0x2"

definition VK_QUEUE_FAMILY_IGNORED :: u32 where
  [vk_consts]: "VK_QUEUE_FAMILY_IGNORED = 0xFFFFFFFF"

definition VK_COMMAND_BUFFER_USAGE_RENDER_PASS_CONTINUE_BIT :: u32 where
  [vk_consts]: "VK_COMMAND_BUFFER_USAGE_RENDER_PASS_CONTINUE_BIT = 0x2"

definition VK_IMAGE_ASPECT_COLOR_BIT :: u32 where
  [vk_consts]: "VK_IMAGE_ASPECT_COLOR_BIT = 0x1"

definition VK_REMAINING_ARRAY_LAYERS :: u32 where
  [vk_consts]: "VK_REMAINING_ARRAY_LAYERS = 0xFFFFFFFF"
definition VK_REMAINING_MIP_LEVELS :: u32 where
  [vk_consts]: "VK_REMAINING_MIP_LEVELS = 0xFFFFFFFF"

definition VK_WHOLE_SIZE :: "64 word" where
  [vk_consts]: "VK_WHOLE_SIZE = 0xFFFFFFFFFFFFFFFF"

subsection \<open>Flag bits of the abstraction layer\<close>

text \<open>Modelled from the spec: the header that declares \<open>MemoryAccess\<close>,
  \<open>BufferUsage\<close> and \<open>ImageUsage\<close> is not among the sources. The spec lists the
  host-access modes none, read-only, write-only and read-write and the usages in the order
  used below; \<open>create_ctxt\<close> indexes its four priority lists by the access mode, so the
  modes are the numbers 0 to 3, built from a read bit and a write bit. Each usage is a
  bit of its own.\<close>

type_synonym MemoryAccess = u32
type_synonym BufferUsage = u32
type_synonym ImageUsage = u32

definition L_MEMORY_ACCESS_NONE :: MemoryAccess where
  [vk_consts]: "L_MEMORY_ACCESS_NONE = 0"
definition L_MEMORY_ACCESS_READ_BIT :: MemoryAccess where
  [vk_consts]: "L_MEMORY_ACCESS_READ_BIT = 1"
definition L_MEMORY_ACCESS_WRITE_BIT :: MemoryAccess where
  [vk_consts]: "L_MEMORY_ACCESS_WRITE_BIT = 2"
definition L_MEMORY_ACCESS_READ_ONLY :: MemoryAccess where
  [vk_consts]: "L_MEMORY_ACCESS_READ_ONLY = 1"
definition L_MEMORY_ACCESS_WRITE_ONLY :: MemoryAccess where
  [vk_consts]: "L_MEMORY_ACCESS_WRITE_ONLY = 2"
definition L_MEMORY_ACCESS_READ_WRITE :: MemoryAccess where
  [vk_consts]: "L_MEMORY_ACCESS_READ_WRITE = 3"

definition L_BUFFER_USAGE_STAGING_BIT :: BufferUsage where
  [vk_consts]: "L_BUFFER_USAGE_STAGING_BIT = 0x1"
definition L_BUFFER_USAGE_UNIFORM_BIT :: BufferUsage where
  [vk_consts]: "L_BUFFER_USAGE_UNIFORM_BIT = 0x2"
definition L_BUFFER_USAGE_STORAGE_BIT :: BufferUsage where
  [vk_consts]: "L_BUFFER_USAGE_STORAGE_BIT = 0x4"
definition L_BUFFER_USAGE_VERTEX_BIT :: BufferUsage where
  [vk_consts]: "L_BUFFER_USAGE_VERTEX_BIT = 0x8"
definition L_BUFFER_USAGE_INDEX_BIT :: BufferUsage where
  [vk_consts]: "L_BUFFER_USAGE_INDEX_BIT = 0x10"

definition L_IMAGE_USAGE_NONE :: ImageUsage where
  [vk_consts]: "L_IMAGE_USAGE_NONE = 0"
definition L_IMAGE_USAGE_SAMPLED_BIT :: ImageUsage where
  [vk_consts]: "L_IMAGE_USAGE_SAMPLED_BIT = 0x1"
definition L_IMAGE_USAGE_STORAGE_BIT :: ImageUsage where
  [vk_consts]: "L_IMAGE_USAGE_STORAGE_BIT = 0x2"
definition L_IMAGE_USAGE_ATTACHMENT_BIT :: ImageUsage where
  [vk_consts]: "L_IMAGE_USAGE_ATTACHMENT_BIT = 0x4"
definition L_IMAGE_USAGE_PRESENT_BIT :: ImageUsage where
  [vk_consts]: "L_IMAGE_USAGE_PRESENT_BIT = 0x8"
definition L_IMAGE_USAGE_STAGING_BIT :: ImageUsage where
  [vk_consts]: "L_IMAGE_USAGE_STAGING_BIT = 0x10"

section \<open>Resources and commands\<close>

record BufferConfig =
  buf_label :: string
  buf_host_access :: MemoryAccess
  buf_size :: nat
  buf_usage :: BufferUsage

record Buffer =
  devmem :: handle
  buf :: handle
  buf_cfg :: BufferConfig

record BufferView =
  bv_buf :: Buffer
  bv_offset :: nat
  bv_size :: nat

record ImageConfig =
  img_label :: string
  img_width :: nat
  img_height :: nat

record Image =
  img :: handle
  img_cfg :: ImageConfig

record ImageView =
  iv_img :: Image
  x_offset :: nat
  y_offset :: nat
  width :: nat
  height :: nat

record Task =
  task_label :: string
  pipe :: handle
  pipe_layout :: handle

record ResourcePool =
  desc_set :: handle

record RenderPass =
  pass :: handle
  framebuf :: handle
  viewport_extent :: "nat \<times> nat"
  clear_value :: "u32 list"

record Timestamp =
  query_pool :: handle

record TransactionSubmitDetail =
  submit_ty :: SubmitType
  cmd_pool :: handle
  cmdbuf :: handle
  wait_sema :: handle
  signal_sema :: handle

record Transaction =
  transact_label :: string
  transact_submit_details :: "TransactionSubmitDetail list"

text \<open>The tagged union \<open>Command\<close>: one constructor per tag of the switch in
  \<open>_record_cmd\<close>, carrying the payload that tag selects. A tag value the switch does
  not list is \<open>UnknownCommandType\<close> with the raw value.\<close>

datatype Command =
    L_COMMAND_TYPE_SET_SUBMIT_TYPE SubmitType
  | L_COMMAND_TYPE_INLINE_TRANSACTION Transaction
  | L_COMMAND_TYPE_COPY_BUFFER_TO_IMAGE BufferView ImageView
  | L_COMMAND_TYPE_COPY_IMAGE_TO_BUFFER ImageView BufferView
  | L_COMMAND_TYPE_COPY_BUFFER BufferView BufferView
  | L_COMMAND_TYPE_COPY_IMAGE ImageView ImageView
  | L_COMMAND_TYPE_DISPATCH Task ResourcePool "nat \<times> nat \<times> nat"
  | L_COMMAND_TYPE_DRAW Task ResourcePool BufferView nat nat
  | L_COMMAND_TYPE_DRAW_INDEXED Task ResourcePool BufferView BufferView nat nat
  | L_COMMAND_TYPE_WRITE_TIMESTAMP Timestamp
  | L_COMMAND_TYPE_BUFFER_BARRIER Buffer BufferUsage MemoryAccess BufferUsage MemoryAccess
  | L_COMMAND_TYPE_IMAGE_BARRIER Image ImageUsage MemoryAccess ImageUsage MemoryAccess
  | L_COMMAND_TYPE_BEGIN_RENDER_PASS RenderPass bool
  | L_COMMAND_TYPE_END_RENDER_PASS
  | UnknownCommandType nat

section \<open>The device: what the Vulkan calls leave behind\<close>

record VkBufferImageCopy =
  bufferOffset :: nat
  bufferRowLength :: nat
  bufferImageHeight :: nat
  bic_aspectMask :: u32
  bic_mipLevel :: nat
  bic_baseArrayLayer :: nat
  bic_layerCount :: nat
  imageOffset :: "nat \<times> nat"
  imageExtent :: "nat \<times> nat \<times> nat"

record VkBufferCopy =
  bc_srcOffset :: nat
  bc_dstOffset :: nat
  bc_size :: nat

record VkImageCopy =
  ic_srcOffset :: "nat \<times> nat"
  ic_dstOffset :: "nat \<times> nat"
  ic_aspectMask :: u32
  ic_extent :: "nat \<times> nat \<times> nat"

record VkBufferMemoryBarrier =
  bmb_buffer :: handle
  bmb_srcAccessMask :: u32
  bmb_dstAccessMask :: u32
  bmb_srcQueueFamilyIndex :: u32
  bmb_dstQueueFamilyIndex :: u32
  bmb_offset :: "64 word"
  bmb_size :: "64 word"

record VkImageMemoryBarrier =
  imb_image :: handle
  imb_srcAccessMask :: u32
  imb_dstAccessMask :: u32
  imb_oldLayout :: VkImageLayout
  imb_newLayout :: VkImageLayout
  imb_srcQueueFamilyIndex :: u32
  imb_dstQueueFamilyIndex :: u32
  imb_aspectMask :: u32
  imb_baseArrayLayer :: nat
  imb_layerCount :: u32
  imb_baseMipLevel :: nat
  imb_levelCount :: u32

record VkRenderPassBeginInfo =
  rpbi_renderPass :: handle
  rpbi_framebuffer :: handle
  rpbi_extent :: "nat \<times> nat"
  rpbi_clearValues :: "u32 list list"

text \<open>One entry of a command buffer: the Vulkan recording call and its arguments.\<close>

datatype VkCmd =
    vkBeginCommandBuffer u32
  | vkEndCommandBuffer
  | vkCmdExecuteCommands handle
  | vkCmdCopyBufferToImage handle handle VkImageLayout VkBufferImageCopy
  | vkCmdCopyImageToBuffer handle VkImageLayout handle VkBufferImageCopy
  | vkCmdCopyBuffer handle handle VkBufferCopy
  | vkCmdCopyImage handle VkImageLayout handle VkImageLayout VkImageCopy
  | vkCmdBindPipeline VkPipelineBindPoint handle
  | vkCmdBindDescriptorSets VkPipelineBindPoint handle handle
  | vkCmdDispatch nat nat nat
  | vkCmdBindVertexBuffers handle nat
  | vkCmdDraw nat nat
  | vkCmdBindIndexBuffer handle nat
  | vkCmdDrawIndexed nat nat
  | vkCmdResetQueryPool handle
  | vkCmdWriteTimestamp u32 handle
  | vkCmdPipelineBarrier_buf u32 u32 VkBufferMemoryBarrier
  | vkCmdPipelineBarrier_img u32 u32 VkImageMemoryBarrier
  | vkCmdBeginRenderPass VkRenderPassBeginInfo VkSubpassContents
  | vkCmdEndRenderPass

record VkSubmitInfo =
  si_queue :: SubmitType
  si_cmdbuf :: handle
  si_waitSemaphores :: "handle list"
  si_signalSemaphore :: handle
  si_fence :: handle

datatype LogLevel = Debug | Warn

text \<open>A log entry is the level and the arguments of the logging call, in the order the
  call gives them: pieces of text, numbers, and the reading of a host timer (its value is
  not modelled).\<close>

datatype LogArg = Str string | Num nat | TimerUs

abbreviation apostrophe :: char where
  "apostrophe \<equiv> CHR 0x27"

text \<open>The state of the device and of the logging sink. \<open>next_handle\<close> is the last
  handle the driver gave out; \<open>cmdbuf_cmds\<close> is what has been recorded into each
  command buffer; \<open>submits\<close> is the sequence of queue submissions.\<close>

record Device =
  next_handle :: nat
  cmdbuf_cmds :: "handle \<Rightarrow> VkCmd list"
  submits :: "VkSubmitInfo list"
  logs :: "(LogLevel \<times> LogArg list) list"

text \<open>Every creating call of the driver (\<open>vkCreateSemaphore\<close>,
  \<open>vkCreateCommandPool\<close>, \<open>vkAllocateCommandBuffers\<close>, ...) is taken to succeed and
  to return a handle that is not null and was never returned before.\<close>

definition create_handle :: "Device \<Rightarrow> handle \<times> Device" where
  "create_handle dev = (Suc (next_handle dev), dev\<lparr>next_handle := Suc (next_handle dev)\<rparr>)"

definition record_vk :: "handle \<Rightarrow> VkCmd \<Rightarrow> Device \<Rightarrow> Device" where
  "record_vk cb c dev = dev\<lparr>cmdbuf_cmds := (cmdbuf_cmds dev)(cb := cmdbuf_cmds dev cb @ [c])\<rparr>"

definition log_msg :: "LogLevel \<Rightarrow> LogArg list \<Rightarrow> Device \<Rightarrow> Device" where
  "log_msg lv s dev = dev\<lparr>logs := logs dev @ [(lv, s)]\<rparr>"

section \<open>Context\<close>

text \<open>Modelled from the spec: the header with \<open>struct Context\<close> and its accessor
  \<open>get_submit_detail\<close> is not among the sources. The context keeps, per submit class,
  the queue family \<open>create_ctxt\<close> allocated (\<open>queue_allocs\<close>,
  \<open>VK_QUEUE_FAMILY_IGNORED\<close> when no family satisfies the class) and the four
  memory-type priority lists. By the spec a class without a valid family is unsupported
  and a command that needs it fails.\<close>

record Context =
  queue_allocs :: "SubmitType \<rightharpoonup> u32"
  mem_ty_idxs_by_host_access :: "nat list list"

definition get_submit_detail :: "Context \<Rightarrow> SubmitType \<Rightarrow> error + u32" where
  "get_submit_detail c ty =
     (case queue_allocs c ty of
        None \<Rightarrow> Inl (Unsupported ty)
      | Some q \<Rightarrow> if q = VK_QUEUE_FAMILY_IGNORED then Inl (Unsupported ty) else Inr q)"

section \<open>Submit details and command buffers\<close>

record TransactionLike =
  ctxt :: Context
  submit_details :: "TransactionSubmitDetail list"
  level :: VkCommandBufferLevel

definition create_sema :: "Context \<Rightarrow> Device \<Rightarrow> handle \<times> Device" where
  "create_sema c dev = create_handle dev"

definition create_fence :: "Context \<Rightarrow> Device \<Rightarrow> handle \<times> Device" where
  "create_fence c dev = create_handle dev"

definition create_cmd_pool :: "Context \<Rightarrow> SubmitType \<Rightarrow> Device \<Rightarrow> handle \<times> Device" where
  "create_cmd_pool c ty dev = create_handle dev"

definition alloc_cmdbuf ::
  "Context \<Rightarrow> handle \<Rightarrow> VkCommandBufferLevel \<Rightarrow> Device \<Rightarrow> handle \<times> Device" where
  "alloc_cmdbuf c pool lv dev = create_handle dev"

definition begin_cmdbuf :: "TransactionSubmitDetail \<Rightarrow> Device \<Rightarrow> Device" where
  "begin_cmdbuf sd dev =
     record_vk (cmdbuf sd)
       (vkBeginCommandBuffer
          (if submit_ty sd = L_SUBMIT_TYPE_GRAPHICS
           then VK_COMMAND_BUFFER_USAGE_RENDER_PASS_CONTINUE_BIT else 0))
       dev"

definition end_cmdbuf :: "TransactionSubmitDetail \<Rightarrow> Device \<Rightarrow> Device" where
  "end_cmdbuf sd dev = record_vk (cmdbuf sd) vkEndCommandBuffer dev"

definition push_transact_submit_detail ::
  "Context \<Rightarrow> TransactionSubmitDetail list \<Rightarrow> SubmitType \<Rightarrow> VkCommandBufferLevel \<Rightarrow> Device
     \<Rightarrow> TransactionSubmitDetail list \<times> Device" where
  "push_transact_submit_detail c sds ty lv dev =
     (let (pool, dev1) = create_cmd_pool c ty dev;
          (cb, dev2) = alloc_cmdbuf c pool lv dev1;
          w = (if sds = [] then VK_NULL_HANDLE else signal_sema (last sds));
          (s, dev3) = create_sema c dev2
      in (sds @ [\<lparr>submit_ty = ty, cmd_pool = pool, cmdbuf = cb, wait_sema = w,
                   signal_sema = s\<rparr>], dev3))"

definition submit_transact_submit_detail ::
  "Context \<Rightarrow> TransactionSubmitDetail \<Rightarrow> handle \<Rightarrow> Device \<Rightarrow> Device" where
  "submit_transact_submit_detail c sd fence dev =
     dev\<lparr>submits := submits dev @
       [\<lparr>si_queue = submit_ty sd, si_cmdbuf = cmdbuf sd,
         si_waitSemaphores = (if wait_sema sd \<noteq> VK_NULL_HANDLE then [wait_sema sd] else []),
         si_signalSemaphore = signal_sema sd, si_fence = fence\<rparr>]\<rparr>"

text \<open>\<open>_get_cmdbuf\<close>: the command buffer a command of class \<open>ty0\<close> is recorded into.
  A class of any is replaced by the class of the last submit detail; the same class as the
  last detail returns its buffer; otherwise the last buffer is ended (and submitted when
  the recording is primary) and a new detail is pushed and begun.\<close>

definition get_cmdbuf ::
  "TransactionLike \<Rightarrow> SubmitType \<Rightarrow> Device \<Rightarrow> error + (handle \<times> TransactionLike \<times> Device)" where
  "get_cmdbuf t ty0 dev =
     (if ty0 = L_SUBMIT_TYPE_ANY \<and> submit_details t = []
      then Inl (Panic ''cannot infer submit type for submit-type-independent command'')
      else
        let ty = (if ty0 = L_SUBMIT_TYPE_ANY then submit_ty (last (submit_details t)) else ty0)
        in case get_submit_detail (ctxt t) ty of
             Inl e \<Rightarrow> Inl e
           | Inr qfam_idx \<Rightarrow>
               if submit_details t \<noteq> [] \<and> ty = submit_ty (last (submit_details t))
               then Inr (cmdbuf (last (submit_details t)), t, dev)
               else
                 let dev1 =
                       (if submit_details t \<noteq> []
                        then
                          (let d = end_cmdbuf (last (submit_details t)) dev
                           in if level t = VK_COMMAND_BUFFER_LEVEL_PRIMARY
                              then submit_transact_submit_detail (ctxt t)
                                     (last (submit_details t)) VK_NULL_HANDLE d
                              else d)
                        else dev);
                     (sds, dev2) =
                        push_transact_submit_detail (ctxt t) (submit_details t) ty (level t) dev1;
                     dev3 = begin_cmdbuf (last sds) dev2
                 in Inr (cmdbuf (last sds), t\<lparr>submit_details := sds\<rparr>, dev3))"

section \<open>Recording the commands\<close>

type_synonym rec_result = "error + (TransactionLike \<times> Device)"

definition debug_if_primary :: "TransactionLike \<Rightarrow> LogArg list \<Rightarrow> Device \<Rightarrow> Device" where
  "debug_if_primary t s dev =
     (if level t = VK_COMMAND_BUFFER_LEVEL_PRIMARY then log_msg Debug s dev else dev)"

definition record_cmd_set_submit_ty :: "TransactionLike \<Rightarrow> SubmitType \<Rightarrow> Device \<Rightarrow> rec_result" where
  "record_cmd_set_submit_ty t ty dev =
     (case get_cmdbuf t ty dev of
        Inl e \<Rightarrow> Inl e
      | Inr (cb, t1, dev1) \<Rightarrow>
          Inr (t1, debug_if_primary t1 [Str ''command drain submit type is set''] dev1))"

fun inline_transact_loop ::
  "TransactionSubmitDetail list \<Rightarrow> TransactionLike \<Rightarrow> Device \<Rightarrow> rec_result" where
  "inline_transact_loop [] t dev = Inr (t, dev)"
| "inline_transact_loop (sd # sds) t dev =
     (case get_cmdbuf t (submit_ty sd) dev of
        Inl e \<Rightarrow> Inl e
      | Inr (cb, t1, dev1) \<Rightarrow>
          inline_transact_loop sds t1 (record_vk cb (vkCmdExecuteCommands (cmdbuf sd)) dev1))"

definition record_cmd_inline_transact ::
  "TransactionLike \<Rightarrow> Transaction \<Rightarrow> Device \<Rightarrow> rec_result" where
  "record_cmd_inline_transact t sub dev =
     (if level t \<noteq> VK_COMMAND_BUFFER_LEVEL_PRIMARY
      then Inl (Panic ''nested inline transaction is not allowed'')
      else case inline_transact_loop (transact_submit_details sub) t dev of
             Inl e \<Rightarrow> Inl e
           | Inr (t1, dev1) \<Rightarrow>
               Inr (t1, log_msg Debug
                          [Str (''scheduled inline transaction '' @ [apostrophe]),
                           Str (transact_label sub), Str [apostrophe]] dev1))"

definition record_cmd_copy_buf2img ::
  "TransactionLike \<Rightarrow> BufferView \<Rightarrow> ImageView \<Rightarrow> Device \<Rightarrow> rec_result" where
  "record_cmd_copy_buf2img t src dst dev =
     (case get_cmdbuf t L_SUBMIT_TYPE_ANY dev of
        Inl e \<Rightarrow> Inl e
      | Inr (cb, t1, dev1) \<Rightarrow>
          let bic = \<lparr>bufferOffset = bv_offset src, bufferRowLength = 0,
                     bufferImageHeight = img_height (img_cfg (iv_img dst)) mod 2 ^ 32,
                     bic_aspectMask = VK_IMAGE_ASPECT_COLOR_BIT, bic_mipLevel = 0,
                     bic_baseArrayLayer = 0, bic_layerCount = 1,
                     imageOffset = (x_offset dst, y_offset dst),
                     imageExtent = (width dst, height dst, 1)\<rparr>;
              dev2 = record_vk cb
                       (vkCmdCopyBufferToImage (buf (bv_buf src)) (img (iv_img dst))
                          VK_IMAGE_LAYOUT_TRANSFER_DST_OPTIMAL bic) dev1
          in Inr (t1, debug_if_primary t1
                        [Str (''scheduled copy from buffer '' @ [apostrophe]),
                         Str (buf_label (buf_cfg (bv_buf src))),
                         Str (''' to image '' @ [apostrophe]),
                         Str (img_label (img_cfg (iv_img dst))), Str [apostrophe]] dev2))"

definition record_cmd_copy_img2buf ::
  "TransactionLike \<Rightarrow> ImageView \<Rightarrow> BufferView \<Rightarrow> Device \<Rightarrow> rec_result" where
  "record_cmd_copy_img2buf t src dst dev =
     (case get_cmdbuf t L_SUBMIT_TYPE_ANY dev of
        Inl e \<Rightarrow> Inl e
      | Inr (cb, t1, dev1) \<Rightarrow>
          let bic = \<lparr>bufferOffset = bv_offset dst, bufferRowLength = 0,
                     bufferImageHeight = img_height (img_cfg (iv_img src)) mod 2 ^ 32,
                     bic_aspectMask = VK_IMAGE_ASPECT_COLOR_BIT, bic_mipLevel = 0,
                     bic_baseArrayLayer = 0, bic_layerCount = 1,
                     imageOffset = (x_offset src, y_offset src),
                     imageExtent = (width src, height src, 1)\<rparr>;
              dev2 = record_vk cb
                       (vkCmdCopyImageToBuffer (img (iv_img src))
                          VK_IMAGE_LAYOUT_TRANSFER_SRC_OPTIMAL (buf (bv_buf dst)) bic) dev1
          in Inr (t1, debug_if_primary t1
                        [Str (''scheduled copy from image '' @ [apostrophe]),
                         Str (img_label (img_cfg (iv_img src))),
                         Str (''' to buffer '' @ [apostrophe]),
                         Str (buf_label (buf_cfg (bv_buf dst))), Str [apostrophe]] dev2))"

definition record_cmd_copy_buf ::
  "TransactionLike \<Rightarrow> BufferView \<Rightarrow> BufferView \<Rightarrow> Device \<Rightarrow> rec_result" where
  "record_cmd_copy_buf t src dst dev =
     (if bv_size src \<noteq> bv_size dst then Inl (Panic ''buffer copy size mismatched'')
      else case get_cmdbuf t L_SUBMIT_TYPE_ANY dev of
             Inl e \<Rightarrow> Inl e
           | Inr (cb, t1, dev1) \<Rightarrow>
               let bc = \<lparr>bc_srcOffset = bv_offset src, bc_dstOffset = bv_offset dst,
                         bc_size = bv_size dst\<rparr>;
                   dev2 = record_vk cb
                            (vkCmdCopyBuffer (buf (bv_buf src)) (buf (bv_buf dst)) bc) dev1
               in Inr (t1, debug_if_primary t1
                             [Str (''scheduled copy from buffer '' @ [apostrophe]),
                              Str (buf_label (buf_cfg (bv_buf src))),
                              Str (''' to buffer '' @ [apostrophe]),
                              Str (buf_label (buf_cfg (bv_buf dst))), Str [apostrophe]] dev2))"

definition record_cmd_copy_img ::
  "TransactionLike \<Rightarrow> ImageView \<Rightarrow> ImageView \<Rightarrow> Device \<Rightarrow> rec_result" where
  "record_cmd_copy_img t src dst dev =
     (if \<not> (width src = width dst \<and> height src = height dst)
      then Inl (Panic ''image copy size mismatched'')
      else case get_cmdbuf t L_SUBMIT_TYPE_ANY dev of
             Inl e \<Rightarrow> Inl e
           | Inr (cb, t1, dev1) \<Rightarrow>
               let ic = \<lparr>ic_srcOffset = (x_offset src, y_offset src),
                         ic_dstOffset = (x_offset dst, y_offset dst),
                         ic_aspectMask = VK_IMAGE_ASPECT_COLOR_BIT,
                         ic_extent = (width dst, height dst, 1)\<rparr>;
                   dev2 = record_vk cb
                            (vkCmdCopyImage (img (iv_img src)) VK_IMAGE_LAYOUT_TRANSFER_SRC_OPTIMAL
                               (img (iv_img dst)) VK_IMAGE_LAYOUT_TRANSFER_DST_OPTIMAL ic) dev1
               in Inr (t1, debug_if_primary t1
                             [Str (''scheduled copy from image '' @ [apostrophe]),
                              Str (img_label (img_cfg (iv_img src))),
                              Str (''' to image '' @ [apostrophe]),
                              Str (img_label (img_cfg (iv_img dst))), Str [apostrophe]] dev2))"

definition bind_desc_set ::
  "handle \<Rightarrow> VkPipelineBindPoint \<Rightarrow> Task \<Rightarrow> ResourcePool \<Rightarrow> Device \<Rightarrow> Device" where
  "bind_desc_set cb bp task rsc_pool dev =
     (if desc_set rsc_pool \<noteq> VK_NULL_HANDLE
      then record_vk cb (vkCmdBindDescriptorSets bp (pipe_layout task) (desc_set rsc_pool)) dev
      else dev)"

definition record_cmd_dispatch ::
  "TransactionLike \<Rightarrow> Task \<Rightarrow> ResourcePool \<Rightarrow> nat \<times> nat \<times> nat \<Rightarrow> Device \<Rightarrow> rec_result" where
  "record_cmd_dispatch t task rsc_pool nworkgrp dev =
     (case get_cmdbuf t L_SUBMIT_TYPE_COMPUTE dev of
        Inl e \<Rightarrow> Inl e
      | Inr (cb, t1, dev1) \<Rightarrow>
          let dev2 = record_vk cb (vkCmdBindPipeline VK_PIPELINE_BIND_POINT_COMPUTE (pipe task)) dev1;
              dev3 = bind_desc_set cb VK_PIPELINE_BIND_POINT_COMPUTE task rsc_pool dev2;
              dev4 = (case nworkgrp of (x, y, z) \<Rightarrow> record_vk cb (vkCmdDispatch x y z) dev3)
          in Inr (t1, debug_if_primary t1
                        [Str (''scheduled compute task '' @ [apostrophe]), Str (task_label task),
                         Str ''' for execution''] dev4))"

definition record_cmd_draw ::
  "TransactionLike \<Rightarrow> Task \<Rightarrow> ResourcePool \<Rightarrow> BufferView \<Rightarrow> nat \<Rightarrow> nat \<Rightarrow> Device \<Rightarrow> rec_result" where
  "record_cmd_draw t task rsc_pool verts nvert ninst dev =
     (case get_cmdbuf t L_SUBMIT_TYPE_GRAPHICS dev of
        Inl e \<Rightarrow> Inl e
      | Inr (cb, t1, dev1) \<Rightarrow>
          let dev2 = record_vk cb (vkCmdBindPipeline VK_PIPELINE_BIND_POINT_GRAPHICS (pipe task)) dev1;
              dev3 = bind_desc_set cb VK_PIPELINE_BIND_POINT_GRAPHICS task rsc_pool dev2;
              dev4 = record_vk cb (vkCmdBindVertexBuffers (buf (bv_buf verts)) (bv_offset verts)) dev3;
              dev5 = record_vk cb (vkCmdDraw nvert ninst) dev4
          in Inr (t1, debug_if_primary t1
                        [Str (''scheduled graphics task '' @ [apostrophe]), Str (task_label task),
                         Str ''' for execution''] dev5))"

definition record_cmd_draw_indexed ::
  "TransactionLike \<Rightarrow> Task \<Rightarrow> ResourcePool \<Rightarrow> BufferView \<Rightarrow> BufferView \<Rightarrow> nat \<Rightarrow> nat \<Rightarrow> Device
     \<Rightarrow> rec_result" where
  "record_cmd_draw_indexed t task rsc_pool verts idxs nidx ninst dev =
     (case get_cmdbuf t L_SUBMIT_TYPE_GRAPHICS dev of
        Inl e \<Rightarrow> Inl e
      | Inr (cb, t1, dev1) \<Rightarrow>
          let dev2 = record_vk cb (vkCmdBindPipeline VK_PIPELINE_BIND_POINT_GRAPHICS (pipe task)) dev1;
              dev3 = bind_desc_set cb VK_PIPELINE_BIND_POINT_GRAPHICS task rsc_pool dev2;
              dev4 = record_vk cb (vkCmdBindVertexBuffers (buf (bv_buf verts)) (bv_offset verts)) dev3;
              dev5 = record_vk cb (vkCmdBindIndexBuffer (buf (bv_buf idxs)) (bv_offset idxs)) dev4;
              dev6 = record_vk cb (vkCmdDrawIndexed nidx ninst) dev5
          in Inr (t1, debug_if_primary t1
                        [Str (''scheduled graphics task '' @ [apostrophe]), Str (task_label task),
                         Str ''' for execution''] dev6))"

definition record_cmd_write_timestamp ::
  "TransactionLike \<Rightarrow> Timestamp \<Rightarrow> Device \<Rightarrow> rec_result" where
  "record_cmd_write_timestamp t ts dev =
     (case get_cmdbuf t L_SUBMIT_TYPE_ANY dev of
        Inl e \<Rightarrow> Inl e
      | Inr (cb, t1, dev1) \<Rightarrow>
          let dev2 = record_vk cb (vkCmdResetQueryPool (query_pool ts)) dev1;
              dev3 = record_vk cb
                       (vkCmdWriteTimestamp VK_PIPELINE_STAGE_ALL_COMMANDS_BIT (query_pool ts)) dev2
          in Inr (t1, debug_if_primary t1 [Str ''scheduled timestamp write''] dev3))"

subsection \<open>Barriers\<close>

text \<open>\<open>_make_buf_barrier_params\<close> takes \<open>access\<close> by reference and \<open>stage\<close> by
  value. The result is the final value of both; what the function writes to \<open>stage\<close>
  stays in its own copy.\<close>

definition make_buf_barrier_params ::
  "BufferUsage \<Rightarrow> MemoryAccess \<Rightarrow> u32 \<Rightarrow> u32 \<Rightarrow> error + (u32 \<times> u32)" where
  "make_buf_barrier_params usage dev_access access stage =
     (if dev_access = L_MEMORY_ACCESS_NONE then Inr (access, stage)
      else if usage = 0 then Inl (Panic ''buffer barrier must be specified with a usage'')
      else if usage = L_BUFFER_USAGE_STAGING_BIT then
        (if dev_access = L_MEMORY_ACCESS_READ_ONLY
         then Inr (VK_ACCESS_TRANSFER_READ_BIT, VK_PIPELINE_STAGE_TRANSFER_BIT)
         else if dev_access = L_MEMORY_ACCESS_WRITE_ONLY
         then Inr (VK_ACCESS_TRANSFER_WRITE_BIT, VK_PIPELINE_STAGE_TRANSFER_BIT)
         else Inl (Panic ''buffer used for staging can't be both read and written''))
      else if usage = L_BUFFER_USAGE_VERTEX_BIT then
        (if dev_access = L_MEMORY_ACCESS_READ_ONLY
         then Inr (VK_ACCESS_VERTEX_ATTRIBUTE_READ_BIT, VK_PIPELINE_STAGE_VERTEX_INPUT_BIT)
         else Inl (Panic ''buffer used for vertex input cannot be written''))
      else if usage = L_BUFFER_USAGE_INDEX_BIT then
        (if dev_access = L_MEMORY_ACCESS_READ_ONLY
         then Inr (VK_ACCESS_INDEX_READ_BIT, VK_PIPELINE_STAGE_VERTEX_INPUT_BIT)
         else Inl (Panic ''buffer used for index input cannot be written''))
      else if usage = L_BUFFER_USAGE_UNIFORM_BIT then
        (if dev_access = L_MEMORY_ACCESS_READ_ONLY
         then Inr (VK_ACCESS_UNIFORM_READ_BIT,
                   VK_PIPELINE_STAGE_VERTEX_SHADER_BIT OR VK_PIPELINE_STAGE_FRAGMENT_SHADER_BIT
                     OR VK_PIPELINE_STAGE_COMPUTE_SHADER_BIT)
         else Inl (Panic ''buffer used for uniform cannot be written''))
      else if usage = L_BUFFER_USAGE_STORAGE_BIT then
        (if dev_access = L_MEMORY_ACCESS_READ_ONLY
         then Inr (VK_ACCESS_SHADER_READ_BIT,
                   VK_PIPELINE_STAGE_ALL_GRAPHICS_BIT OR VK_PIPELINE_STAGE_COMPUTE_SHADER_BIT)
         else if dev_access = L_MEMORY_ACCESS_WRITE_BIT
         then Inr (VK_ACCESS_SHADER_WRITE_BIT,
                   VK_PIPELINE_STAGE_ALL_GRAPHICS_BIT OR VK_PIPELINE_STAGE_COMPUTE_SHADER_BIT)
         else Inr (VK_ACCESS_SHADER_READ_BIT OR VK_ACCESS_SHADER_WRITE_BIT,
                   VK_PIPELINE_STAGE_ALL_GRAPHICS_BIT OR VK_PIPELINE_STAGE_COMPUTE_SHADER_BIT))
      else Inl (Panic ''cannot make buffer barrier with a set of usage''))"

text \<open>The chain of usages the two image functions share, from \<open>staging\<close> on. The
  access of an attachment that is not read is the only place where source and destination
  differ (\<open>attachment_access\<close>).\<close>

definition make_img_barrier_usage_chain ::
  "u32 \<Rightarrow> ImageUsage \<Rightarrow> MemoryAccess \<Rightarrow> error + (u32 \<times> u32 \<times> VkImageLayout)" where
  "make_img_barrier_usage_chain attachment_access usage dev_access =
     (if usage = L_IMAGE_USAGE_STAGING_BIT then
        (if dev_access = L_MEMORY_ACCESS_READ_ONLY
         then Inr (VK_ACCESS_TRANSFER_READ_BIT, VK_PIPELINE_STAGE_TRANSFER_BIT,
                   VK_IMAGE_LAYOUT_TRANSFER_SRC_OPTIMAL)
         else if dev_access = L_MEMORY_ACCESS_WRITE_ONLY
         then Inr (VK_ACCESS_TRANSFER_WRITE_BIT, VK_PIPELINE_STAGE_TRANSFER_BIT,
                   VK_IMAGE_LAYOUT_TRANSFER_DST_OPTIMAL)
         else Inl (Panic ''image used for staging can't be both read and written''))
      else if usage = L_IMAGE_USAGE_ATTACHMENT_BIT then
        (if dev_access = L_MEMORY_ACCESS_READ_ONLY
         then Inr (VK_ACCESS_INPUT_ATTACHMENT_READ_BIT, VK_PIPELINE_STAGE_FRAGMENT_SHADER_BIT,
                   VK_IMAGE_LAYOUT_COLOR_ATTACHMENT_OPTIMAL)
         else Inr (attachment_access, VK_PIPELINE_STAGE_COLOR_ATTACHMENT_OUTPUT_BIT,
                   VK_IMAGE_LAYOUT_COLOR_ATTACHMENT_OPTIMAL))
      else if usage = L_IMAGE_USAGE_SAMPLED_BIT then
        (if dev_access = L_MEMORY_ACCESS_READ_ONLY
         then Inr (VK_ACCESS_SHADER_READ_BIT,
                   VK_PIPELINE_STAGE_FRAGMENT_SHADER_BIT OR VK_PIPELINE_STAGE_COMPUTE_SHADER_BIT,
                   VK_IMAGE_LAYOUT_SHADER_READ_ONLY_OPTIMAL)
         else Inl (Panic ''image used for sampling cannot be written''))
      else if usage = L_IMAGE_USAGE_STORAGE_BIT then
        (if dev_access = L_MEMORY_ACCESS_READ_ONLY
         then Inr (VK_ACCESS_SHADER_READ_BIT,
                   VK_PIPELINE_STAGE_FRAGMENT_SHADER_BIT OR VK_PIPELINE_STAGE_COMPUTE_SHADER_BIT,
                   VK_IMAGE_LAYOUT_GENERAL)
         else if dev_access = L_MEMORY_ACCESS_WRITE_ONLY
         then Inr (VK_ACCESS_SHADER_WRITE_BIT,
                   VK_PIPELINE_STAGE_FRAGMENT_SHADER_BIT OR VK_PIPELINE_STAGE_COMPUTE_SHADER_BIT,
                   VK_IMAGE_LAYOUT_GENERAL)
         else Inr (VK_ACCESS_SHADER_READ_BIT OR VK_ACCESS_SHADER_WRITE_BIT,
                   VK_PIPELINE_STAGE_FRAGMENT_SHADER_BIT OR VK_PIPELINE_STAGE_COMPUTE_SHADER_BIT,
                   VK_IMAGE_LAYOUT_GENERAL))
      else if usage = L_IMAGE_USAGE_PRESENT_BIT then
        (if dev_access = L_MEMORY_ACCESS_READ_ONLY
         then Inr (0, VK_PIPELINE_STAGE_BOTTOM_OF_PIPE_BIT, VK_IMAGE_LAYOUT_PRESENT_SRC_KHR)
         else Inl (Panic ''image used for present cannot be written''))
      else Inl (Panic ''cannot make image barrier with a set of usage''))"

definition make_img_barrier_src_params ::
  "ImageUsage \<Rightarrow> MemoryAccess \<Rightarrow> u32 \<Rightarrow> u32 \<Rightarrow> VkImageLayout
     \<Rightarrow> error + (u32 \<times> u32 \<times> VkImageLayout)" where
  "make_img_barrier_src_params usage dev_access access stage layout =
     (if dev_access = L_MEMORY_ACCESS_NONE then Inr (access, stage, layout)
      else if usage = L_IMAGE_USAGE_NONE
      then Inr (0, VK_PIPELINE_STAGE_BOTTOM_OF_PIPE_BIT, VK_IMAGE_LAYOUT_UNDEFINED)
      else make_img_barrier_usage_chain VK_ACCESS_COLOR_ATTACHMENT_WRITE_BIT usage dev_access)"

text \<open>In the destination function the branch for \<open>L_IMAGE_USAGE_NONE\<close> is an
  \<open>if\<close> of its own, not the head of the chain: the chain runs after it and, since no
  other usage equals none, ends in its last \<open>else\<close>.\<close>

definition make_img_barrier_dst_params ::
  "ImageUsage \<Rightarrow> MemoryAccess \<Rightarrow> u32 \<Rightarrow> u32 \<Rightarrow> VkImageLayout
     \<Rightarrow> error + (u32 \<times> u32 \<times> VkImageLayout)" where
  "make_img_barrier_dst_params usage dev_access access stage layout =
     (if dev_access = L_MEMORY_ACCESS_NONE then Inr (access, stage, layout)
      else make_img_barrier_usage_chain VK_ACCESS_COLOR_ATTACHMENT_READ_BIT usage dev_access)"

definition record_cmd_buf_barrier ::
  "TransactionLike \<Rightarrow> Buffer \<Rightarrow> BufferUsage \<Rightarrow> MemoryAccess \<Rightarrow> BufferUsage \<Rightarrow> MemoryAccess
     \<Rightarrow> Device \<Rightarrow> rec_result" where
  "record_cmd_buf_barrier t b src_usage src_dev_access dst_usage dst_dev_access dev =
     (case get_cmdbuf t L_SUBMIT_TYPE_ANY dev of
        Inl e \<Rightarrow> Inl e
      | Inr (cb, t1, dev1) \<Rightarrow>
          (let src_stage = VK_PIPELINE_STAGE_BOTTOM_OF_PIPE_BIT;
               dst_stage = VK_PIPELINE_STAGE_TOP_OF_PIPE_BIT
           in (case make_buf_barrier_params src_usage src_dev_access 0 src_stage of
                 Inl e \<Rightarrow> Inl e
               | Inr (src_access, src_stage_copy) \<Rightarrow>
                   (case make_buf_barrier_params dst_usage dst_dev_access 0 dst_stage of
                      Inl e \<Rightarrow> Inl e
                    | Inr (dst_access, dst_stage_copy) \<Rightarrow>
                        (let bmb = \<lparr>bmb_buffer = buf b, bmb_srcAccessMask = src_access,
                                    bmb_dstAccessMask = dst_access,
                                    bmb_srcQueueFamilyIndex = VK_QUEUE_FAMILY_IGNORED,
                                    bmb_dstQueueFamilyIndex = VK_QUEUE_FAMILY_IGNORED,
                                    bmb_offset = 0, bmb_size = VK_WHOLE_SIZE\<rparr>;
                             dev2 = record_vk cb
                                      (vkCmdPipelineBarrier_buf src_stage dst_stage bmb) dev1
                         in Inr (t1, debug_if_primary t1 [Str ''scheduled buffer barrier''] dev2))))))"

definition record_cmd_img_barrier ::
  "TransactionLike \<Rightarrow> Image \<Rightarrow> ImageUsage \<Rightarrow> MemoryAccess \<Rightarrow> ImageUsage \<Rightarrow> MemoryAccess
     \<Rightarrow> Device \<Rightarrow> rec_result" where
  "record_cmd_img_barrier t i src_usage src_dev_access dst_usage dst_dev_access dev =
     (case get_cmdbuf t L_SUBMIT_TYPE_ANY dev of
        Inl e \<Rightarrow> Inl e
      | Inr (cb, t1, dev1) \<Rightarrow>
          (case make_img_barrier_src_params src_usage src_dev_access
                  0 VK_PIPELINE_STAGE_BOTTOM_OF_PIPE_BIT VK_IMAGE_LAYOUT_UNDEFINED of
             Inl e \<Rightarrow> Inl e
           | Inr (src_access, src_stage, src_layout) \<Rightarrow>
               (case make_img_barrier_dst_params dst_usage dst_dev_access
                       0 VK_PIPELINE_STAGE_TOP_OF_PIPE_BIT VK_IMAGE_LAYOUT_UNDEFINED of
                  Inl e \<Rightarrow> Inl e
                | Inr (dst_access, dst_stage, dst_layout) \<Rightarrow>
                    let imb = \<lparr>imb_image = img i, imb_srcAccessMask = src_access,
                               imb_dstAccessMask = dst_access, imb_oldLayout = src_layout,
                               imb_newLayout = dst_layout,
                               imb_srcQueueFamilyIndex = VK_QUEUE_FAMILY_IGNORED,
                               imb_dstQueueFamilyIndex = VK_QUEUE_FAMILY_IGNORED,
                               imb_aspectMask = VK_IMAGE_ASPECT_COLOR_BIT,
                               imb_baseArrayLayer = 0,
                               imb_layerCount = VK_REMAINING_ARRAY_LAYERS,
                               imb_baseMipLevel = 0,
                               imb_levelCount = VK_REMAINING_MIP_LEVELS\<rparr>;
                        dev2 = record_vk cb (vkCmdPipelineBarrier_img src_stage dst_stage imb) dev1
                    in Inr (t1, debug_if_primary t1 [Str ''scheduled image barrier''] dev2))))"

subsection \<open>Render passes\<close>

definition record_cmd_begin_pass :: "TransactionLike \<Rightarrow> RenderPass \<Rightarrow> bool \<Rightarrow> Device \<Rightarrow> rec_result" where
  "record_cmd_begin_pass t p draw_inline dev =
     (if level t \<noteq> VK_COMMAND_BUFFER_LEVEL_PRIMARY then Inl (Panic [])
      else case get_cmdbuf t L_SUBMIT_TYPE_GRAPHICS dev of
             Inl e \<Rightarrow> Inl e
           | Inr (cb, t1, dev1) \<Rightarrow>
               let rpbi = \<lparr>rpbi_renderPass = pass p, rpbi_framebuffer = framebuf p,
                           rpbi_extent = viewport_extent p, rpbi_clearValues = [clear_value p]\<rparr>;
                   sc = (if draw_inline then VK_SUBPASS_CONTENTS_INLINE
                         else VK_SUBPASS_CONTENTS_SECONDARY_COMMAND_BUFFERS);
                   dev2 = record_vk cb (vkCmdBeginRenderPass rpbi sc) dev1
               in Inr (t1, log_msg Debug [Str ''scheduled render pass begin''] dev2))"

definition record_cmd_end_pass :: "TransactionLike \<Rightarrow> Device \<Rightarrow> rec_result" where
  "record_cmd_end_pass t dev =
     (if level t \<noteq> VK_COMMAND_BUFFER_LEVEL_PRIMARY then Inl (Panic [])
      else case get_cmdbuf t L_SUBMIT_TYPE_GRAPHICS dev of
             Inl e \<Rightarrow> Inl e
           | Inr (cb, t1, dev1) \<Rightarrow>
               Inr (t1, log_msg Debug [Str ''scheduled render pass end'']
                          (record_vk cb vkCmdEndRenderPass dev1)))"

subsection \<open>The dispatch on the tag\<close>

fun record_cmd :: "TransactionLike \<Rightarrow> Command \<Rightarrow> Device \<Rightarrow> rec_result" where
  "record_cmd t (L_COMMAND_TYPE_SET_SUBMIT_TYPE ty) dev = record_cmd_set_submit_ty t ty dev"
| "record_cmd t (L_COMMAND_TYPE_INLINE_TRANSACTION sub) dev = record_cmd_inline_transact t sub dev"
| "record_cmd t (L_COMMAND_TYPE_COPY_BUFFER_TO_IMAGE src dst) dev = record_cmd_copy_buf2img t src dst dev"
| "record_cmd t (L_COMMAND_TYPE_COPY_IMAGE_TO_BUFFER src dst) dev = record_cmd_copy_img2buf t src dst dev"
| "record_cmd t (L_COMMAND_TYPE_COPY_BUFFER src dst) dev = record_cmd_copy_buf t src dst dev"
| "record_cmd t (L_COMMAND_TYPE_COPY_IMAGE src dst) dev = record_cmd_copy_img t src dst dev"
| "record_cmd t (L_COMMAND_TYPE_DISPATCH task rsc_pool nworkgrp) dev =
     record_cmd_dispatch t task rsc_pool nworkgrp dev"
| "record_cmd t (L_COMMAND_TYPE_DRAW task rsc_pool verts nvert ninst) dev =
     record_cmd_draw t task rsc_pool verts nvert ninst dev"
| "record_cmd t (L_COMMAND_TYPE_DRAW_INDEXED task rsc_pool verts idxs nidx ninst) dev =
     record_cmd_draw_indexed t task rsc_pool verts idxs nidx ninst dev"
| "record_cmd t (L_COMMAND_TYPE_WRITE_TIMESTAMP ts) dev = record_cmd_write_timestamp t ts dev"
| "record_cmd t (L_COMMAND_TYPE_BUFFER_BARRIER b su sa du da) dev =
     record_cmd_buf_barrier t b su sa du da dev"
| "record_cmd t (L_COMMAND_TYPE_IMAGE_BARRIER i su sa du da) dev =
     record_cmd_img_barrier t i su sa du da dev"
| "record_cmd t (L_COMMAND_TYPE_BEGIN_RENDER_PASS p draw_inline) dev =
     record_cmd_begin_pass t p draw_inline dev"
| "record_cmd t L_COMMAND_TYPE_END_RENDER_PASS dev = record_cmd_end_pass t dev"
| "record_cmd t (UnknownCommandType tag) dev =
     Inr (t, log_msg Warn [Str ''ignored unknown command: '', Num tag] dev)"

section \<open>Submission and transactions\<close>

record CommandDrain =
  drain_ctxt :: Context
  drain_submit_details :: "TransactionSubmitDetail list"
  fence :: handle

text \<open>The recording loops of \<open>submit_cmds\<close> (which logs each step with its
  index \<open>i\<close>) and of \<open>create_transact\<close>.\<close>

fun submit_cmds_loop :: "nat \<Rightarrow> Command list \<Rightarrow> TransactionLike \<Rightarrow> Device \<Rightarrow> rec_result" where
  "submit_cmds_loop i [] t dev = Inr (t, dev)"
| "submit_cmds_loop i (c # cs) t dev =
     (case record_cmd t c (log_msg Debug [Str ''recording '', Num i, Str ''th command''] dev) of
        Inl e \<Rightarrow> Inl e
      | Inr (t1, dev1) \<Rightarrow> submit_cmds_loop (Suc i) cs t1 dev1)"

fun create_transact_loop :: "Command list \<Rightarrow> TransactionLike \<Rightarrow> Device \<Rightarrow> rec_result" where
  "create_transact_loop [] t dev = Inr (t, dev)"
| "create_transact_loop (c # cs) t dev =
     (case record_cmd t c dev of
        Inl e \<Rightarrow> Inl e
      | Inr (t1, dev1) \<Rightarrow> create_transact_loop cs t1 dev1)"

definition submit_cmds ::
  "CommandDrain \<Rightarrow> Command list \<Rightarrow> Device \<Rightarrow> error + (CommandDrain \<times> Device)" where
  "submit_cmds cmd_drain cmds dev =
     (if cmds = [] then Inl (Panic ''cannot submit empty command buffer'')
      else
        case submit_cmds_loop 0 cmds
               \<lparr>ctxt = drain_ctxt cmd_drain, submit_details = [],
                level = VK_COMMAND_BUFFER_LEVEL_PRIMARY\<rparr> dev of
          Inl e \<Rightarrow> Inl e
        | Inr (t1, dev1) \<Rightarrow>
            if submit_details t1 = [] then Inl (Undefined ''back() of an empty vector'')
            else
              let dev2 = end_cmdbuf (last (submit_details t1)) dev1;
                  dev3 = submit_transact_submit_detail (drain_ctxt cmd_drain)
                           (last (submit_details t1)) (fence cmd_drain) dev2
              in Inr (cmd_drain\<lparr>drain_submit_details := submit_details t1\<rparr>,
                      log_msg Debug
                        [Str ''submitted transaction for execution, command recording took '',
                         TimerUs, Str ''us''] dev3))"

definition create_transact ::
  "string \<Rightarrow> Context \<Rightarrow> Command list \<Rightarrow> Device \<Rightarrow> error + (Transaction \<times> Device)" where
  "create_transact label c cmds dev =
     (case create_transact_loop cmds
             \<lparr>ctxt = c, submit_details = [], level = VK_COMMAND_BUFFER_LEVEL_SECONDARY\<rparr> dev of
        Inl e \<Rightarrow> Inl e
      | Inr (t1, dev1) \<Rightarrow>
          if submit_details t1 = [] then Inl (Undefined ''back() of an empty vector'')
          else
            Inr (\<lparr>transact_label = label, transact_submit_details = submit_details t1\<rparr>,
                 log_msg Debug [Str ''created transaction'']
                   (end_cmdbuf (last (submit_details t1)) dev1)))"

section \<open>Creating a buffer\<close>

record VkBufferCreateInfo =
  bci_usage :: u32
  bci_size :: nat

record VkMemoryRequirements =
  mr_size :: nat
  memoryTypeBits :: u32

record VkMemoryAllocateInfo =
  allocationSize :: nat
  memoryTypeIndex :: nat

text \<open>The five tests of \<open>create_buf\<close> on the usage bits, in their order, starting from
  the zero-initialised create info. The first two or their flags into \<open>bci.usage\<close>, the
  last three assign.\<close>

definition create_buf_usage :: "BufferUsage \<Rightarrow> u32" where
  "create_buf_usage usage =
     (let u0 = 0;
          u1 = (if usage AND L_BUFFER_USAGE_STAGING_BIT \<noteq> 0
                then u0 OR (VK_BUFFER_USAGE_TRANSFER_SRC_BIT OR VK_BUFFER_USAGE_TRANSFER_DST_BIT)
                else u0);
          u2 = (if usage AND L_BUFFER_USAGE_UNIFORM_BIT \<noteq> 0
                then u1 OR (VK_BUFFER_USAGE_UNIFORM_BUFFER_BIT OR VK_BUFFER_USAGE_TRANSFER_DST_BIT)
                else u1);
          u3 = (if usage AND L_BUFFER_USAGE_STORAGE_BIT \<noteq> 0
                then VK_BUFFER_USAGE_STORAGE_BUFFER_BIT OR VK_BUFFER_USAGE_TRANSFER_SRC_BIT
                       OR VK_BUFFER_USAGE_TRANSFER_DST_BIT
                else u2);
          u4 = (if usage AND L_BUFFER_USAGE_VERTEX_BIT \<noteq> 0
                then VK_BUFFER_USAGE_VERTEX_BUFFER_BIT OR VK_BUFFER_USAGE_TRANSFER_DST_BIT
                else u3);
          u5 = (if usage AND L_BUFFER_USAGE_INDEX_BIT \<noteq> 0
                then VK_BUFFER_USAGE_INDEX_BUFFER_BIT OR VK_BUFFER_USAGE_TRANSFER_DST_BIT
                else u4)
      in u5)"

text \<open>The loop over the priority list: the first index whose bit is set in the
  requirement mask replaces the current value and ends the loop. \<open>1 << mem_ty_idx\<close> is
  a shift of a 32-bit integer, undefined for an index of 32 or more.\<close>

fun find_mem_ty_idx :: "u32 \<Rightarrow> nat list \<Rightarrow> nat \<Rightarrow> error + nat" where
  "find_mem_ty_idx bits [] cur = Inr cur"
| "find_mem_ty_idx bits (mem_ty_idx # rest) cur =
     (if 32 \<le> mem_ty_idx then Inl (Undefined ''shift by 32 or more'')
      else if push_bit mem_ty_idx (1 :: u32) AND bits \<noteq> 0 then Inr mem_ty_idx
      else find_mem_ty_idx bits rest cur)"

text \<open>\<open>create_buf\<close>. The memory requirements \<open>mr\<close> are the driver's answer to
  \<open>vkGetBufferMemoryRequirements\<close>. The result carries the buffer and the two
  structures handed to the driver.\<close>

definition create_buf ::
  "Context \<Rightarrow> BufferConfig \<Rightarrow> VkMemoryRequirements \<Rightarrow> Device
     \<Rightarrow> error + (Buffer \<times> VkBufferCreateInfo \<times> VkMemoryAllocateInfo \<times> Device)" where
  "create_buf c cfg mr dev =
     (let bci = \<lparr>bci_usage = create_buf_usage (buf_usage cfg), bci_size = buf_size cfg\<rparr>;
          (b, dev1) = create_handle dev
      in if length (mem_ty_idxs_by_host_access c) \<le> unat (buf_host_access cfg)
         then Inl (Undefined ''index past the end of an array'')
         else
           (case find_mem_ty_idx (memoryTypeBits mr)
                   (mem_ty_idxs_by_host_access c ! unat (buf_host_access cfg)) 0xFF of
              Inl e \<Rightarrow> Inl e
            | Inr idx \<Rightarrow>
                if idx = 0xFF then Inl (Panic ''host access pattern cannot be satisfied'')
                else
                  (let mai = \<lparr>allocationSize = mr_size mr, memoryTypeIndex = idx\<rparr>;
                       (m, dev2) = create_handle dev1
                   in Inr (\<lparr>devmem = m, buf = b, buf_cfg = cfg\<rparr>, bci, mai,
                           log_msg Debug [Str (''created buffer '' @ [apostrophe]), Str (buf_label cfg),
                                          Str [apostrophe]] dev2))))"

section \<open>Pixel formats\<close>

datatype VkFormat =
    VK_FORMAT_UNDEFINED
  | VK_FORMAT_R8_UNORM | VK_FORMAT_R8G8_UNORM | VK_FORMAT_R8G8B8_UNORM | VK_FORMAT_R8G8B8A8_UNORM
  | VK_FORMAT_R8_SNORM | VK_FORMAT_R8G8_SNORM | VK_FORMAT_R8G8B8_SNORM | VK_FORMAT_R8G8B8A8_SNORM
  | VK_FORMAT_R16_UINT | VK_FORMAT_R16G16_UINT | VK_FORMAT_R16G16B16_UINT
  | VK_FORMAT_R16G16B16A16_UINT
  | VK_FORMAT_R16_SINT | VK_FORMAT_R16G16_SINT | VK_FORMAT_R16G16B16_SINT
  | VK_FORMAT_R16G16B16A16_SINT
  | VK_FORMAT_R32_UINT | VK_FORMAT_R32G32_UINT | VK_FORMAT_R32G32B32_UINT
  | VK_FORMAT_R32G32B32A32_UINT
  | VK_FORMAT_R32_SINT | VK_FORMAT_R32G32_SINT | VK_FORMAT_R32G32B32_SINT
  | VK_FORMAT_R32G32B32A32_SINT
  | VK_FORMAT_R32_SFLOAT | VK_FORMAT_R32G32_SFLOAT | VK_FORMAT_R32G32B32_SFLOAT
  | VK_FORMAT_R32G32B32A32_SFLOAT

text \<open>Modelled from the spec: the header that declares \<open>PixelFormat\<close> is not among the
  sources. By the spec a descriptor has a component count (what \<open>get_ncomp()\<close>
  returns), an integer-exponent width and the three flags.\<close>

record PixelFormat =
  get_ncomp :: nat
  int_exp2 :: nat
  is_signed :: bool
  is_single :: bool
  is_half :: bool

text \<open>A \<open>switch\<close> with the cases 1 to 4, each returning; \<open>None\<close> when no case
  matches and control leaves the switch.\<close>

definition switch_1_to_4 :: "nat \<Rightarrow> 'a \<Rightarrow> 'a \<Rightarrow> 'a \<Rightarrow> 'a \<Rightarrow> 'a option" where
  "switch_1_to_4 v a b c d =
     (if v = 1 then Some a else if v = 2 then Some b else if v = 3 then Some c
      else if v = 4 then Some d else None)"

text \<open>The outer switch on \<open>int_exp2\<close> of the integer branches. The bodies of its cases
  do not end in \<open>break\<close>: an inner switch that returns nothing falls through to the
  body of the next case. The inner switches of the cases 2 and 3 test \<open>int_exp2\<close>.\<close>

definition int_fmt_switch ::
  "PixelFormat \<Rightarrow> VkFormat \<times> VkFormat \<times> VkFormat \<times> VkFormat
     \<Rightarrow> VkFormat \<times> VkFormat \<times> VkFormat \<times> VkFormat
     \<Rightarrow> VkFormat \<times> VkFormat \<times> VkFormat \<times> VkFormat \<Rightarrow> VkFormat option" where
  "int_fmt_switch fmt f8 f16 f32 =
     (let case3 = (case f32 of (a, b, c, d) \<Rightarrow> switch_1_to_4 (int_exp2 fmt) a b c d);
          case2 = (case (case f16 of (a, b, c, d) \<Rightarrow> switch_1_to_4 (int_exp2 fmt) a b c d) of
                     Some f \<Rightarrow> Some f | None \<Rightarrow> case3);
          case1 = (case (case f8 of (a, b, c, d) \<Rightarrow> switch_1_to_4 (get_ncomp fmt) a b c d) of
                     Some f \<Rightarrow> Some f | None \<Rightarrow> case2)
      in if int_exp2 fmt = 1 then case1
         else if int_exp2 fmt = 2 then case2
         else if int_exp2 fmt = 3 then case3
         else None)"

definition make_img_fmt :: "PixelFormat \<Rightarrow> error + VkFormat" where
  "make_img_fmt fmt =
     (if is_half fmt then Inl (Panic ''half-precision texture not supported'')
      else
        (case
           (if is_single fmt then
              switch_1_to_4 (get_ncomp fmt) VK_FORMAT_R32_SFLOAT VK_FORMAT_R32G32_SFLOAT
                VK_FORMAT_R32G32B32_SFLOAT VK_FORMAT_R32G32B32A32_SFLOAT
            else if is_signed fmt then
              int_fmt_switch fmt
                (VK_FORMAT_R8_SNORM, VK_FORMAT_R8G8_SNORM, VK_FORMAT_R8G8B8_SNORM,
                 VK_FORMAT_R8G8B8A8_SNORM)
                (VK_FORMAT_R16_SINT, VK_FORMAT_R16G16_SINT, VK_FORMAT_R16G16B16_SINT,
                 VK_FORMAT_R16G16B16A16_SINT)
                (VK_FORMAT_R32_SINT, VK_FORMAT_R32G32_SINT, VK_FORMAT_R32G32B32_SINT,
                 VK_FORMAT_R32G32B32A32_SINT)
            else
              int_fmt_switch fmt
                (VK_FORMAT_R8_UNORM, VK_FORMAT_R8G8_UNORM, VK_FORMAT_R8G8B8_UNORM,
                 VK_FORMAT_R8G8B8A8_UNORM)
                (VK_FORMAT_R16_UINT, VK_FORMAT_R16G16_UINT, VK_FORMAT_R16G16B16_UINT,
                 VK_FORMAT_R16G16B16A16_UINT)
                (VK_FORMAT_R32_UINT, VK_FORMAT_R32G32_UINT, VK_FORMAT_R32G32B32_UINT,
                 VK_FORMAT_R32G32B32A32_UINT)) of
           Some f \<Rightarrow> Inr f
         | None \<Rightarrow> Inl (Panic ''unrecognized pixel format'')))"

text \<open>What a format's name says: how many components it has and how many bits each
  takes.\<close>

fun format_ncomp :: "VkFormat \<Rightarrow> nat" where
  "format_ncomp VK_FORMAT_UNDEFINED = 0"
| "format_ncomp VK_FORMAT_R8_UNORM = 1" | "format_ncomp VK_FORMAT_R8G8_UNORM = 2"
| "format_ncomp VK_FORMAT_R8G8B8_UNORM = 3" | "format_ncomp VK_FORMAT_R8G8B8A8_UNORM = 4"
| "format_ncomp VK_FORMAT_R8_SNORM = 1" | "format_ncomp VK_FORMAT_R8G8_SNORM = 2"
| "format_ncomp VK_FORMAT_R8G8B8_SNORM = 3" | "format_ncomp VK_FORMAT_R8G8B8A8_SNORM = 4"
| "format_ncomp VK_FORMAT_R16_UINT = 1" | "format_ncomp VK_FORMAT_R16G16_UINT = 2"
| "format_ncomp VK_FORMAT_R16G16B16_UINT = 3" | "format_ncomp VK_FORMAT_R16G16B16A16_UINT = 4"
| "format_ncomp VK_FORMAT_R16_SINT = 1" | "format_ncomp VK_FORMAT_R16G16_SINT = 2"
| "format_ncomp VK_FORMAT_R16G16B16_SINT = 3" | "format_ncomp VK_FORMAT_R16G16B16A16_SINT = 4"
| "format_ncomp VK_FORMAT_R32_UINT = 1" | "format_ncomp VK_FORMAT_R32G32_UINT = 2"
| "format_ncomp VK_FORMAT_R32G32B32_UINT = 3" | "format_ncomp VK_FORMAT_R32G32B32A32_UINT = 4"
| "format_ncomp VK_FORMAT_R32_SINT = 1" | "format_ncomp VK_FORMAT_R32G32_SINT = 2"
| "format_ncomp VK_FORMAT_R32G32B32_SINT = 3" | "format_ncomp VK_FORMAT_R32G32B32A32_SINT = 4"
| "format_ncomp VK_FORMAT_R32_SFLOAT = 1" | "format_ncomp VK_FORMAT_R32G32_SFLOAT = 2"
| "format_ncomp VK_FORMAT_R32G32B32_SFLOAT = 3" | "format_ncomp VK_FORMAT_R32G32B32A32_SFLOAT = 4"

fun format_bits :: "VkFormat \<Rightarrow> nat" where
  "format_bits VK_FORMAT_UNDEFINED = 0"
| "format_bits VK_FORMAT_R8_UNORM = 8" | "format_bits VK_FORMAT_R8G8_UNORM = 8"
| "format_bits VK_FORMAT_R8G8B8_UNORM = 8" | "format_bits VK_FORMAT_R8G8B8A8_UNORM = 8"
| "format_bits VK_FORMAT_R8_SNORM = 8" | "format_bits VK_FORMAT_R8G8_SNORM = 8"
| "format_bits VK_FORMAT_R8G8B8_SNORM = 8" | "format_bits VK_FORMAT_R8G8B8A8_SNORM = 8"
| "format_bits VK_FORMAT_R16_UINT = 16" | "format_bits VK_FORMAT_R16G16_UINT = 16"
| "format_bits VK_FORMAT_R16G16B16_UINT = 16" | "format_bits VK_FORMAT_R16G16B16A16_UINT = 16"
| "format_bits VK_FORMAT_R16_SINT = 16" | "format_bits VK_FORMAT_R16G16_SINT = 16"
| "format_bits VK_FORMAT_R16G16B16_SINT = 16" | "format_bits VK_FORMAT_R16G16B16A16_SINT = 16"
| "format_bits f = 32"

section \<open>Choosing queue families in \<open>create_ctxt\<close>\<close>

record VkQueueFamilyProperties =
  queueFlags :: u32
  queueCount :: nat

record QueueFamilyTrait =
  qfam_idx :: u32
  queue_flags :: u32

text \<open>Modelled from the spec: \<open>liong::util::count_set_bits\<close> is declared in a header
  that is not among the sources; by the spec it is the popcount of the capability bits.\<close>

definition count_set_bits :: "u32 \<Rightarrow> nat" where
  "count_set_bits w = length (filter (bit w) [0..<32])"

text \<open>\<open>qfam_map\<close> is a \<open>std::map\<close> from the number of set bits to the families with
  that many: an association list kept in ascending order of its keys. The function below
  is the lookup of the key, the insertion of an empty vector when it is missing, and the
  \<open>emplace_back\<close>.\<close>

type_synonym qfam_map = "(nat \<times> QueueFamilyTrait list) list"

fun qfam_map_emplace_back :: "nat \<Rightarrow> QueueFamilyTrait \<Rightarrow> qfam_map \<Rightarrow> qfam_map" where
  "qfam_map_emplace_back k v [] = [(k, [v])]"
| "qfam_map_emplace_back k v ((k', vs) # m) =
     (if k = k' then (k', vs @ [v]) # m
      else if k < k' then (k, [v]) # (k', vs) # m
      else (k', vs) # qfam_map_emplace_back k v m)"

fun collect_qfams :: "nat \<Rightarrow> VkQueueFamilyProperties list \<Rightarrow> qfam_map \<Rightarrow> qfam_map" where
  "collect_qfams i [] m = m"
| "collect_qfams i (qfam_prop # rest) m =
     collect_qfams (Suc i) rest
       (qfam_map_emplace_back (count_set_bits (queueFlags qfam_prop))
          \<lparr>qfam_idx = of_nat i, queue_flags = queueFlags qfam_prop\<rparr> m)"

text \<open>The inner loop over one bucket: the first family whose flags hold all required
  flags is taken.\<close>

fun search_bucket :: "u32 \<Rightarrow> QueueFamilyTrait list \<Rightarrow> u32 \<Rightarrow> u32" where
  "search_bucket req [] qfam_idx_alloc = qfam_idx_alloc"
| "search_bucket req (qfam_trait # rest) qfam_idx_alloc =
     (if req AND queue_flags qfam_trait = req then qfam_idx qfam_trait
      else search_bucket req rest qfam_idx_alloc)"

text \<open>The outer loop, over the buckets from \<open>rbegin()\<close> to \<open>rend()\<close>; it stops as
  soon as a family has been found.\<close>

fun search_buckets :: "u32 \<Rightarrow> qfam_map \<Rightarrow> u32 \<Rightarrow> u32" where
  "search_buckets req [] qfam_idx_alloc = qfam_idx_alloc"
| "search_buckets req (bucket # rest) qfam_idx_alloc =
     (if qfam_idx_alloc \<noteq> VK_QUEUE_FAMILY_IGNORED then qfam_idx_alloc
      else search_buckets req rest (search_bucket req (snd bucket) qfam_idx_alloc))"

definition submit_ty_reqs :: "(SubmitType \<times> u32) list" where
  "submit_ty_reqs =
     [(L_SUBMIT_TYPE_GRAPHICS, VK_QUEUE_GRAPHICS_BIT), (L_SUBMIT_TYPE_COMPUTE, VK_QUEUE_COMPUTE_BIT)]"

fun alloc_queues ::
  "(SubmitType \<times> u32) list \<Rightarrow> qfam_map \<Rightarrow> (SubmitType \<rightharpoonup> u32) \<Rightarrow> (SubmitType \<rightharpoonup> u32)" where
  "alloc_queues [] m allocs = allocs"
| "alloc_queues ((ty, req_queue_flags) # rest) m allocs =
     alloc_queues rest m
       (allocs(ty \<mapsto> search_buckets req_queue_flags (rev m) VK_QUEUE_FAMILY_IGNORED))"

text \<open>The part of \<open>create_ctxt\<close> from the enumeration of the queue families to the
  allocation per submit class. The messages it logs on the way are left out, and so is the
  index of the device, which the code appends to the message of the panic.\<close>

definition create_ctxt_queue_allocs ::
  "VkQueueFamilyProperties list \<Rightarrow> error + (SubmitType \<rightharpoonup> u32)" where
  "create_ctxt_queue_allocs qfam_props =
     (let m = collect_qfams 0 qfam_props []
      in if qfam_props = [] then Inl (Panic ''cannot find any queue family on device #'')
         else Inr (alloc_queues submit_ty_reqs m Map.empty))"

section \<open>Queue-family buckets\<close>

text \<open>The traits \<open>create_ctxt\<close> builds for the families \<open>ps\<close>, numbered from \<open>i\<close>,
  and what its map of buckets satisfies after the families \<open>ts\<close> have been entered: the
  keys ascend, each bucket holds, in order, the families with as many set bits as its
  key, and every family is in a bucket.\<close>

fun traits_from :: "nat \<Rightarrow> VkQueueFamilyProperties list \<Rightarrow> QueueFamilyTrait list" where
  "traits_from i [] = []"
| "traits_from i (p # ps) =
     \<lparr>qfam_idx = of_nat i, queue_flags = queueFlags p\<rparr> # traits_from (Suc i) ps"

definition qfam_map_inv :: "qfam_map \<Rightarrow> QueueFamilyTrait list \<Rightarrow> bool" where
  "qfam_map_inv m ts =
     (sorted_wrt (<) (map fst m)
      \<and> (\<forall>b\<in>set m. snd b = filter (\<lambda>t. count_set_bits (queue_flags t) = fst b) ts)
      \<and> (\<forall>t\<in>set ts. count_set_bits (queue_flags t) \<in> set (map fst m)))"

text \<open>The family allocated to a submit class; a device with an all-round family 0
  (graphics, compute, transfer) and a compute-only family 1.\<close>

definition allocated_qfam :: "error + (SubmitType \<rightharpoonup> u32) \<Rightarrow> SubmitType \<Rightarrow> u32 option" where
  "allocated_qfam r ty = (case r of Inl e \<Rightarrow> None | Inr allocs \<Rightarrow> allocs ty)"

definition ex_qfams :: "VkQueueFamilyProperties list" where
  "ex_qfams = [\<lparr>queueFlags = 7, queueCount = 1\<rparr>, \<lparr>queueFlags = 2, queueCount = 1\<rparr>]"

section \<open>Classes and semaphores along a recording\<close>

text \<open>The classes a command hands to \<open>_get_cmdbuf\<close>, in the order of its calls:
  set-submit-type hands over the class it names, an inline transaction the class of each
  submit detail of the sub-transaction, dispatch compute, the draws and the render-pass
  commands graphics, every other recognised command any; an unknown command makes no
  call.\<close>

fun required_classes :: "Command \<Rightarrow> SubmitType list" where
  "required_classes (L_COMMAND_TYPE_SET_SUBMIT_TYPE ty) = [ty]"
| "required_classes (L_COMMAND_TYPE_INLINE_TRANSACTION sub) =
     map submit_ty (transact_submit_details sub)"
| "required_classes (L_COMMAND_TYPE_DISPATCH task rsc_pool nworkgrp) = [L_SUBMIT_TYPE_COMPUTE]"
| "required_classes (L_COMMAND_TYPE_DRAW task rsc_pool verts nvert ninst) = [L_SUBMIT_TYPE_GRAPHICS]"
| "required_classes (L_COMMAND_TYPE_DRAW_INDEXED task rsc_pool verts idxs nidx ninst) =
     [L_SUBMIT_TYPE_GRAPHICS]"
| "required_classes (L_COMMAND_TYPE_BEGIN_RENDER_PASS p draw_inline) = [L_SUBMIT_TYPE_GRAPHICS]"
| "required_classes L_COMMAND_TYPE_END_RENDER_PASS = [L_SUBMIT_TYPE_GRAPHICS]"
| "required_classes (UnknownCommandType tag) = []"
| "required_classes c = [L_SUBMIT_TYPE_ANY]"

text \<open>A sequence of required classes with every any replaced by the class current at
  that point (\<open>cur\<close> at the start).\<close>

fun resolve_classes :: "SubmitType \<Rightarrow> SubmitType list \<Rightarrow> SubmitType list" where
  "resolve_classes cur [] = []"
| "resolve_classes cur (c # cs) =
     (if c = L_SUBMIT_TYPE_ANY then cur # resolve_classes cur cs else c # resolve_classes c cs)"

text \<open>The maximal runs of equal class of a command sequence, one class per run.\<close>

definition class_runs :: "Command list \<Rightarrow> SubmitType list" where
  "class_runs cmds =
     remdups_adj (resolve_classes L_SUBMIT_TYPE_ANY (concat (map required_classes cmds)))"

text \<open>The classification in the words of claim C1: dispatch requires compute; draw,
  draw-indexed, begin-render-pass and end-render-pass require graphics; all other
  commands inherit the current class. \<open>claimed_class_runs\<close> are the runs under it.\<close>

fun claimed_required_class :: "Command \<Rightarrow> SubmitType" where
  "claimed_required_class (L_COMMAND_TYPE_DISPATCH task rsc_pool nworkgrp) = L_SUBMIT_TYPE_COMPUTE"
| "claimed_required_class (L_COMMAND_TYPE_DRAW task rsc_pool verts nvert ninst) =
     L_SUBMIT_TYPE_GRAPHICS"
| "claimed_required_class (L_COMMAND_TYPE_DRAW_INDEXED task rsc_pool verts idxs nidx ninst) =
     L_SUBMIT_TYPE_GRAPHICS"
| "claimed_required_class (L_COMMAND_TYPE_BEGIN_RENDER_PASS p draw_inline) = L_SUBMIT_TYPE_GRAPHICS"
| "claimed_required_class L_COMMAND_TYPE_END_RENDER_PASS = L_SUBMIT_TYPE_GRAPHICS"
| "claimed_required_class c = L_SUBMIT_TYPE_ANY"

definition claimed_class_runs :: "Command list \<Rightarrow> SubmitType list" where
  "claimed_class_runs cmds =
     remdups_adj (resolve_classes L_SUBMIT_TYPE_ANY (map claimed_required_class cmds))"

text \<open>A recording step by step: \<open>class_steps tys t n t' n'\<close> holds when successive
  successful calls of \<open>_get_cmdbuf\<close> with the classes \<open>tys\<close> lead from the recording
  \<open>t\<close> on a device whose last handle is \<open>n\<close> to \<open>t'\<close> and \<open>n'\<close>, whatever is
  recorded or logged in between.\<close>

inductive class_steps ::
  "SubmitType list \<Rightarrow> TransactionLike \<Rightarrow> nat \<Rightarrow> TransactionLike \<Rightarrow> nat \<Rightarrow> bool" where
  no_step: "class_steps [] t n t n"
| one_step: "get_cmdbuf t ty dev = Inr (cb, t1, dev1) \<Longrightarrow> next_handle dev = n \<Longrightarrow>
     class_steps tys t1 (next_handle dev1) t' n' \<Longrightarrow> class_steps (ty # tys) t n t' n'"

text \<open>The semaphores of a list of submit details form a chain that starts at \<open>w\<close>.\<close>

fun sema_chained :: "handle \<Rightarrow> TransactionSubmitDetail list \<Rightarrow> bool" where
  "sema_chained w [] = True"
| "sema_chained w (d # ds) = (wait_sema d = w \<and> sema_chained (signal_sema d) ds)"

definition sema_inv :: "nat \<Rightarrow> nat \<Rightarrow> TransactionSubmitDetail list \<Rightarrow> bool" where
  "sema_inv n0 n ds =
     (sema_chained VK_NULL_HANDLE ds \<and> sorted_wrt (<) (map signal_sema ds)
      \<and> (\<forall>d\<in>set ds. n0 < signal_sema d \<and> signal_sema d \<le> n))"

text \<open>The semaphore chain of claim C2 for the submit details \<open>sds\<close> of a translation
  that started when the last handle given out was \<open>n0\<close>: each detail but the first
  waits on the signal semaphore of the one before, the first waits on nothing, and every
  signal semaphore is not null, was created after the start, and belongs to one detail
  only.\<close>

definition semaphore_chain :: "nat \<Rightarrow> TransactionSubmitDetail list \<Rightarrow> bool" where
  "semaphore_chain n0 sds =
     ((\<forall>i<length sds. wait_sema (sds ! i) =
          (if i = 0 then VK_NULL_HANDLE else signal_sema (sds ! (i - 1))))
      \<and> (\<forall>d\<in>set sds. signal_sema d \<noteq> VK_NULL_HANDLE \<and> n0 < signal_sema d)
      \<and> distinct (map signal_sema sds))"

definition drain_details ::
  "error + (CommandDrain \<times> Device) \<Rightarrow> TransactionSubmitDetail list option" where
  "drain_details r =
     (case r of Inl e \<Rightarrow> None | Inr (d, dev) \<Rightarrow> Some (drain_submit_details d))"

definition transact_details ::
  "error + (Transaction \<times> Device) \<Rightarrow> TransactionSubmitDetail list option" where
  "transact_details r =
     (case r of Inl e \<Rightarrow> None | Inr (tr, dev) \<Rightarrow> Some (transact_submit_details tr))"

section \<open>Reading a result\<close>

text \<open>Projections of the result of a recording step: the classes of the submit details,
  the content of one command buffer, and the log; \<open>None\<close> when the step failed.\<close>

definition classes_of :: "rec_result \<Rightarrow> SubmitType list option" where
  "classes_of r = (case r of Inl e \<Rightarrow> None | Inr (t, dev) \<Rightarrow> Some (map submit_ty (submit_details t)))"

definition details_of :: "rec_result \<Rightarrow> TransactionSubmitDetail list option" where
  "details_of r = (case r of Inl e \<Rightarrow> None | Inr (t, dev) \<Rightarrow> Some (submit_details t))"

definition recorded_in :: "rec_result \<Rightarrow> handle \<Rightarrow> VkCmd list option" where
  "recorded_in r cb = (case r of Inl e \<Rightarrow> None | Inr (t, dev) \<Rightarrow> Some (cmdbuf_cmds dev cb))"

definition logged_by :: "rec_result \<Rightarrow> (LogLevel \<times> LogArg list) list option" where
  "logged_by r = (case r of Inl e \<Rightarrow> None | Inr (t, dev) \<Rightarrow> Some (logs dev))"

text \<open>The commands that ask \<open>_get_cmdbuf\<close> for the class any: the copies, the timestamp
  write, the barriers, and a set-submit-type of any.\<close>

fun requires_any :: "Command \<Rightarrow> bool" where
  "requires_any (L_COMMAND_TYPE_SET_SUBMIT_TYPE ty) = (ty = L_SUBMIT_TYPE_ANY)"
| "requires_any (L_COMMAND_TYPE_COPY_BUFFER_TO_IMAGE src dst) = True"
| "requires_any (L_COMMAND_TYPE_COPY_IMAGE_TO_BUFFER src dst) = True"
| "requires_any (L_COMMAND_TYPE_COPY_BUFFER src dst) = True"
| "requires_any (L_COMMAND_TYPE_COPY_IMAGE src dst) = True"
| "requires_any (L_COMMAND_TYPE_WRITE_TIMESTAMP ts) = True"
| "requires_any (L_COMMAND_TYPE_BUFFER_BARRIER b su sa du da) = True"
| "requires_any (L_COMMAND_TYPE_IMAGE_BARRIER i su sa du da) = True"
| "requires_any c = False"

text \<open>The size assertions of the two copies that have one.\<close>

fun copy_sizes_match :: "Command \<Rightarrow> bool" where
  "copy_sizes_match (L_COMMAND_TYPE_COPY_BUFFER src dst) = (bv_size src = bv_size dst)"
| "copy_sizes_match (L_COMMAND_TYPE_COPY_IMAGE src dst) =
     (width src = width dst \<and> height src = height dst)"
| "copy_sizes_match c = True"

text \<open>The usage and access pairs of a barrier are ones its parameter functions accept.\<close>

fun barrier_params_legal :: "Command \<Rightarrow> bool" where
  "barrier_params_legal (L_COMMAND_TYPE_BUFFER_BARRIER b su sa du da) =
     (\<not> isl (make_buf_barrier_params su sa 0 VK_PIPELINE_STAGE_BOTTOM_OF_PIPE_BIT)
      \<and> \<not> isl (make_buf_barrier_params du da 0 VK_PIPELINE_STAGE_TOP_OF_PIPE_BIT))"
| "barrier_params_legal (L_COMMAND_TYPE_IMAGE_BARRIER i su sa du da) =
     (\<not> isl (make_img_barrier_src_params su sa 0 VK_PIPELINE_STAGE_BOTTOM_OF_PIPE_BIT
               VK_IMAGE_LAYOUT_UNDEFINED)
      \<and> \<not> isl (make_img_barrier_dst_params du da 0 VK_PIPELINE_STAGE_TOP_OF_PIPE_BIT
               VK_IMAGE_LAYOUT_UNDEFINED))"
| "barrier_params_legal c = True"

section \<open>The runs of a command sequence and what they record\<close>

text \<open>What a device holds apart from the log: the last handle given out, the content of
  the command buffers and the queue submissions. \<open>effects_of\<close> reads a result up to the
  log.\<close>

definition device_effects ::
  "Device \<Rightarrow> nat \<times> (handle \<Rightarrow> VkCmd list) \<times> VkSubmitInfo list" where
  "device_effects dev = (next_handle dev, cmdbuf_cmds dev, submits dev)"


text \<open>Several calls recorded one after the other into the same command buffer.\<close>

definition record_calls :: "handle \<Rightarrow> VkCmd list \<Rightarrow> Device \<Rightarrow> Device" where
  "record_calls cb calls dev = fold (record_vk cb) calls dev"

text \<open>The pieces of a command: the classes it hands to \<open>_get_cmdbuf\<close>, in order, each
  with the Vulkan calls its handler then records into the command buffer it got. Every
  handler but one asks once; \<open>_record_cmd_inline_transact\<close> asks once per submit detail
  of the sub-transaction and records one \<open>vkCmdExecuteCommands\<close> each time; an unknown
  command asks for nothing. The calls of a barrier are read where its parameter functions
  accept the usages and accesses (where they do not, the handler fails).\<close>

type_synonym piece = "SubmitType \<times> VkCmd list"

definition desc_set_calls :: "VkPipelineBindPoint \<Rightarrow> Task \<Rightarrow> ResourcePool \<Rightarrow> VkCmd list" where
  "desc_set_calls bp task rsc_pool =
     (if desc_set rsc_pool \<noteq> VK_NULL_HANDLE
      then [vkCmdBindDescriptorSets bp (pipe_layout task) (desc_set rsc_pool)] else [])"

definition buf_barrier_calls ::
  "Buffer \<Rightarrow> BufferUsage \<Rightarrow> MemoryAccess \<Rightarrow> BufferUsage \<Rightarrow> MemoryAccess \<Rightarrow> VkCmd list" where
  "buf_barrier_calls b su sa du da =
     (case make_buf_barrier_params su sa 0 VK_PIPELINE_STAGE_BOTTOM_OF_PIPE_BIT of
        Inl e \<Rightarrow> []
      | Inr (src_access, src_stage_copy) \<Rightarrow>
          (case make_buf_barrier_params du da 0 VK_PIPELINE_STAGE_TOP_OF_PIPE_BIT of
             Inl e \<Rightarrow> []
           | Inr (dst_access, dst_stage_copy) \<Rightarrow>
               [vkCmdPipelineBarrier_buf VK_PIPELINE_STAGE_BOTTOM_OF_PIPE_BIT
                  VK_PIPELINE_STAGE_TOP_OF_PIPE_BIT
                  \<lparr>bmb_buffer = buf b, bmb_srcAccessMask = src_access,
                   bmb_dstAccessMask = dst_access,
                   bmb_srcQueueFamilyIndex = VK_QUEUE_FAMILY_IGNORED,
                   bmb_dstQueueFamilyIndex = VK_QUEUE_FAMILY_IGNORED,
                   bmb_offset = 0, bmb_size = VK_WHOLE_SIZE\<rparr>]))"

definition img_barrier_calls ::
  "Image \<Rightarrow> ImageUsage \<Rightarrow> MemoryAccess \<Rightarrow> ImageUsage \<Rightarrow> MemoryAccess \<Rightarrow> VkCmd list" where
  "img_barrier_calls i su sa du da =
     (case make_img_barrier_src_params su sa 0 VK_PIPELINE_STAGE_BOTTOM_OF_PIPE_BIT
             VK_IMAGE_LAYOUT_UNDEFINED of
        Inl e \<Rightarrow> []
      | Inr (src_access, src_stage, src_layout) \<Rightarrow>
          (case make_img_barrier_dst_params du da 0 VK_PIPELINE_STAGE_TOP_OF_PIPE_BIT
                  VK_IMAGE_LAYOUT_UNDEFINED of
             Inl e \<Rightarrow> []
           | Inr (dst_access, dst_stage, dst_layout) \<Rightarrow>
               [vkCmdPipelineBarrier_img src_stage dst_stage
                  \<lparr>imb_image = img i, imb_srcAccessMask = src_access,
                   imb_dstAccessMask = dst_access, imb_oldLayout = src_layout,
                   imb_newLayout = dst_layout,
                   imb_srcQueueFamilyIndex = VK_QUEUE_FAMILY_IGNORED,
                   imb_dstQueueFamilyIndex = VK_QUEUE_FAMILY_IGNORED,
                   imb_aspectMask = VK_IMAGE_ASPECT_COLOR_BIT,
                   imb_baseArrayLayer = 0,
                   imb_layerCount = VK_REMAINING_ARRAY_LAYERS,
                   imb_baseMipLevel = 0,
                   imb_levelCount = VK_REMAINING_MIP_LEVELS\<rparr>]))"

fun command_pieces :: "Command \<Rightarrow> piece list" where
  "command_pieces (L_COMMAND_TYPE_SET_SUBMIT_TYPE ty) = [(ty, [])]"
| "command_pieces (L_COMMAND_TYPE_INLINE_TRANSACTION sub) =
     map (\<lambda>sd. (submit_ty sd, [vkCmdExecuteCommands (cmdbuf sd)])) (transact_submit_details sub)"
| "command_pieces (L_COMMAND_TYPE_COPY_BUFFER_TO_IMAGE src dst) =
     [(L_SUBMIT_TYPE_ANY,
       [vkCmdCopyBufferToImage (buf (bv_buf src)) (img (iv_img dst))
          VK_IMAGE_LAYOUT_TRANSFER_DST_OPTIMAL
          \<lparr>bufferOffset = bv_offset src, bufferRowLength = 0,
           bufferImageHeight = img_height (img_cfg (iv_img dst)) mod 2 ^ 32,
           bic_aspectMask = VK_IMAGE_ASPECT_COLOR_BIT, bic_mipLevel = 0,
           bic_baseArrayLayer = 0, bic_layerCount = 1,
           imageOffset = (x_offset dst, y_offset dst),
           imageExtent = (width dst, height dst, 1)\<rparr>])]"
| "command_pieces (L_COMMAND_TYPE_COPY_IMAGE_TO_BUFFER src dst) =
     [(L_SUBMIT_TYPE_ANY,
       [vkCmdCopyImageToBuffer (img (iv_img src)) VK_IMAGE_LAYOUT_TRANSFER_SRC_OPTIMAL
          (buf (bv_buf dst))
          \<lparr>bufferOffset = bv_offset dst, bufferRowLength = 0,
           bufferImageHeight = img_height (img_cfg (iv_img src)) mod 2 ^ 32,
           bic_aspectMask = VK_IMAGE_ASPECT_COLOR_BIT, bic_mipLevel = 0,
           bic_baseArrayLayer = 0, bic_layerCount = 1,
           imageOffset = (x_offset src, y_offset src),
           imageExtent = (width src, height src, 1)\<rparr>])]"
| "command_pieces (L_COMMAND_TYPE_COPY_BUFFER src dst) =
     [(L_SUBMIT_TYPE_ANY,
       [vkCmdCopyBuffer (buf (bv_buf src)) (buf (bv_buf dst))
          \<lparr>bc_srcOffset = bv_offset src, bc_dstOffset = bv_offset dst, bc_size = bv_size dst\<rparr>])]"
| "command_pieces (L_COMMAND_TYPE_COPY_IMAGE src dst) =
     [(L_SUBMIT_TYPE_ANY,
       [vkCmdCopyImage (img (iv_img src)) VK_IMAGE_LAYOUT_TRANSFER_SRC_OPTIMAL
          (img (iv_img dst)) VK_IMAGE_LAYOUT_TRANSFER_DST_OPTIMAL
          \<lparr>ic_srcOffset = (x_offset src, y_offset src),
           ic_dstOffset = (x_offset dst, y_offset dst),
           ic_aspectMask = VK_IMAGE_ASPECT_COLOR_BIT,
           ic_extent = (width dst, height dst, 1)\<rparr>])]"
| "command_pieces (L_COMMAND_TYPE_DISPATCH task rsc_pool (x, y, z)) =
     [(L_SUBMIT_TYPE_COMPUTE,
       vkCmdBindPipeline VK_PIPELINE_BIND_POINT_COMPUTE (pipe task)
         # desc_set_calls VK_PIPELINE_BIND_POINT_COMPUTE task rsc_pool
         @ [vkCmdDispatch x y z])]"
| "command_pieces (L_COMMAND_TYPE_DRAW task rsc_pool verts nvert ninst) =
     [(L_SUBMIT_TYPE_GRAPHICS,
       vkCmdBindPipeline VK_PIPELINE_BIND_POINT_GRAPHICS (pipe task)
         # desc_set_calls VK_PIPELINE_BIND_POINT_GRAPHICS task rsc_pool
         @ [vkCmdBindVertexBuffers (buf (bv_buf verts)) (bv_offset verts),
            vkCmdDraw nvert ninst])]"
| "command_pieces (L_COMMAND_TYPE_DRAW_INDEXED task rsc_pool verts idxs nidx ninst) =
     [(L_SUBMIT_TYPE_GRAPHICS,
       vkCmdBindPipeline VK_PIPELINE_BIND_POINT_GRAPHICS (pipe task)
         # desc_set_calls VK_PIPELINE_BIND_POINT_GRAPHICS task rsc_pool
         @ [vkCmdBindVertexBuffers (buf (bv_buf verts)) (bv_offset verts),
            vkCmdBindIndexBuffer (buf (bv_buf idxs)) (bv_offset idxs),
            vkCmdDrawIndexed nidx ninst])]"
| "command_pieces (L_COMMAND_TYPE_WRITE_TIMESTAMP ts) =
     [(L_SUBMIT_TYPE_ANY,
       [vkCmdResetQueryPool (query_pool ts),
        vkCmdWriteTimestamp VK_PIPELINE_STAGE_ALL_COMMANDS_BIT (query_pool ts)])]"
| "command_pieces (L_COMMAND_TYPE_BUFFER_BARRIER b su sa du da) =
     [(L_SUBMIT_TYPE_ANY, buf_barrier_calls b su sa du da)]"
| "command_pieces (L_COMMAND_TYPE_IMAGE_BARRIER i su sa du da) =
     [(L_SUBMIT_TYPE_ANY, img_barrier_calls i su sa du da)]"
| "command_pieces (L_COMMAND_TYPE_BEGIN_RENDER_PASS p draw_inline) =
     [(L_SUBMIT_TYPE_GRAPHICS,
       [vkCmdBeginRenderPass
          \<lparr>rpbi_renderPass = pass p, rpbi_framebuffer = framebuf p,
           rpbi_extent = viewport_extent p, rpbi_clearValues = [clear_value p]\<rparr>
          (if draw_inline then VK_SUBPASS_CONTENTS_INLINE
           else VK_SUBPASS_CONTENTS_SECONDARY_COMMAND_BUFFERS)])]"
| "command_pieces L_COMMAND_TYPE_END_RENDER_PASS = [(L_SUBMIT_TYPE_GRAPHICS, [vkCmdEndRenderPass])]"
| "command_pieces (UnknownCommandType tag) = []"

text \<open>The pieces of a sequence with every class any replaced by the class current at that
  point (\<open>cur\<close> at the start), and the maximal runs of pieces of equal class, each run
  with its class and its calls in order.\<close>

fun resolve_pieces :: "SubmitType \<Rightarrow> piece list \<Rightarrow> piece list" where
  "resolve_pieces cur [] = []"
| "resolve_pieces cur ((ty, calls) # ps) =
     (if ty = L_SUBMIT_TYPE_ANY then (cur, calls) # resolve_pieces cur ps
      else (ty, calls) # resolve_pieces ty ps)"

fun group_runs :: "piece list \<Rightarrow> piece list" where
  "group_runs [] = []"
| "group_runs [p] = [p]"
| "group_runs ((ty, calls) # (ty', calls') # ps) =
     (if ty = ty' then group_runs ((ty, calls @ calls') # ps)
      else (ty, calls) # group_runs ((ty', calls') # ps))"

definition detail_runs :: "Command list \<Rightarrow> piece list" where
  "detail_runs cmds =
     group_runs (resolve_pieces L_SUBMIT_TYPE_ANY (concat (map command_pieces cmds)))"

text \<open>The flags a command buffer of a class is begun with, and what the command buffer of
  a submit detail holds once the run \<open>g\<close> has been recorded into it and it has been
  ended: \<open>dev\<close> is the device before the translation, \<open>dev'\<close> the device after.\<close>

definition begin_flags :: "SubmitType \<Rightarrow> u32" where
  "begin_flags ty =
     (if ty = L_SUBMIT_TYPE_GRAPHICS then VK_COMMAND_BUFFER_USAGE_RENDER_PASS_CONTINUE_BIT else 0)"

definition detail_holds_run ::
  "Device \<Rightarrow> Device \<Rightarrow> TransactionSubmitDetail \<Rightarrow> piece \<Rightarrow> bool" where
  "detail_holds_run dev dev' d g =
     (submit_ty d = fst g
      \<and> cmdbuf_cmds dev' (cmdbuf d) =
          cmdbuf_cmds dev (cmdbuf d) @
            [vkBeginCommandBuffer (begin_flags (fst g))] @ snd g @ [vkEndCommandBuffer])"

text \<open>The same while the last detail is still open: its command buffer is not ended
  yet.\<close>

definition detail_holds_open_run ::
  "Device \<Rightarrow> Device \<Rightarrow> TransactionSubmitDetail \<Rightarrow> piece \<Rightarrow> bool" where
  "detail_holds_open_run dev dev' d g =
     (submit_ty d = fst g
      \<and> cmdbuf_cmds dev' (cmdbuf d) =
          cmdbuf_cmds dev (cmdbuf d) @ [vkBeginCommandBuffer (begin_flags (fst g))] @ snd g)"

text \<open>One more piece added to the runs recorded so far: it joins the last run when its
  class, with any resolved, is the class of that run, and starts a new run otherwise.\<close>

definition add_piece :: "piece list \<Rightarrow> piece \<Rightarrow> piece list" where
  "add_piece gs p =
     (let r = (if fst p = L_SUBMIT_TYPE_ANY
               then (if gs = [] then L_SUBMIT_TYPE_ANY else fst (last gs)) else fst p)
      in if gs \<noteq> [] \<and> fst (last gs) = r
         then butlast gs @ [(r, snd (last gs) @ snd p)]
         else gs @ [(r, snd p)])"

text \<open>A recording piece by piece: \<open>piece_steps ps t dev t' dev'\<close> holds when the pieces
  \<open>ps\<close>, each a successful call of \<open>_get_cmdbuf\<close> followed by the recording of the
  calls into the buffer it returned, lead from the recording \<open>t\<close> and the device
  \<open>dev\<close> to \<open>t'\<close> and \<open>dev'\<close>, whatever is logged in between.\<close>

inductive piece_steps ::
  "piece list \<Rightarrow> TransactionLike \<Rightarrow> Device \<Rightarrow> TransactionLike \<Rightarrow> Device \<Rightarrow> bool" where
  no_piece: "device_effects dev' = device_effects dev \<Longrightarrow> piece_steps [] t dev t dev'"
| one_piece: "device_effects dev0 = device_effects dev \<Longrightarrow>
     get_cmdbuf t ty dev0 = Inr (cb, t1, dev1) \<Longrightarrow>
     piece_steps ps t1 (record_calls cb calls dev1) t' dev' \<Longrightarrow>
     piece_steps ((ty, calls) # ps) t dev t' dev'"

text \<open>The state of a translation that started on the device \<open>dev0\<close> and has recorded
  the runs \<open>gs\<close> so far: one submit detail per run, all but the last ended, each holding
  its run; the command buffers of the details were created during the translation, in
  order; every other command buffer is as it was.\<close>

definition runs_inv :: "Device \<Rightarrow> piece list \<Rightarrow> TransactionLike \<Rightarrow> Device \<Rightarrow> bool" where
  "runs_inv dev0 gs t dev =
     (length (submit_details t) = length gs
      \<and> (submit_details t \<noteq> [] \<longrightarrow>
           list_all2 (detail_holds_run dev0 dev) (butlast (submit_details t)) (butlast gs)
           \<and> detail_holds_open_run dev0 dev (last (submit_details t)) (last gs))
      \<and> sorted_wrt (<) (map cmdbuf (submit_details t))
      \<and> (\<forall>d\<in>set (submit_details t). next_handle dev0 < cmdbuf d \<and> cmdbuf d \<le> next_handle dev)
      \<and> next_handle dev0 \<le> next_handle dev
      \<and> (\<forall>cb. cb \<notin> cmdbuf ` set (submit_details t) \<longrightarrow> cmdbuf_cmds dev cb = cmdbuf_cmds dev0 cb))"

text \<open>The content of a command buffer after a submission or the creation of a
  transaction; \<open>None\<close> when it failed.\<close>

definition buffer_after :: "error + ('a \<times> Device) \<Rightarrow> handle \<Rightarrow> VkCmd list option" where
  "buffer_after r cb = (case r of Inl e \<Rightarrow> None | Inr (x, dev) \<Rightarrow> Some (cmdbuf_cmds dev cb))"

text \<open>All the calls a command records, in order.\<close>

definition command_calls :: "Command \<Rightarrow> VkCmd list" where
  "command_calls c = concat (map snd (command_pieces c))"

section \<open>Example inputs\<close>

definition ex_ctxt :: Context where
  "ex_ctxt = \<lparr>queue_allocs = [L_SUBMIT_TYPE_GRAPHICS \<mapsto> 0, L_SUBMIT_TYPE_COMPUTE \<mapsto> 1],
              mem_ty_idxs_by_host_access = [[0, 1], [1, 0], [1, 0], [1, 0]]\<rparr>"

definition ex_dev :: Device where
  "ex_dev = \<lparr>next_handle = 0, cmdbuf_cmds = (\<lambda>cb. []), submits = [], logs = []\<rparr>"

definition ex_buf :: "handle \<Rightarrow> nat \<Rightarrow> Buffer" where
  "ex_buf h n = \<lparr>devmem = h + 1, buf = h,
     buf_cfg = \<lparr>buf_label = ''b'', buf_host_access = L_MEMORY_ACCESS_NONE, buf_size = n,
                buf_usage = L_BUFFER_USAGE_STORAGE_BIT\<rparr>\<rparr>"

definition ex_view :: "handle \<Rightarrow> nat \<Rightarrow> BufferView" where
  "ex_view h n = \<lparr>bv_buf = ex_buf h 64, bv_offset = 0, bv_size = n\<rparr>"

definition ex_task :: Task where
  "ex_task = \<lparr>task_label = ''t'', pipe = 100, pipe_layout = 101\<rparr>"

definition ex_pool :: ResourcePool where
  "ex_pool = \<lparr>desc_set = 102\<rparr>"

definition ex_pass :: RenderPass where
  "ex_pass = \<lparr>pass = 103, framebuf = 104, viewport_extent = (4, 4), clear_value = [0, 0, 0, 0]\<rparr>"

text \<open>A recording with no submit detail yet, and one with a compute detail open whose
  command buffer 2 has been begun.\<close>

definition ex_empty :: "VkCommandBufferLevel \<Rightarrow> TransactionLike" where
  "ex_empty lv = \<lparr>ctxt = ex_ctxt, submit_details = [], level = lv\<rparr>"

definition ex_open :: "VkCommandBufferLevel \<Rightarrow> TransactionLike" where
  "ex_open lv = \<lparr>ctxt = ex_ctxt,
     submit_details = [\<lparr>submit_ty = L_SUBMIT_TYPE_COMPUTE, cmd_pool = 1, cmdbuf = 2,
                         wait_sema = VK_NULL_HANDLE, signal_sema = 3\<rparr>],
     level = lv\<rparr>"

definition ex_open_dev :: Device where
  "ex_open_dev = \<lparr>next_handle = 3,
     cmdbuf_cmds = (\<lambda>cb. if cb = 2 then [vkBeginCommandBuffer 0] else []),
     submits = [], logs = []\<rparr>"

definition ex_buf_cfg :: "MemoryAccess \<Rightarrow> BufferConfig" where
  "ex_buf_cfg a = \<lparr>buf_label = ''b'', buf_host_access = a, buf_size = 16,
                    buf_usage = L_BUFFER_USAGE_STORAGE_BIT\<rparr>"

text \<open>The memory type a buffer creation handed to the driver.\<close>

definition chosen_mem_ty ::
  "error + (Buffer \<times> VkBufferCreateInfo \<times> VkMemoryAllocateInfo \<times> Device) \<Rightarrow> error + nat" where
  "chosen_mem_ty r =
     (case r of Inl e \<Rightarrow> Inl e | Inr (b, bci, mai, dev) \<Rightarrow> Inr (memoryTypeIndex mai))"

definition ex_drain :: CommandDrain where
  "ex_drain = \<lparr>drain_ctxt = ex_ctxt, drain_submit_details = [], fence = 50\<rparr>"

text \<open>The cross-class sequence of the spec, and a sequence for a secondary recording.\<close>

definition ex_cross_class :: "Command list" where
  "ex_cross_class =
     [L_COMMAND_TYPE_SET_SUBMIT_TYPE L_SUBMIT_TYPE_COMPUTE,
      L_COMMAND_TYPE_DISPATCH ex_task ex_pool (256, 1, 1),
      L_COMMAND_TYPE_SET_SUBMIT_TYPE L_SUBMIT_TYPE_GRAPHICS,
      L_COMMAND_TYPE_BEGIN_RENDER_PASS ex_pass True,
      L_COMMAND_TYPE_DRAW ex_task ex_pool (ex_view 7 48) 3 1,
      L_COMMAND_TYPE_END_RENDER_PASS]"

definition ex_secondary :: "Command list" where
  "ex_secondary =
     [L_COMMAND_TYPE_DISPATCH ex_task ex_pool (256, 1, 1),
      L_COMMAND_TYPE_WRITE_TIMESTAMP \<lparr>query_pool = 9\<rparr>,
      L_COMMAND_TYPE_DRAW ex_task ex_pool (ex_view 7 48) 3 1]"

text \<open>The two submit details both sequences end with on the fresh example device.\<close>

definition ex_two_details :: "TransactionSubmitDetail list" where
  "ex_two_details =
     [\<lparr>submit_ty = L_SUBMIT_TYPE_COMPUTE, cmd_pool = 1, cmdbuf = 2, wait_sema = 0,
       signal_sema = 3\<rparr>,
      \<lparr>submit_ty = L_SUBMIT_TYPE_GRAPHICS, cmd_pool = 4, cmdbuf = 5, wait_sema = 3,
       signal_sema = 6\<rparr>]"

section \<open>Properties\<close>

lemmas ex_defs = ex_ctxt_def ex_dev_def ex_buf_def ex_view_def ex_task_def ex_pool_def
  ex_pass_def ex_empty_def ex_open_def ex_open_dev_def ex_drain_def ex_cross_class_def
  ex_secondary_def ex_two_details_def

lemmas dev_defs = create_handle_def record_vk_def log_msg_def create_sema_def create_fence_def
  create_cmd_pool_def alloc_cmdbuf_def begin_cmdbuf_def end_cmdbuf_def
  push_transact_submit_detail_def submit_transact_submit_detail_def debug_if_primary_def
  bind_desc_set_def VK_NULL_HANDLE_def

lemmas result_defs = classes_of_def details_of_def recorded_in_def logged_by_def
  drain_details_def transact_details_def


lemmas record_cmd_defs = record_cmd_set_submit_ty_def record_cmd_inline_transact_def
  record_cmd_copy_buf2img_def record_cmd_copy_img2buf_def record_cmd_copy_buf_def
  record_cmd_copy_img_def record_cmd_dispatch_def record_cmd_draw_def
  record_cmd_draw_indexed_def record_cmd_write_timestamp_def record_cmd_buf_barrier_def
  record_cmd_img_barrier_def record_cmd_begin_pass_def record_cmd_end_pass_def

lemmas translate_defs = record_cmd_defs get_cmdbuf_def get_submit_detail_def ex_defs dev_defs
  vk_consts Let_def submit_cmds_def create_transact_def

subsection \<open>The class any at \<open>_get_cmdbuf\<close>\<close>

lemma get_cmdbuf_any_empty:
  "submit_details t = [] \<Longrightarrow>
   get_cmdbuf t L_SUBMIT_TYPE_ANY dev =
     Inl (Panic ''cannot infer submit type for submit-type-independent command'')"
  by (simp add: get_cmdbuf_def)

lemma get_cmdbuf_any_open:
  "submit_details t \<noteq> [] \<Longrightarrow>
   get_submit_detail (ctxt t) (submit_ty (last (submit_details t))) = Inr q \<Longrightarrow>
   get_cmdbuf t L_SUBMIT_TYPE_ANY dev = Inr (cmdbuf (last (submit_details t)), t, dev)"
  by (simp add: get_cmdbuf_def)

subsection \<open>Zero-sized buffer copies\<close>

text \<open>Claim C8, as amended. A copy-buffer command whose two views have size 0 is recorded
  like any copy of equal sizes: with a submit detail open whose class the context
  supports, it succeeds, leaves the submit details as they are, appends one
  \<open>vkCmdCopyBuffer\<close> of size 0 to the current command buffer, and logs no warning.\<close>

theorem C8_zero_sized_copy_is_recorded:
  "bv_size src = 0 \<and> bv_size dst = 0 \<and> submit_details t \<noteq> []
     \<and> get_submit_detail (ctxt t) (submit_ty (last (submit_details t))) = Inr q \<longrightarrow>
   (\<exists>dev'. record_cmd t (L_COMMAND_TYPE_COPY_BUFFER src dst) dev = Inr (t, dev')
      \<and> cmdbuf_cmds dev' (cmdbuf (last (submit_details t))) =
          cmdbuf_cmds dev (cmdbuf (last (submit_details t))) @
            [vkCmdCopyBuffer (buf (bv_buf src)) (buf (bv_buf dst))
               \<lparr>bc_srcOffset = bv_offset src, bc_dstOffset = bv_offset dst, bc_size = 0\<rparr>]
      \<and> filter (\<lambda>e. fst e = Warn) (logs dev') = filter (\<lambda>e. fst e = Warn) (logs dev))"
  by (auto simp add: get_cmdbuf_any_open record_cmd_copy_buf_def debug_if_primary_def
      record_vk_def log_msg_def Let_def)

text \<open>The theorem on a copy between two empty views, recorded with the compute detail
  open: the submit details stay, and command buffer 2 holds the copy of size 0.\<close>

theorem C8_zero_sized_copy_is_recorded_witness:
  "details_of (record_cmd (ex_open VK_COMMAND_BUFFER_LEVEL_SECONDARY)
      (L_COMMAND_TYPE_COPY_BUFFER (ex_view 7 0) (ex_view 9 0)) ex_open_dev) =
     Some (submit_details (ex_open VK_COMMAND_BUFFER_LEVEL_SECONDARY))
   \<and> recorded_in (record_cmd (ex_open VK_COMMAND_BUFFER_LEVEL_SECONDARY)
      (L_COMMAND_TYPE_COPY_BUFFER (ex_view 7 0) (ex_view 9 0)) ex_open_dev) 2 =
     Some [vkBeginCommandBuffer 0,
           vkCmdCopyBuffer 7 9 \<lparr>bc_srcOffset = 0, bc_dstOffset = 0, bc_size = 0\<rparr>]"
proof -
  let ?t = "ex_open VK_COMMAND_BUFFER_LEVEL_SECONDARY"
  obtain dev' where
    "record_cmd ?t (L_COMMAND_TYPE_COPY_BUFFER (ex_view 7 0) (ex_view 9 0)) ex_open_dev =
       Inr (?t, dev')"
    "cmdbuf_cmds dev' (cmdbuf (last (submit_details ?t))) =
       cmdbuf_cmds ex_open_dev (cmdbuf (last (submit_details ?t))) @
         [vkCmdCopyBuffer (buf (bv_buf (ex_view 7 0))) (buf (bv_buf (ex_view 9 0)))
            \<lparr>bc_srcOffset = bv_offset (ex_view 7 0), bc_dstOffset = bv_offset (ex_view 9 0),
             bc_size = 0\<rparr>]"
    using C8_zero_sized_copy_is_recorded [of "ex_view 7 0" "ex_view 9 0" ?t 1 ex_open_dev]
    by (auto simp add: ex_open_def ex_view_def ex_ctxt_def get_submit_detail_def vk_consts)
  then show ?thesis
    by (simp add: result_defs ex_open_def ex_open_dev_def ex_view_def ex_buf_def)
qed

text \<open>Claim C8 as stated fails: the copy of size 0 is in command buffer 2 afterwards, and
  the only message logged is the debug message of a scheduled copy.\<close>

theorem C8_counterexample:
  "recorded_in (record_cmd (ex_open VK_COMMAND_BUFFER_LEVEL_PRIMARY)
      (L_COMMAND_TYPE_COPY_BUFFER (ex_view 7 0) (ex_view 9 0)) ex_open_dev) 2 =
     Some [vkBeginCommandBuffer 0,
           vkCmdCopyBuffer 7 9 \<lparr>bc_srcOffset = 0, bc_dstOffset = 0, bc_size = 0\<rparr>]
   \<and> logged_by (record_cmd (ex_open VK_COMMAND_BUFFER_LEVEL_PRIMARY)
      (L_COMMAND_TYPE_COPY_BUFFER (ex_view 7 0) (ex_view 9 0)) ex_open_dev) =
     Some [(Debug, [Str (''scheduled copy from buffer '' @ [apostrophe]), Str ''b'',
                    Str (''' to buffer '' @ [apostrophe]), Str ''b'', Str [apostrophe]])]"
  by (simp add: record_cmd_defs get_cmdbuf_def get_submit_detail_def ex_defs dev_defs
      result_defs vk_consts Let_def)

subsection \<open>Buffer barriers\<close>

text \<open>Claim C3 fails on the code. A barrier from staging read to uniform read is recorded
  with the right access masks, the whole buffer and ignored queue families, but with the
  stages bottom-of-pipe and top-of-pipe: \<open>_make_buf_barrier_params\<close> receives the stage
  by value, so the stages of the table (transfer; vertex, fragment and compute shader)
  never reach the barrier.\<close>

theorem C3_buffer_barrier_stages_lost:
  "recorded_in (record_cmd (ex_open VK_COMMAND_BUFFER_LEVEL_SECONDARY)
      (L_COMMAND_TYPE_BUFFER_BARRIER (ex_buf 7 64)
         L_BUFFER_USAGE_STAGING_BIT L_MEMORY_ACCESS_READ_ONLY
         L_BUFFER_USAGE_UNIFORM_BIT L_MEMORY_ACCESS_READ_ONLY) ex_open_dev) 2 =
     Some [vkBeginCommandBuffer 0,
           vkCmdPipelineBarrier_buf
             VK_PIPELINE_STAGE_BOTTOM_OF_PIPE_BIT VK_PIPELINE_STAGE_TOP_OF_PIPE_BIT
             \<lparr>bmb_buffer = 7, bmb_srcAccessMask = VK_ACCESS_TRANSFER_READ_BIT,
              bmb_dstAccessMask = VK_ACCESS_UNIFORM_READ_BIT,
              bmb_srcQueueFamilyIndex = VK_QUEUE_FAMILY_IGNORED,
              bmb_dstQueueFamilyIndex = VK_QUEUE_FAMILY_IGNORED,
              bmb_offset = 0, bmb_size = VK_WHOLE_SIZE\<rparr>]
   \<and> VK_PIPELINE_STAGE_BOTTOM_OF_PIPE_BIT \<noteq> VK_PIPELINE_STAGE_TRANSFER_BIT
   \<and> VK_PIPELINE_STAGE_TOP_OF_PIPE_BIT \<noteq>
       VK_PIPELINE_STAGE_VERTEX_SHADER_BIT OR VK_PIPELINE_STAGE_FRAGMENT_SHADER_BIT
         OR VK_PIPELINE_STAGE_COMPUTE_SHADER_BIT"
  by (simp add: record_cmd_defs make_buf_barrier_params_def get_cmdbuf_def
      get_submit_detail_def ex_defs dev_defs result_defs vk_consts Let_def)

subsection \<open>Buffer creation\<close>

text \<open>Claim C4 fails on the code. A buffer configured as uniform and vertex is created
  with the vertex and transfer-destination flags only: the vertex branch assigns the
  usage, so the uniform flag set before is lost.\<close>

theorem C4_multi_usage_flags_lost:
  "(case create_buf ex_ctxt
           \<lparr>buf_label = ''b'', buf_host_access = L_MEMORY_ACCESS_NONE, buf_size = 16,
            buf_usage = L_BUFFER_USAGE_UNIFORM_BIT OR L_BUFFER_USAGE_VERTEX_BIT\<rparr>
           \<lparr>mr_size = 16, memoryTypeBits = 3\<rparr> ex_dev of
      Inl e \<Rightarrow> None
    | Inr (b, bci, mai, dev') \<Rightarrow> Some (bci_usage bci)) =
     Some (VK_BUFFER_USAGE_VERTEX_BUFFER_BIT OR VK_BUFFER_USAGE_TRANSFER_DST_BIT)
   \<and> (VK_BUFFER_USAGE_VERTEX_BUFFER_BIT OR VK_BUFFER_USAGE_TRANSFER_DST_BIT)
       AND VK_BUFFER_USAGE_UNIFORM_BUFFER_BIT = 0"
  by (simp add: create_buf_def create_buf_usage_def ex_defs dev_defs vk_consts Let_def)

subsection \<open>Pixel formats\<close>

text \<open>Claim C9 fails on the code. A signed descriptor with one component and integer
  exponent 2 yields the two-component format \<open>R16G16_SINT\<close>, and an unsigned one with
  four components and exponent 3 yields the three-component \<open>R32G32B32_UINT\<close>: the
  inner switches of the 16-bit and 32-bit cases test the exponent, not the component
  count.\<close>

theorem C9_component_count_lost:
  "make_img_fmt \<lparr>get_ncomp = 1, int_exp2 = 2, is_signed = True, is_single = False,
                  is_half = False\<rparr> = Inr VK_FORMAT_R16G16_SINT
   \<and> format_ncomp VK_FORMAT_R16G16_SINT = 2
   \<and> make_img_fmt \<lparr>get_ncomp = 4, int_exp2 = 3, is_signed = False, is_single = False,
                    is_half = False\<rparr> = Inr VK_FORMAT_R32G32B32_UINT
   \<and> format_ncomp VK_FORMAT_R32G32B32_UINT = 3"
  by (simp add: make_img_fmt_def int_fmt_switch_def switch_1_to_4_def)

subsection \<open>The memory type of a buffer\<close>

lemma shift_bit_test: "push_bit x (1 :: u32) AND bits \<noteq> 0 \<longleftrightarrow> bit bits x"
  by (simp add: bit_iff_and_push_bit_not_eq_0 and.commute)

lemma power_bit_test: "(2 :: u32) ^ x AND bits \<noteq> 0 \<longleftrightarrow> bit bits x"
  using shift_bit_test [of x bits] by simp

lemma find_mem_ty_idx_find:
  "\<forall>i\<in>set xs. i < 32 \<Longrightarrow>
   find_mem_ty_idx bits xs cur = Inr (case find (bit bits) xs of None \<Rightarrow> cur | Some i \<Rightarrow> i)"
  by (induction xs) (simp_all add: power_bit_test)

lemma find_Some_in_set: "find P xs = Some x \<Longrightarrow> x \<in> set xs"
  by (induction xs) (auto split: if_splits)

text \<open>Claim C6. Let the priority list of the buffer's host-access mode hold memory-type
  indices below 32 (the mask has 32 bits). If some entry of the list has its bit set in
  the memory-requirement mask, the buffer is created with the first such entry as its
  memory type; if none has, creation fails with the panic that the host access pattern
  cannot be satisfied.\<close>

theorem C6_memory_type_choice:
  "unat (buf_host_access cfg) < length (mem_ty_idxs_by_host_access c)
     \<and> (\<forall>i\<in>set (mem_ty_idxs_by_host_access c ! unat (buf_host_access cfg)). i < 32) \<longrightarrow>
   (case find (bit (memoryTypeBits mr))
           (mem_ty_idxs_by_host_access c ! unat (buf_host_access cfg)) of
      None \<Rightarrow> create_buf c cfg mr dev = Inl (Panic ''host access pattern cannot be satisfied'')
    | Some i \<Rightarrow>
        (\<exists>b bci mai dev'. create_buf c cfg mr dev = Inr (b, bci, mai, dev')
           \<and> memoryTypeIndex mai = i))"
proof
  assume a: "unat (buf_host_access cfg) < length (mem_ty_idxs_by_host_access c)
     \<and> (\<forall>i\<in>set (mem_ty_idxs_by_host_access c ! unat (buf_host_access cfg)). i < 32)"
  let ?xs = "mem_ty_idxs_by_host_access c ! unat (buf_host_access cfg)"
  from a have f: "find_mem_ty_idx (memoryTypeBits mr) ?xs 0xFF =
      Inr (case find (bit (memoryTypeBits mr)) ?xs of None \<Rightarrow> 0xFF | Some i \<Rightarrow> i)"
    by (simp add: find_mem_ty_idx_find)
  show "case find (bit (memoryTypeBits mr)) ?xs of
      None \<Rightarrow> create_buf c cfg mr dev = Inl (Panic ''host access pattern cannot be satisfied'')
    | Some i \<Rightarrow>
        (\<exists>b bci mai dev'. create_buf c cfg mr dev = Inr (b, bci, mai, dev')
           \<and> memoryTypeIndex mai = i)"
  proof (cases "find (bit (memoryTypeBits mr)) ?xs")
    case None
    with a f show ?thesis
      by (simp add: create_buf_def create_handle_def Let_def)
  next
    case (Some i)
    then have "i \<in> set ?xs" by (rule find_Some_in_set)
    with a have "i < 32" by blast
    with a f Some show ?thesis
      by (simp add: create_buf_def create_handle_def Let_def)
  qed
qed

text \<open>The theorem on the read-only list \<open>[1, 0]\<close> of the example context: the mask 1
  chooses type 0, the mask 3 chooses type 1, the mask 4 fails.\<close>

theorem C6_memory_type_choice_witness:
  "chosen_mem_ty (create_buf ex_ctxt (ex_buf_cfg L_MEMORY_ACCESS_READ_ONLY)
       \<lparr>mr_size = 16, memoryTypeBits = 1\<rparr> ex_dev) = Inr 0
   \<and> chosen_mem_ty (create_buf ex_ctxt (ex_buf_cfg L_MEMORY_ACCESS_READ_ONLY)
       \<lparr>mr_size = 16, memoryTypeBits = 3\<rparr> ex_dev) = Inr 1
   \<and> chosen_mem_ty (create_buf ex_ctxt (ex_buf_cfg L_MEMORY_ACCESS_READ_ONLY)
       \<lparr>mr_size = 16, memoryTypeBits = 4\<rparr> ex_dev) =
       Inl (Panic ''host access pattern cannot be satisfied'')"
proof -
  let ?cfg = "ex_buf_cfg L_MEMORY_ACCESS_READ_ONLY"
  have h: "unat (buf_host_access ?cfg) < length (mem_ty_idxs_by_host_access ex_ctxt)
     \<and> (\<forall>i\<in>set (mem_ty_idxs_by_host_access ex_ctxt ! unat (buf_host_access ?cfg)). i < 32)"
    by (simp add: ex_buf_cfg_def ex_ctxt_def vk_consts)
  have l: "mem_ty_idxs_by_host_access ex_ctxt ! unat (buf_host_access ?cfg) = [1, 0]"
    by (simp add: ex_buf_cfg_def ex_ctxt_def vk_consts)
  have b: "\<not> bit (1 :: u32) (Suc 0)" "bit (3 :: u32) (Suc 0)"
    "\<not> bit (4 :: u32) (Suc 0)" "\<not> bit (4 :: u32) 0"
    by (simp_all add: bit_numeral_word_iff bit_Suc)
  show ?thesis
    using
      C6_memory_type_choice
        [of ?cfg ex_ctxt "\<lparr>mr_size = 16, memoryTypeBits = 1\<rparr>" ex_dev, THEN mp, OF h]
      C6_memory_type_choice
        [of ?cfg ex_ctxt "\<lparr>mr_size = 16, memoryTypeBits = 3\<rparr>" ex_dev, THEN mp, OF h]
      C6_memory_type_choice
        [of ?cfg ex_ctxt "\<lparr>mr_size = 16, memoryTypeBits = 4\<rparr>" ex_dev, THEN mp, OF h]
    by (auto simp add: l b chosen_mem_ty_def)
qed

subsection \<open>Every recording is a sequence of class steps\<close>

lemma next_handle_frame [simp]:
  "next_handle (record_vk cb vc dev) = next_handle dev"
  "next_handle (log_msg lv s dev) = next_handle dev"
  "next_handle (debug_if_primary t s dev) = next_handle dev"
  "next_handle (bind_desc_set cb bp task rsc_pool dev) = next_handle dev"
  "next_handle (end_cmdbuf sd dev) = next_handle dev"
  "next_handle (begin_cmdbuf sd dev) = next_handle dev"
  "next_handle (submit_transact_submit_detail cx sd f dev) = next_handle dev"
  by (simp_all add: record_vk_def log_msg_def debug_if_primary_def bind_desc_set_def
      end_cmdbuf_def begin_cmdbuf_def submit_transact_submit_detail_def)

lemma class_steps_append:
  "class_steps xs t n t1 n1 \<Longrightarrow> class_steps ys t1 n1 t' n' \<Longrightarrow> class_steps (xs @ ys) t n t' n'"
  by (induction rule: class_steps.induct) (auto intro: class_steps.intros)

lemma class_steps_single:
  "get_cmdbuf t ty dev = Inr (cb, t1, dev1) \<Longrightarrow>
   class_steps [ty] t (next_handle dev) t1 (next_handle dev1)"
  by (blast intro: class_steps.intros)

lemma inline_transact_loop_steps:
  "inline_transact_loop sds t dev = Inr (t', dev') \<Longrightarrow>
   class_steps (map submit_ty sds) t (next_handle dev) t' (next_handle dev')"
proof (induction sds arbitrary: t dev)
  case Nil
  then show ?case by (auto intro: class_steps.intros)
next
  case (Cons sd sds)
  from Cons.prems obtain cb t1 dev1 where
    g: "get_cmdbuf t (submit_ty sd) dev = Inr (cb, t1, dev1)" and
    r: "inline_transact_loop sds t1 (record_vk cb (vkCmdExecuteCommands (cmdbuf sd)) dev1) =
          Inr (t', dev')"
    by (auto split: sum.splits)
  from Cons.IH [OF r] have
    "class_steps (map submit_ty sds) t1 (next_handle dev1) t' (next_handle dev')" by simp
  with g show ?case by (auto intro: class_steps.intros)
qed

lemma record_cmd_steps:
  "record_cmd t c dev = Inr (t', dev') \<Longrightarrow>
   class_steps (required_classes c) t (next_handle dev) t' (next_handle dev')"
proof (cases c)
  case (L_COMMAND_TYPE_INLINE_TRANSACTION sub)
  then show "record_cmd t c dev = Inr (t', dev') \<Longrightarrow> ?thesis"
    by (auto simp add: record_cmd_inline_transact_def split: if_splits sum.splits
        dest: inline_transact_loop_steps)
next
  case (UnknownCommandType tag)
  then show "record_cmd t c dev = Inr (t', dev') \<Longrightarrow> ?thesis"
    by (auto intro: class_steps.intros)
qed (auto simp add: record_cmd_defs Let_def split: if_splits sum.splits prod.splits
      dest!: class_steps_single)

lemma create_transact_loop_steps:
  "create_transact_loop cmds t dev = Inr (t', dev') \<Longrightarrow>
   class_steps (concat (map required_classes cmds)) t (next_handle dev) t' (next_handle dev')"
proof (induction cmds arbitrary: t dev)
  case Nil
  then show ?case by (auto intro: class_steps.intros)
next
  case (Cons c cs)
  from Cons.prems obtain t1 dev1 where
    a: "record_cmd t c dev = Inr (t1, dev1)" and b: "create_transact_loop cs t1 dev1 = Inr (t', dev')"
    by (auto split: sum.splits)
  from record_cmd_steps [OF a] Cons.IH [OF b] show ?case
    by (simp add: class_steps_append)
qed

lemma submit_cmds_loop_steps:
  "submit_cmds_loop i cmds t dev = Inr (t', dev') \<Longrightarrow>
   class_steps (concat (map required_classes cmds)) t (next_handle dev) t' (next_handle dev')"
proof (induction cmds arbitrary: i t dev)
  case Nil
  then show ?case by (auto intro: class_steps.intros)
next
  case (Cons c cs)
  from Cons.prems obtain t1 dev1 where
    a: "record_cmd t c (log_msg Debug [Str ''recording '', Num i, Str ''th command''] dev) =
          Inr (t1, dev1)"
    and b: "submit_cmds_loop (Suc i) cs t1 dev1 = Inr (t', dev')"
    by (auto split: sum.splits)
  from record_cmd_steps [OF a] Cons.IH [OF b] show ?case
    by (simp add: class_steps_append)
qed

lemma submit_cmds_steps:
  assumes "submit_cmds drain cmds dev = Inr (drain', dev')"
  shows "\<exists>t'. class_steps (concat (map required_classes cmds))
            \<lparr>ctxt = drain_ctxt drain, submit_details = [], level = VK_COMMAND_BUFFER_LEVEL_PRIMARY\<rparr>
            (next_handle dev) t' (next_handle dev')
          \<and> drain_submit_details drain' = submit_details t'"
proof -
  from assms obtain t1 dev1 where
    l: "submit_cmds_loop 0 cmds
          \<lparr>ctxt = drain_ctxt drain, submit_details = [], level = VK_COMMAND_BUFFER_LEVEL_PRIMARY\<rparr>
          dev = Inr (t1, dev1)"
    and d: "drain_submit_details drain' = submit_details t1"
    and n: "next_handle dev' = next_handle dev1"
    by (auto simp add: submit_cmds_def Let_def split: if_splits sum.splits)
  from submit_cmds_loop_steps [OF l] d n show ?thesis by auto
qed

lemma create_transact_steps:
  assumes "create_transact label c cmds dev = Inr (tr, dev')"
  shows "\<exists>t'. class_steps (concat (map required_classes cmds))
            \<lparr>ctxt = c, submit_details = [], level = VK_COMMAND_BUFFER_LEVEL_SECONDARY\<rparr>
            (next_handle dev) t' (next_handle dev')
          \<and> transact_submit_details tr = submit_details t'"
proof -
  from assms obtain t1 dev1 where
    l: "create_transact_loop cmds
          \<lparr>ctxt = c, submit_details = [], level = VK_COMMAND_BUFFER_LEVEL_SECONDARY\<rparr>
          dev = Inr (t1, dev1)"
    and d: "transact_submit_details tr = submit_details t1"
    and n: "next_handle dev' = next_handle dev1"
    by (auto simp add: create_transact_def Let_def split: if_splits sum.splits)
  from create_transact_loop_steps [OF l] d n show ?thesis by auto
qed

text \<open>What one successful call of \<open>_get_cmdbuf\<close> does to the submit details.\<close>

lemma get_cmdbuf_step:
  assumes "get_cmdbuf t ty dev = Inr (cb, t', dev')"
  shows "(ty = L_SUBMIT_TYPE_ANY \<longrightarrow> submit_details t \<noteq> [])
    \<and> (if submit_details t \<noteq> [] \<and>
          (if ty = L_SUBMIT_TYPE_ANY then submit_ty (last (submit_details t)) else ty) =
            submit_ty (last (submit_details t))
       then t' = t \<and> dev' = dev \<and> cb = cmdbuf (last (submit_details t))
       else submit_details t' = submit_details t @
              [\<lparr>submit_ty = ty, cmd_pool = next_handle dev + 1, cmdbuf = next_handle dev + 2,
                wait_sema = (if submit_details t = [] then VK_NULL_HANDLE
                             else signal_sema (last (submit_details t))),
                signal_sema = next_handle dev + 3\<rparr>]
            \<and> next_handle dev' = next_handle dev + 3 \<and> cb = next_handle dev + 2)"
  using assms
  by (auto simp add: get_cmdbuf_def Let_def push_transact_submit_detail_def create_cmd_pool_def
      alloc_cmdbuf_def create_sema_def create_handle_def
      split: if_splits sum.splits)

text \<open>Whatever usages and accesses a buffer barrier names, when it is recorded the call
  that lands in the current command buffer has the stages bottom-of-pipe and top-of-pipe,
  covers the whole buffer and ignores the queue families.\<close>

lemma buffer_barrier_stages_fixed:
  "record_cmd t (L_COMMAND_TYPE_BUFFER_BARRIER b su sa du da) dev = Inr (t', dev') \<longrightarrow>
   (\<exists>bmb. last (cmdbuf_cmds dev' (cmdbuf (last (submit_details t')))) =
      vkCmdPipelineBarrier_buf VK_PIPELINE_STAGE_BOTTOM_OF_PIPE_BIT
        VK_PIPELINE_STAGE_TOP_OF_PIPE_BIT bmb
      \<and> bmb_buffer bmb = buf b \<and> bmb_offset bmb = 0 \<and> bmb_size bmb = VK_WHOLE_SIZE
      \<and> bmb_srcQueueFamilyIndex bmb = VK_QUEUE_FAMILY_IGNORED
      \<and> bmb_dstQueueFamilyIndex bmb = VK_QUEUE_FAMILY_IGNORED)"
proof
  assume a: "record_cmd t (L_COMMAND_TYPE_BUFFER_BARRIER b su sa du da) dev = Inr (t', dev')"
  then obtain cb dev1 where g: "get_cmdbuf t L_SUBMIT_TYPE_ANY dev = Inr (cb, t', dev1)"
    by (auto simp add: record_cmd_buf_barrier_def Let_def split: sum.splits)
  from get_cmdbuf_step [OF g] have cb: "cb = cmdbuf (last (submit_details t'))"
    by (auto split: if_splits)
  from a g cb show "\<exists>bmb. last (cmdbuf_cmds dev' (cmdbuf (last (submit_details t')))) =
      vkCmdPipelineBarrier_buf VK_PIPELINE_STAGE_BOTTOM_OF_PIPE_BIT
        VK_PIPELINE_STAGE_TOP_OF_PIPE_BIT bmb
      \<and> bmb_buffer bmb = buf b \<and> bmb_offset bmb = 0 \<and> bmb_size bmb = VK_WHOLE_SIZE
      \<and> bmb_srcQueueFamilyIndex bmb = VK_QUEUE_FAMILY_IGNORED
      \<and> bmb_dstQueueFamilyIndex bmb = VK_QUEUE_FAMILY_IGNORED"
    by (auto simp add: record_cmd_buf_barrier_def Let_def debug_if_primary_def record_vk_def
        log_msg_def split: sum.splits)
qed

subsection \<open>The semaphore chain\<close>

lemma sema_chained_snoc:
  "sema_chained w (ds @ [d]) =
     (sema_chained w ds \<and> wait_sema d = (if ds = [] then w else signal_sema (last ds)))"
  by (induction ds arbitrary: w) auto

lemma sema_chained_nth:
  "sema_chained w ds \<Longrightarrow> i < length ds \<Longrightarrow>
   wait_sema (ds ! i) = (if i = 0 then w else signal_sema (ds ! (i - 1)))"
proof (induction ds arbitrary: w i)
  case Nil
  then show ?case by simp
next
  case (Cons d ds)
  show ?case
  proof (cases i)
    case 0
    with Cons.prems show ?thesis by simp
  next
    case (Suc j)
    with Cons.prems Cons.IH [of "signal_sema d" j] show ?thesis
      by (cases j) auto
  qed
qed

lemma class_steps_sema_inv:
  "class_steps tys t n t' n' \<Longrightarrow> sema_inv n0 n (submit_details t) \<Longrightarrow> n0 \<le> n \<Longrightarrow>
   sema_inv n0 n' (submit_details t') \<and> n \<le> n'"
proof (induction rule: class_steps.induct)
  case (no_step t n)
  then show ?case by simp
next
  case (one_step t ty dev cb t1 dev1 n tys t' n')
  from get_cmdbuf_step [OF one_step.hyps(1)] one_step.hyps(2) one_step.prems
  have "sema_inv n0 (next_handle dev1) (submit_details t1) \<and> n \<le> next_handle dev1"
    by (auto simp add: sema_inv_def sema_chained_snoc sorted_wrt_append split: if_splits)
  with one_step.IH one_step.prems show ?case by auto
qed

lemma sema_inv_chain:
  assumes "sema_inv n0 n ds"
  shows "semaphore_chain n0 ds"
proof -
  from assms have "sorted_wrt (<) (map signal_sema ds)" by (simp add: sema_inv_def)
  then have "distinct (map signal_sema ds)" by (simp add: strict_sorted_iff)
  with assms show ?thesis
    by (auto simp add: sema_inv_def semaphore_chain_def sema_chained_nth VK_NULL_HANDLE_def)
qed

text \<open>Claim C2. Whenever \<open>submit_cmds\<close> (a primary translation) or
  \<open>create_transact\<close> (a secondary one) succeeds, the submit details it returns form a
  semaphore chain: for all \<open>i > 0\<close> the wait semaphore of detail \<open>i\<close> is the signal
  semaphore of detail \<open>i - 1\<close>, detail 0 waits on the null handle, and every detail,
  the last included, has a signal semaphore that is not null, was created during this
  translation and is shared with no other detail.\<close>

theorem C2_semaphore_chain:
  "(submit_cmds drain cmds dev = Inr (drain', dev') \<longrightarrow>
      semaphore_chain (next_handle dev) (drain_submit_details drain'))
   \<and> (create_transact label c cmds dev = Inr (tr, dev'') \<longrightarrow>
      semaphore_chain (next_handle dev) (transact_submit_details tr))"
proof (intro conjI impI)
  assume "submit_cmds drain cmds dev = Inr (drain', dev')"
  from submit_cmds_steps [OF this] obtain t' where
    s: "class_steps (concat (map required_classes cmds))
          \<lparr>ctxt = drain_ctxt drain, submit_details = [], level = VK_COMMAND_BUFFER_LEVEL_PRIMARY\<rparr>
          (next_handle dev) t' (next_handle dev')"
    and d: "drain_submit_details drain' = submit_details t'"
    by blast
  from class_steps_sema_inv [OF s, of "next_handle dev"]
  have "sema_inv (next_handle dev) (next_handle dev') (submit_details t')"
    by (simp add: sema_inv_def)
  with d show "semaphore_chain (next_handle dev) (drain_submit_details drain')"
    by (simp add: sema_inv_chain)
next
  assume "create_transact label c cmds dev = Inr (tr, dev'')"
  from create_transact_steps [OF this] obtain t' where
    s: "class_steps (concat (map required_classes cmds))
          \<lparr>ctxt = c, submit_details = [], level = VK_COMMAND_BUFFER_LEVEL_SECONDARY\<rparr>
          (next_handle dev) t' (next_handle dev'')"
    and d: "transact_submit_details tr = submit_details t'"
    by blast
  from class_steps_sema_inv [OF s, of "next_handle dev"]
  have "sema_inv (next_handle dev) (next_handle dev'') (submit_details t')"
    by (simp add: sema_inv_def)
  with d show "semaphore_chain (next_handle dev) (transact_submit_details tr)"
    by (simp add: sema_inv_chain)
qed

lemma ex_submit:
  "drain_details (submit_cmds ex_drain ex_cross_class ex_dev) = Some ex_two_details"
  by (simp add: translate_defs result_defs)

lemma ex_transact:
  "transact_details (create_transact ''tr'' ex_ctxt ex_secondary ex_dev) = Some ex_two_details"
  by (simp add: translate_defs result_defs)

text \<open>The theorem on the cross-class sequence of the spec, submitted, and on a
  three-command transaction: both end with a compute and a graphics detail, the second
  waiting on semaphore 3, which the first signals.\<close>

theorem C2_semaphore_chain_witness:
  "drain_details (submit_cmds ex_drain ex_cross_class ex_dev) = Some ex_two_details
   \<and> transact_details (create_transact ''tr'' ex_ctxt ex_secondary ex_dev) = Some ex_two_details
   \<and> semaphore_chain 0 ex_two_details
   \<and> map wait_sema ex_two_details = [VK_NULL_HANDLE, 3]
   \<and> map signal_sema ex_two_details = [3, 6]"
proof -
  from ex_submit obtain drain' dev' where
    e: "submit_cmds ex_drain ex_cross_class ex_dev = Inr (drain', dev')"
    and d: "drain_submit_details drain' = ex_two_details"
    by (auto simp add: drain_details_def split: sum.splits)
  from ex_transact obtain tr dev'' where
    f: "create_transact ''tr'' ex_ctxt ex_secondary ex_dev = Inr (tr, dev'')"
    by (auto simp add: transact_details_def split: sum.splits)
  from C2_semaphore_chain [of ex_drain ex_cross_class ex_dev drain' dev' "''tr''" ex_ctxt tr dev'']
    e f d
  have "semaphore_chain 0 ex_two_details" by (simp add: ex_dev_def)
  with ex_submit ex_transact show ?thesis
    by (simp add: ex_two_details_def VK_NULL_HANDLE_def)
qed

subsection \<open>The queue family of a submit class\<close>

lemma emplace_keys:
  "set (map fst (qfam_map_emplace_back k v m)) = insert k (set (map fst m))"
proof (induction m)
  case Nil
  show ?case by simp
next
  case (Cons b m)
  obtain k' vs where b: "b = (k', vs)" by (cases b)
  show ?case
  proof (cases "k = k'")
    case True
    with b show ?thesis by simp
  next
    case False
    show ?thesis
    proof (cases "k < k'")
      case True
      with b False show ?thesis by simp
    next
      case nlt: False
      have "insert k' (insert k (set (map fst m))) = insert k (insert k' (set (map fst m)))"
        by (rule insert_commute)
      with b False nlt Cons.IH show ?thesis by simp
    qed
  qed
qed

lemma emplace_sorted:
  "sorted_wrt (<) (map fst m) \<Longrightarrow> sorted_wrt (<) (map fst (qfam_map_emplace_back k v m))"
proof (induction m)
  case Nil
  then show ?case by simp
next
  case (Cons b m)
  obtain k' vs where b: "b = (k', vs)" by (cases b)
  from Cons.prems b have lt: "\<forall>x\<in>set (map fst m). k' < x" and s: "sorted_wrt (<) (map fst m)"
    by simp_all
  show ?case
  proof (cases "k = k'")
    case True
    with b lt s show ?thesis by simp
  next
    case False
    show ?thesis
    proof (cases "k < k'")
      case True
      with lt have "\<forall>x\<in>set (map fst m). k < x" by force
      with b lt s True False show ?thesis by simp
    next
      case nlt: False
      with False have "k' < k" by simp
      with lt have "\<forall>x\<in>set (map fst (qfam_map_emplace_back k v m)). k' < x"
        by (simp only: emplace_keys) simp
      with b False nlt Cons.IH [OF s] show ?thesis by simp
    qed
  qed
qed

text \<open>Every bucket after the insertion is an old bucket with another key, or the bucket
  of the key: the old one extended, or a new one when the key was missing.\<close>

lemma emplace_buckets:
  "sorted_wrt (<) (map fst m) \<Longrightarrow> b \<in> set (qfam_map_emplace_back k v m) \<Longrightarrow>
   (fst b \<noteq> k \<and> b \<in> set m)
   \<or> (fst b = k \<and> (\<exists>vs. (k, vs) \<in> set m \<and> snd b = vs @ [v]))
   \<or> (fst b = k \<and> k \<notin> set (map fst m) \<and> snd b = [v])"
proof (induction m)
  case Nil
  then show ?case by simp
next
  case (Cons c m)
  obtain k' vs where c: "c = (k', vs)" by (cases c)
  from Cons.prems c have lt: "\<forall>x\<in>set (map fst m). k' < x" and s: "sorted_wrt (<) (map fst m)"
    by simp_all
  show ?case
  proof (cases "k = k'")
    case True
    with Cons.prems(2) c have "b = (k, vs @ [v]) \<or> b \<in> set m" by simp
    then show ?thesis
    proof
      assume "b = (k, vs @ [v])"
      with True c show ?thesis by simp
    next
      assume m: "b \<in> set m"
      then have "fst b \<in> set (map fst m)" by simp
      with lt True have "fst b \<noteq> k" by force
      with m show ?thesis by simp
    qed
  next
    case False
    show ?thesis
    proof (cases "k < k'")
      case True
      with lt have "k \<notin> set (map fst m)" by force
      with True False Cons.prems(2) c show ?thesis by auto
    next
      case nlt: False
      with False c Cons.prems(2) have "b = c \<or> b \<in> set (qfam_map_emplace_back k v m)"
        by simp
      then show ?thesis
      proof
        assume "b = c"
        with c False show ?thesis by simp
      next
        assume "b \<in> set (qfam_map_emplace_back k v m)"
        from Cons.IH [OF s this] consider
          (old) "fst b \<noteq> k" "b \<in> set m"
          | (ext) ws where "fst b = k" "(k, ws) \<in> set m" "snd b = ws @ [v]"
          | (new) "fst b = k" "k \<notin> set (map fst m)" "snd b = [v]"
          by blast
        then show ?thesis
        proof cases
          case old
          then show ?thesis by simp
        next
          case ext
          then show ?thesis by auto
        next
          case new
          with False c have "k \<notin> set (map fst (c # m))" by simp
          with new show ?thesis by blast
        qed
      qed
    qed
  qed
qed


lemma emplace_inv:
  assumes "qfam_map_inv m ts" and "k = count_set_bits (queue_flags v)"
  shows "qfam_map_inv (qfam_map_emplace_back k v m) (ts @ [v])"
proof -
  from assms(1) have s: "sorted_wrt (<) (map fst m)"
    and f: "\<forall>b\<in>set m. snd b = filter (\<lambda>t. count_set_bits (queue_flags t) = fst b) ts"
    and c: "\<forall>t\<in>set ts. count_set_bits (queue_flags t) \<in> set (map fst m)"
    by (simp_all add: qfam_map_inv_def)
  have 1: "sorted_wrt (<) (map fst (qfam_map_emplace_back k v m))"
    using s by (rule emplace_sorted)
  have 2: "\<forall>t\<in>set (ts @ [v]).
      count_set_bits (queue_flags t) \<in> set (map fst (qfam_map_emplace_back k v m))"
    using c assms(2) by (simp only: emplace_keys) auto
  have 3: "snd b = filter (\<lambda>t. count_set_bits (queue_flags t) = fst b) (ts @ [v])"
    if b: "b \<in> set (qfam_map_emplace_back k v m)" for b
  proof -
    from emplace_buckets [OF s b] consider
      (old) "fst b \<noteq> k" "b \<in> set m"
      | (ext) vs where "fst b = k" "(k, vs) \<in> set m" "snd b = vs @ [v]"
      | (new) "fst b = k" "k \<notin> set (map fst m)" "snd b = [v]"
      by blast
    then show ?thesis
    proof cases
      case old
      with f assms(2) show ?thesis by auto
    next
      case ext
      with f have "vs = filter (\<lambda>t. count_set_bits (queue_flags t) = k) ts" by force
      with ext assms(2) show ?thesis by simp
    next
      case new
      from c new(2) have "\<forall>t\<in>set ts. count_set_bits (queue_flags t) \<noteq> k" by blast
      then have "filter (\<lambda>t. count_set_bits (queue_flags t) = k) ts = []"
        by (simp add: filter_empty_conv)
      with new assms(2) show ?thesis by simp
    qed
  qed
  from 1 2 3 show ?thesis by (simp add: qfam_map_inv_def)
qed

lemma collect_inv:
  "qfam_map_inv m ts \<Longrightarrow> qfam_map_inv (collect_qfams i ps m) (ts @ traits_from i ps)"
proof (induction ps arbitrary: i m ts)
  case Nil
  then show ?case by simp
next
  case (Cons p ps)
  let ?v = "\<lparr>qfam_idx = of_nat i, queue_flags = queueFlags p\<rparr>"
  from emplace_inv [OF Cons.prems, of "count_set_bits (queueFlags p)" ?v]
  have "qfam_map_inv (qfam_map_emplace_back (count_set_bits (queueFlags p)) ?v m) (ts @ [?v])"
    by simp
  from Cons.IH [OF this, of "Suc i"] show ?case by simp
qed

lemma collect_inv_empty: "qfam_map_inv (collect_qfams 0 ps []) (traits_from 0 ps)"
  using collect_inv [of "[]" "[]" 0 ps] by (simp add: qfam_map_inv_def)

lemma traits_from_nth:
  "j < length ps \<Longrightarrow>
   traits_from i ps ! j = \<lparr>qfam_idx = of_nat (i + j), queue_flags = queueFlags (ps ! j)\<rparr>"
proof (induction ps arbitrary: i j)
  case Nil
  then show ?case by simp
next
  case (Cons p ps)
  then show ?case by (cases j) simp_all
qed

lemma traits_from_length [simp]: "length (traits_from i ps) = length ps"
  by (induction ps arbitrary: i) simp_all

lemma search_buckets_found:
  "a \<noteq> VK_QUEUE_FAMILY_IGNORED \<Longrightarrow> search_buckets req bs a = a"
  by (cases bs) simp_all

lemma search_bucket_find:
  "search_bucket req vs a =
     (case find (\<lambda>t. req AND queue_flags t = req) vs of None \<Rightarrow> a | Some t \<Rightarrow> qfam_idx t)"
  by (induction vs) simp_all

text \<open>Over buckets in descending order of their keys whose families all have an index
  other than the ignored one: if some family holds all required flags, the search returns
  the index of one that does and that has at least as many set bits as any other that
  does.\<close>

lemma search_buckets_most:
  assumes "sorted_wrt (>) (map fst bs)"
    and "\<forall>b\<in>set bs. \<forall>t\<in>set (snd b).
           count_set_bits (queue_flags t) = fst b \<and> qfam_idx t \<noteq> VK_QUEUE_FAMILY_IGNORED"
    and "\<exists>b\<in>set bs. \<exists>t\<in>set (snd b). req AND queue_flags t = req"
  shows "\<exists>b\<in>set bs. \<exists>t\<in>set (snd b).
           search_buckets req bs VK_QUEUE_FAMILY_IGNORED = qfam_idx t
           \<and> req AND queue_flags t = req
           \<and> (\<forall>b'\<in>set bs. \<forall>t'\<in>set (snd b'). req AND queue_flags t' = req \<longrightarrow>
                 count_set_bits (queue_flags t') \<le> count_set_bits (queue_flags t))"
  using assms
proof (induction bs)
  case Nil
  then show ?case by simp
next
  case (Cons b bs)
  let ?P = "\<lambda>t. req AND queue_flags t = req"
  show ?case
  proof (cases "find ?P (snd b)")
    case None
    then have nb: "\<forall>t\<in>set (snd b). \<not> ?P t" by (simp add: find_None_iff)
    with Cons.prems(3) have ex: "\<exists>b\<in>set bs. \<exists>t\<in>set (snd b). ?P t" by auto
    from Cons.prems(1) have s: "sorted_wrt (>) (map fst bs)" by simp
    from Cons.prems(2) have w: "\<forall>b\<in>set bs. \<forall>t\<in>set (snd b).
           count_set_bits (queue_flags t) = fst b \<and> qfam_idx t \<noteq> VK_QUEUE_FAMILY_IGNORED"
      by simp
    from Cons.IH [OF s w ex] obtain b0 t0 where
      r: "b0 \<in> set bs" "t0 \<in> set (snd b0)"
        "search_buckets req bs VK_QUEUE_FAMILY_IGNORED = qfam_idx t0" "?P t0"
        "\<forall>b'\<in>set bs. \<forall>t'\<in>set (snd b'). ?P t' \<longrightarrow>
            count_set_bits (queue_flags t') \<le> count_set_bits (queue_flags t0)"
      by blast
    have "search_buckets req (b # bs) VK_QUEUE_FAMILY_IGNORED = qfam_idx t0"
      using None r(3) by (simp add: search_bucket_find)
    with r nb show ?thesis by auto
  next
    case (Some t0)
    then have t0: "t0 \<in> set (snd b)" "?P t0"
      by (auto simp add: find_Some_iff in_set_conv_nth)
    with Cons.prems(2) have ni: "qfam_idx t0 \<noteq> VK_QUEUE_FAMILY_IGNORED"
      and c0: "count_set_bits (queue_flags t0) = fst b" by auto
    have res: "search_buckets req (b # bs) VK_QUEUE_FAMILY_IGNORED = qfam_idx t0"
      using Some ni by (simp add: search_bucket_find search_buckets_found)
    have "count_set_bits (queue_flags t') \<le> count_set_bits (queue_flags t0)"
      if "b' \<in> set (b # bs)" "t' \<in> set (snd b')" for b' t'
    proof -
      from that Cons.prems(2) have c': "count_set_bits (queue_flags t') = fst b'" by auto
      from that(1) Cons.prems(1) have "fst b' \<le> fst b" by auto
      with c' c0 show ?thesis by simp
    qed
    then have most: "\<forall>b'\<in>set (b # bs). \<forall>t'\<in>set (snd b'). ?P t' \<longrightarrow>
        count_set_bits (queue_flags t') \<le> count_set_bits (queue_flags t0)"
      by blast
    have "b \<in> set (b # bs)" by simp
    with t0 res most show ?thesis by blast
  qed
qed


lemma of_nat_not_ignored:
  assumes "j < 2 ^ 32 - 1"
  shows "(of_nat j :: u32) \<noteq> VK_QUEUE_FAMILY_IGNORED"
proof
  assume "(of_nat j :: u32) = VK_QUEUE_FAMILY_IGNORED"
  then have "unat (of_nat j :: u32) = unat (0xFFFFFFFF :: u32)"
    by (simp add: VK_QUEUE_FAMILY_IGNORED_def)
  moreover from assms have "unat (of_nat j :: u32) = j"
    by (simp add: unat_of_nat)
  ultimately show False using assms by simp
qed

lemma in_traits_from:
  "t \<in> set (traits_from 0 ps) \<longleftrightarrow>
   (\<exists>j<length ps. t = \<lparr>qfam_idx = of_nat j, queue_flags = queueFlags (ps ! j)\<rparr>)"
  using traits_from_nth [of _ ps 0] by (auto simp add: in_set_conv_nth)

lemma alloc_queues_reqs:
  "(ty, req) \<in> set submit_ty_reqs \<Longrightarrow>
   alloc_queues submit_ty_reqs m Map.empty ty =
     Some (search_buckets req (rev m) VK_QUEUE_FAMILY_IGNORED)"
  by (auto simp add: submit_ty_reqs_def)

text \<open>Claim C5, as amended. For a device with fewer than \<open>2^32 - 1\<close> queue families
  and a submit class requirement (graphics or compute) that some family satisfies,
  context construction allocates to the class a family whose capability bits include all
  required bits and that has the most set capability bits among the families that do: no
  satisfying family has more set bits than the one selected.\<close>

theorem C5_queue_family_choice:
  "length qfam_props < 2 ^ 32 - 1 \<and> (ty, req) \<in> set submit_ty_reqs
     \<and> (\<exists>i<length qfam_props. req AND queueFlags (qfam_props ! i) = req) \<longrightarrow>
   (\<exists>allocs j. create_ctxt_queue_allocs qfam_props = Inr allocs
      \<and> allocs ty = Some (of_nat j) \<and> j < length qfam_props
      \<and> req AND queueFlags (qfam_props ! j) = req
      \<and> (\<forall>i<length qfam_props. req AND queueFlags (qfam_props ! i) = req \<longrightarrow>
            count_set_bits (queueFlags (qfam_props ! i))
              \<le> count_set_bits (queueFlags (qfam_props ! j))))"
proof
  assume a: "length qfam_props < 2 ^ 32 - 1 \<and> (ty, req) \<in> set submit_ty_reqs
     \<and> (\<exists>i<length qfam_props. req AND queueFlags (qfam_props ! i) = req)"
  let ?ts = "traits_from 0 qfam_props"
  let ?m = "collect_qfams 0 qfam_props []"
  let ?P = "\<lambda>t. req AND queue_flags t = req"
  have inv: "qfam_map_inv ?m ?ts" by (rule collect_inv_empty)
  then have srt: "sorted_wrt (>) (map fst (rev ?m))"
    by (simp add: qfam_map_inv_def rev_map [symmetric] sorted_wrt_rev)
  have bucket_of: "\<exists>b\<in>set (rev ?m). t \<in> set (snd b)" if "t \<in> set ?ts" for t
  proof -
    from inv that have "count_set_bits (queue_flags t) \<in> set (map fst ?m)"
      by (simp add: qfam_map_inv_def)
    then obtain b where b: "b \<in> set ?m" "fst b = count_set_bits (queue_flags t)" by auto
    with inv have "snd b = filter (\<lambda>u. count_set_bits (queue_flags u) = fst b) ?ts"
      by (simp add: qfam_map_inv_def)
    with b that have "t \<in> set (snd b)" by simp
    with b(1) show ?thesis by auto
  qed
  have wf: "\<forall>b\<in>set (rev ?m). \<forall>t\<in>set (snd b).
      count_set_bits (queue_flags t) = fst b \<and> qfam_idx t \<noteq> VK_QUEUE_FAMILY_IGNORED"
  proof (intro ballI)
    fix b t assume b: "b \<in> set (rev ?m)" and t: "t \<in> set (snd b)"
    from inv b have "snd b = filter (\<lambda>u. count_set_bits (queue_flags u) = fst b) ?ts"
      by (simp add: qfam_map_inv_def)
    with t have c: "count_set_bits (queue_flags t) = fst b" and "t \<in> set ?ts" by simp_all
    then obtain j where "j < length qfam_props" "qfam_idx t = of_nat j"
      by (auto simp add: in_traits_from)
    with a have "qfam_idx t \<noteq> VK_QUEUE_FAMILY_IGNORED"
      using of_nat_not_ignored [of j] by simp
    with c show "count_set_bits (queue_flags t) = fst b \<and> qfam_idx t \<noteq> VK_QUEUE_FAMILY_IGNORED"
      by simp
  qed
  from a obtain i0 where i0: "i0 < length qfam_props" "req AND queueFlags (qfam_props ! i0) = req"
    by blast
  let ?t0 = "\<lparr>qfam_idx = of_nat i0, queue_flags = queueFlags (qfam_props ! i0)\<rparr>"
  from i0 have "?t0 \<in> set ?ts" by (auto simp add: in_traits_from)
  from bucket_of [OF this] obtain b0 where "b0 \<in> set (rev ?m)" "?t0 \<in> set (snd b0)"
    by blast
  moreover from i0(2) have "?P ?t0" by simp
  ultimately have ex: "\<exists>b\<in>set (rev ?m). \<exists>t\<in>set (snd b). ?P t"
    by blast
  from search_buckets_most [OF srt wf ex] obtain b t where
    r: "b \<in> set (rev ?m)" "t \<in> set (snd b)"
      "search_buckets req (rev ?m) VK_QUEUE_FAMILY_IGNORED = qfam_idx t" "?P t"
      "\<forall>b'\<in>set (rev ?m). \<forall>t'\<in>set (snd b'). ?P t' \<longrightarrow>
          count_set_bits (queue_flags t') \<le> count_set_bits (queue_flags t)"
    by blast
  from inv r(1) have "snd b = filter (\<lambda>u. count_set_bits (queue_flags u) = fst b) ?ts"
    by (simp add: qfam_map_inv_def)
  with r(2) have "t \<in> set ?ts" by simp
  then obtain j where j: "j < length qfam_props"
    "t = \<lparr>qfam_idx = of_nat j, queue_flags = queueFlags (qfam_props ! j)\<rparr>"
    by (auto simp add: in_traits_from)
  have most: "count_set_bits (queueFlags (qfam_props ! i))
      \<le> count_set_bits (queueFlags (qfam_props ! j))"
    if "i < length qfam_props" "req AND queueFlags (qfam_props ! i) = req" for i
  proof -
    let ?t = "\<lparr>qfam_idx = of_nat i, queue_flags = queueFlags (qfam_props ! i)\<rparr>"
    from that(1) have "?t \<in> set ?ts" by (auto simp add: in_traits_from)
    from bucket_of [OF this] obtain b' where "b' \<in> set (rev ?m)" "?t \<in> set (snd b')" by blast
    moreover from that(2) have "?P ?t" by simp
    ultimately have "count_set_bits (queue_flags ?t) \<le> count_set_bits (queue_flags t)"
      using r(5) by blast
    with j(2) show ?thesis by simp
  qed
  from a j(1) have ne: "qfam_props \<noteq> []" by auto
  from a have "(ty, req) \<in> set submit_ty_reqs" by simp
  from alloc_queues_reqs [OF this, of ?m] r(3)
  have "alloc_queues submit_ty_reqs ?m Map.empty ty = Some (qfam_idx t)"
    by simp
  with ne j r(4) have "create_ctxt_queue_allocs qfam_props = Inr (alloc_queues submit_ty_reqs ?m Map.empty)
      \<and> alloc_queues submit_ty_reqs ?m Map.empty ty = Some (of_nat j) \<and> j < length qfam_props
      \<and> req AND queueFlags (qfam_props ! j) = req"
    by (simp add: create_ctxt_queue_allocs_def)
  with most show "\<exists>allocs j. create_ctxt_queue_allocs qfam_props = Inr allocs
      \<and> allocs ty = Some (of_nat j) \<and> j < length qfam_props
      \<and> req AND queueFlags (qfam_props ! j) = req
      \<and> (\<forall>i<length qfam_props. req AND queueFlags (qfam_props ! i) = req \<longrightarrow>
            count_set_bits (queueFlags (qfam_props ! i))
              \<le> count_set_bits (queueFlags (qfam_props ! j)))"
    by blast
qed

lemma csb7: "count_set_bits 7 = 3"
  by (simp add: count_set_bits_def upt_rec bit_numeral_word_iff bit_numeral_rec)

lemma csb2: "count_set_bits 2 = 1"
  by (simp add: count_set_bits_def upt_rec  bit_numeral_word_iff bit_numeral_rec)

text \<open>Claim C5 as stated fails: on the example device compute is allocated family 0
  with three set bits, although family 1 satisfies compute with one set bit only.\<close>

theorem C5_counterexample:
  "allocated_qfam (create_ctxt_queue_allocs ex_qfams) L_SUBMIT_TYPE_COMPUTE = Some 0
   \<and> VK_QUEUE_COMPUTE_BIT AND queueFlags (ex_qfams ! 1) = VK_QUEUE_COMPUTE_BIT
   \<and> count_set_bits (queueFlags (ex_qfams ! 1)) = 1
   \<and> count_set_bits (queueFlags (ex_qfams ! 0)) = 3"
  by (simp add: allocated_qfam_def create_ctxt_queue_allocs_def ex_qfams_def submit_ty_reqs_def
      csb7 csb2 vk_consts)


text \<open>The theorem on the example device: compute is allocated family 0, which has three
  capability bits set.\<close>

theorem C5_queue_family_choice_witness:
  "allocated_qfam (create_ctxt_queue_allocs ex_qfams) L_SUBMIT_TYPE_COMPUTE = Some 0
   \<and> count_set_bits (queueFlags (ex_qfams ! 0)) = 3"
proof -
  have h: "length ex_qfams < 2 ^ 32 - 1
      \<and> (L_SUBMIT_TYPE_COMPUTE, VK_QUEUE_COMPUTE_BIT) \<in> set submit_ty_reqs
      \<and> (\<exists>i<length ex_qfams.
            VK_QUEUE_COMPUTE_BIT AND queueFlags (ex_qfams ! i) = VK_QUEUE_COMPUTE_BIT)"
    by (auto simp add: ex_qfams_def submit_ty_reqs_def vk_consts)
  from C5_queue_family_choice
         [of ex_qfams L_SUBMIT_TYPE_COMPUTE VK_QUEUE_COMPUTE_BIT, THEN mp, OF h]
  obtain allocs j where
    r: "create_ctxt_queue_allocs ex_qfams = Inr allocs"
      "allocs L_SUBMIT_TYPE_COMPUTE = Some (of_nat j)" "j < length ex_qfams"
      "\<forall>i<length ex_qfams.
          VK_QUEUE_COMPUTE_BIT AND queueFlags (ex_qfams ! i) = VK_QUEUE_COMPUTE_BIT \<longrightarrow>
          count_set_bits (queueFlags (ex_qfams ! i)) \<le> count_set_bits (queueFlags (ex_qfams ! j))"
    by blast
  have c: "count_set_bits (queueFlags (ex_qfams ! 0)) = 3"
    "count_set_bits (queueFlags (ex_qfams ! 1)) = 1"
    by (simp_all add: ex_qfams_def csb7 csb2)
  have "VK_QUEUE_COMPUTE_BIT AND queueFlags (ex_qfams ! 0) = VK_QUEUE_COMPUTE_BIT"
    by (simp add: ex_qfams_def vk_consts)
  moreover have "0 < length ex_qfams" by (simp add: ex_qfams_def)
  ultimately have "count_set_bits (queueFlags (ex_qfams ! 0))
      \<le> count_set_bits (queueFlags (ex_qfams ! j))"
    using r(4) by blast
  with c have "j \<noteq> 1" by auto
  moreover from r(3) have "j < 2" by (simp add: ex_qfams_def)
  ultimately have "j = 0" by simp
  with r(1,2) c(1) show ?thesis by (simp add: allocated_qfam_def)
qed

subsection \<open>The log apart, two devices are the same\<close>

lemma effects_eq_iff:
  "device_effects d = device_effects d' \<longleftrightarrow>
     next_handle d = next_handle d' \<and> cmdbuf_cmds d = cmdbuf_cmds d' \<and> submits d = submits d'"
  by (simp add: device_effects_def)

lemma same_effects_logs:
  "device_effects d = device_effects d' \<Longrightarrow> d' = d\<lparr>logs := logs d'\<rparr>"
  by (cases d; cases d') (simp add: device_effects_def)

lemma record_calls_frame [simp]:
  "cmdbuf_cmds (record_calls cb calls dev) = (cmdbuf_cmds dev)(cb := cmdbuf_cmds dev cb @ calls)"
  "next_handle (record_calls cb calls dev) = next_handle dev"
  "submits (record_calls cb calls dev) = submits dev"
  "logs (record_calls cb calls dev) = logs dev"
  by (induction calls arbitrary: dev; simp add: record_calls_def record_vk_def)+

lemma get_cmdbuf_logs:
  "get_cmdbuf t ty (dev\<lparr>logs := l\<rparr>) =
     (case get_cmdbuf t ty dev of
        Inl e \<Rightarrow> Inl e
      | Inr (cb, t', dev') \<Rightarrow> Inr (cb, t', dev'\<lparr>logs := l\<rparr>))"
  by (simp add: get_cmdbuf_def Let_def push_transact_submit_detail_def create_cmd_pool_def
      alloc_cmdbuf_def create_sema_def create_handle_def end_cmdbuf_def begin_cmdbuf_def
      record_vk_def submit_transact_submit_detail_def split: sum.splits)

lemma get_cmdbuf_cong:
  assumes "device_effects d0 = device_effects d" and "get_cmdbuf t ty d = Inr (cb, t1, d1)"
  shows "\<exists>d1'. get_cmdbuf t ty d0 = Inr (cb, t1, d1') \<and> device_effects d1' = device_effects d1"
proof -
  from same_effects_logs [OF assms(1) [symmetric]] have "d0 = d\<lparr>logs := logs d0\<rparr>" .
  then have "get_cmdbuf t ty d0 = Inr (cb, t1, d1\<lparr>logs := logs d0\<rparr>)"
    using assms(2) get_cmdbuf_logs [of t ty "logs d0" d] by simp
  then show ?thesis by (simp add: device_effects_def)
qed


subsection \<open>Every recording is a sequence of pieces\<close>

lemma piece_steps_from:
  assumes "piece_steps ps t dev t' dev'" and "device_effects d = device_effects dev"
  shows "piece_steps ps t d t' dev'"
  using assms(1)
proof (cases rule: piece_steps.cases)
  case no_piece
  with assms show ?thesis by (simp add: piece_steps.no_piece)
next
  case (one_piece dev0 ty cb t1 dev1 ps' calls)
  from one_piece(2) assms(2) have "device_effects dev0 = device_effects d" by simp
  from piece_steps.one_piece [OF this one_piece(3) one_piece(4)] one_piece(1)
  show ?thesis by simp
qed

lemma piece_steps_to:
  "piece_steps ps t dev t' dev' \<Longrightarrow> device_effects d' = device_effects dev' \<Longrightarrow>
   piece_steps ps t dev t' d'"
  by (induction rule: piece_steps.induct) (auto intro: piece_steps.intros)

lemma piece_steps_append:
  "piece_steps xs t dev t1 dev1 \<Longrightarrow> piece_steps ys t1 dev1 t' dev' \<Longrightarrow>
   piece_steps (xs @ ys) t dev t' dev'"
  by (induction rule: piece_steps.induct)
     (auto intro: piece_steps.intros piece_steps_from)

lemma piece_steps_single:
  "get_cmdbuf t ty dev = Inr (cb, t1, dev1) \<Longrightarrow>
   device_effects dev' = device_effects (record_calls cb calls dev1) \<Longrightarrow>
   piece_steps [(ty, calls)] t dev t1 dev'"
  by (blast intro: piece_steps.intros)

lemma inline_transact_loop_pieces:
  "inline_transact_loop sds t dev = Inr (t', dev') \<Longrightarrow>
   piece_steps (map (\<lambda>sd. (submit_ty sd, [vkCmdExecuteCommands (cmdbuf sd)])) sds) t dev t' dev'"
proof (induction sds arbitrary: t dev)
  case Nil
  then show ?case by (auto intro: piece_steps.intros)
next
  case (Cons sd sds)
  from Cons.prems obtain cb t1 dev1 where
    g: "get_cmdbuf t (submit_ty sd) dev = Inr (cb, t1, dev1)" and
    r: "inline_transact_loop sds t1 (record_vk cb (vkCmdExecuteCommands (cmdbuf sd)) dev1) =
          Inr (t', dev')"
    by (auto split: sum.splits)
  have e: "record_vk cb (vkCmdExecuteCommands (cmdbuf sd)) dev1 =
      record_calls cb [vkCmdExecuteCommands (cmdbuf sd)] dev1"
    by (simp add: record_calls_def)
  from Cons.IH [OF r] g show ?case
    by (auto simp add: e intro: piece_steps.intros)
qed

lemma effects_frame [simp]:
  "device_effects (log_msg lv s dev) = device_effects dev"
  "device_effects (debug_if_primary t s dev) = device_effects dev"
  by (simp_all add: device_effects_def log_msg_def debug_if_primary_def)

lemma record_vk_calls:
  "record_vk cb c dev = record_calls cb [c] dev"
  "record_calls cb ys (record_calls cb xs dev) = record_calls cb (xs @ ys) dev"
  by (simp_all add: record_calls_def)

lemma record_calls_Nil [simp]: "record_calls cb [] dev = dev"
  by (simp add: record_calls_def)

lemma bind_desc_set_calls:
  "bind_desc_set cb bp task rsc_pool dev =
     record_calls cb (desc_set_calls bp task rsc_pool) dev"
  by (simp add: bind_desc_set_def desc_set_calls_def record_calls_def)

lemma record_cmd_pieces:
  "record_cmd t c dev = Inr (t', dev') \<Longrightarrow> piece_steps (command_pieces c) t dev t' dev'"
proof (cases c)
  case (L_COMMAND_TYPE_INLINE_TRANSACTION sub)
  then show "record_cmd t c dev = Inr (t', dev') \<Longrightarrow> ?thesis"
    by (auto simp add: record_cmd_inline_transact_def split: if_splits sum.splits
        dest!: inline_transact_loop_pieces intro: piece_steps_to)
next
  case (UnknownCommandType tag)
  then show "record_cmd t c dev = Inr (t', dev') \<Longrightarrow> ?thesis"
    by (auto intro: piece_steps.intros)
next
  case (L_COMMAND_TYPE_DISPATCH task rsc_pool nworkgrp)
  then show "record_cmd t c dev = Inr (t', dev') \<Longrightarrow> ?thesis"
    by (cases nworkgrp)
       (auto simp add: record_cmd_dispatch_def Let_def record_vk_calls bind_desc_set_calls
          split: sum.splits intro!: piece_steps_single)
qed (auto simp add: record_cmd_defs Let_def record_vk_calls bind_desc_set_calls
      buf_barrier_calls_def img_barrier_calls_def
      split: if_splits sum.splits intro!: piece_steps_single)


lemma create_transact_loop_pieces:
  "create_transact_loop cmds t dev = Inr (t', dev') \<Longrightarrow>
   piece_steps (concat (map command_pieces cmds)) t dev t' dev'"
proof (induction cmds arbitrary: t dev)
  case Nil
  then show ?case by (auto intro: piece_steps.intros)
next
  case (Cons c cs)
  from Cons.prems obtain t1 dev1 where
    a: "record_cmd t c dev = Inr (t1, dev1)" and b: "create_transact_loop cs t1 dev1 = Inr (t', dev')"
    by (auto split: sum.splits)
  from record_cmd_pieces [OF a] Cons.IH [OF b] show ?case
    by (simp add: piece_steps_append)
qed

lemma submit_cmds_loop_pieces:
  "submit_cmds_loop i cmds t dev = Inr (t', dev') \<Longrightarrow>
   piece_steps (concat (map command_pieces cmds)) t dev t' dev'"
proof (induction cmds arbitrary: i t dev)
  case Nil
  then show ?case by (auto intro: piece_steps.intros)
next
  case (Cons c cs)
  from Cons.prems obtain t1 dev1 where
    a: "record_cmd t c (log_msg Debug [Str ''recording '', Num i, Str ''th command''] dev) =
          Inr (t1, dev1)"
    and b: "submit_cmds_loop (Suc i) cs t1 dev1 = Inr (t', dev')"
    by (auto split: sum.splits)
  from record_cmd_pieces [OF a] have "piece_steps (command_pieces c) t dev t1 dev1"
    by (rule piece_steps_from) simp
  with Cons.IH [OF b] show ?case
    by (simp add: piece_steps_append)
qed

text \<open>What a successful call of \<open>_get_cmdbuf\<close> that opens a submit detail does: it ends
  the command buffer of the detail before, and begins the one of the new detail.\<close>

lemma get_cmdbuf_opens:
  assumes "get_cmdbuf t ty dev = Inr (cb, t', dev')"
    and "\<not> (submit_details t \<noteq> [] \<and>
          (if ty = L_SUBMIT_TYPE_ANY then submit_ty (last (submit_details t)) else ty) =
            submit_ty (last (submit_details t)))"
  shows "ty \<noteq> L_SUBMIT_TYPE_ANY"
    and "submit_details t' = submit_details t @
              [\<lparr>submit_ty = ty, cmd_pool = next_handle dev + 1, cmdbuf = next_handle dev + 2,
                wait_sema = (if submit_details t = [] then VK_NULL_HANDLE
                             else signal_sema (last (submit_details t))),
                signal_sema = next_handle dev + 3\<rparr>]"
    and "next_handle dev' = next_handle dev + 3"
    and "cb = next_handle dev + 2"
    and "cmdbuf_cmds dev' =
          (let f1 = (if submit_details t = [] then cmdbuf_cmds dev
                     else (cmdbuf_cmds dev)
                            (cmdbuf (last (submit_details t)) :=
                               cmdbuf_cmds dev (cmdbuf (last (submit_details t))) @
                                 [vkEndCommandBuffer]))
           in f1(next_handle dev + 2 :=
                   f1 (next_handle dev + 2) @ [vkBeginCommandBuffer (begin_flags ty)]))"
  using assms
  by (auto simp add: get_cmdbuf_def Let_def push_transact_submit_detail_def create_cmd_pool_def
      alloc_cmdbuf_def create_sema_def create_handle_def end_cmdbuf_def begin_cmdbuf_def
      record_vk_def submit_transact_submit_detail_def begin_flags_def
      split: if_splits sum.splits)

lemma get_cmdbuf_same:
  assumes "get_cmdbuf t ty dev = Inr (cb, t', dev')"
    and "submit_details t \<noteq> []"
    and "(if ty = L_SUBMIT_TYPE_ANY then submit_ty (last (submit_details t)) else ty) =
            submit_ty (last (submit_details t))"
  shows "t' = t \<and> dev' = dev \<and> cb = cmdbuf (last (submit_details t))"
  using assms by (auto simp add: get_cmdbuf_def Let_def split: if_splits sum.splits)

lemma get_cmdbuf_any_detail:
  "get_cmdbuf t L_SUBMIT_TYPE_ANY dev = Inr (cb, t', dev') \<Longrightarrow> submit_details t \<noteq> []"
  by (auto simp add: get_cmdbuf_def split: if_splits)

lemma detail_holds_run_effects:
  "device_effects d = device_effects dev \<Longrightarrow> detail_holds_run dev0 d = detail_holds_run dev0 dev"
  by (intro ext) (simp add: detail_holds_run_def effects_eq_iff)

lemma runs_inv_effects:
  "device_effects d = device_effects dev \<Longrightarrow> runs_inv dev0 gs t d = runs_inv dev0 gs t dev"
  by (simp add: runs_inv_def detail_holds_run_effects [of d dev] detail_holds_open_run_def
      effects_eq_iff)

lemma sorted_butlast_less:
  assumes "sorted_wrt (<) (map cmdbuf ds)" and "ds \<noteq> []"
  shows "\<forall>x\<in>set (butlast ds). cmdbuf x < cmdbuf (last ds)"
proof -
  from assms(2) have "ds = butlast ds @ [last ds]" by simp
  then have "sorted_wrt (<) (map cmdbuf (butlast ds @ [last ds]))" using assms(1) by simp
  then show ?thesis by (simp add: sorted_wrt_append)
qed


text \<open>A piece of the class of the current detail joins the last run; a piece of another
  class ends the current command buffer and opens a run of its own. Either way the
  invariant is kept.\<close>

lemma piece_joins_run:
  assumes inv: "runs_inv dev0 gs t d" and ne: "submit_details t \<noteq> []"
  shows "runs_inv dev0 (butlast gs @ [(fst (last gs), snd (last gs) @ calls)]) t
           (record_calls (cmdbuf (last (submit_details t))) calls d)"
proof -
  let ?ds = "submit_details t"
  let ?E = "record_calls (cmdbuf (last ?ds)) calls d"
  from inv have len: "length ?ds = length gs"
    and srt: "sorted_wrt (<) (map cmdbuf ?ds)"
    and bnd: "\<forall>x\<in>set ?ds. next_handle dev0 < cmdbuf x \<and> cmdbuf x \<le> next_handle d"
    and n0: "next_handle dev0 \<le> next_handle d"
    and oth: "\<forall>cb. cb \<notin> cmdbuf ` set ?ds \<longrightarrow> cmdbuf_cmds d cb = cmdbuf_cmds dev0 cb"
    by (simp_all add: runs_inv_def)
  from inv ne have cl: "list_all2 (detail_holds_run dev0 d) (butlast ?ds) (butlast gs)"
    and op: "detail_holds_open_run dev0 d (last ?ds) (last gs)"
    by (simp_all add: runs_inv_def)
  from ne len have gne: "gs \<noteq> []" by auto
  have lt: "\<forall>x\<in>set (butlast ?ds). cmdbuf x < cmdbuf (last ?ds)"
    using sorted_butlast_less [OF srt ne] .
  have cl': "list_all2 (detail_holds_run dev0 ?E) (butlast ?ds) (butlast gs)"
    using cl
  proof (rule list.rel_mono_strong)
    fix x h assume "x \<in> set (butlast ?ds)" "detail_holds_run dev0 d x h"
    with lt show "detail_holds_run dev0 ?E x h"
      by (auto simp add: detail_holds_run_def)
  qed
  have op': "detail_holds_open_run dev0 ?E (last ?ds)
      (fst (last gs), snd (last gs) @ calls)"
    using op by (simp add: detail_holds_open_run_def)
  have mem: "cmdbuf (last ?ds) \<in> cmdbuf ` set ?ds" using ne by simp
  have oth': "\<forall>x. x \<notin> cmdbuf ` set ?ds \<longrightarrow> cmdbuf_cmds ?E x = cmdbuf_cmds dev0 x"
  proof (intro allI impI)
    fix x assume "x \<notin> cmdbuf ` set ?ds"
    with mem oth show "cmdbuf_cmds ?E x = cmdbuf_cmds dev0 x" by auto
  qed
  have len': "length ?ds = length (butlast gs @ [(fst (last gs), snd (last gs) @ calls)])"
    using len gne by simp
  have bnd': "\<forall>x\<in>set ?ds. next_handle dev0 < cmdbuf x \<and> cmdbuf x \<le> next_handle ?E"
    using bnd by simp
  have n0': "next_handle dev0 \<le> next_handle ?E" using n0 by simp
  have bl: "butlast (butlast gs @ [(fst (last gs), snd (last gs) @ calls)]) = butlast gs"
    "last (butlast gs @ [(fst (last gs), snd (last gs) @ calls)]) =
       (fst (last gs), snd (last gs) @ calls)"
    by simp_all
  show ?thesis
    unfolding runs_inv_def bl
    using len' cl' op' srt bnd' n0' oth' by blast
qed


lemma piece_opens_run:
  assumes inv: "runs_inv dev0 gs t d"
    and nh: "next_handle d1 = next_handle d + 3"
    and cmds: "cmdbuf_cmds d1 =
          (let f1 = (if submit_details t = [] then cmdbuf_cmds d
                     else (cmdbuf_cmds d)
                            (cmdbuf (last (submit_details t)) :=
                               cmdbuf_cmds d (cmdbuf (last (submit_details t))) @
                                 [vkEndCommandBuffer]))
           in f1(next_handle d + 2 :=
                   f1 (next_handle d + 2) @ [vkBeginCommandBuffer (begin_flags ty)]))"
    and new: "submit_ty new = ty" "cmdbuf new = next_handle d + 2"
    and sd: "submit_details t1 = submit_details t @ [new]"
  shows "runs_inv dev0 (gs @ [(ty, calls)]) t1 (record_calls (next_handle d + 2) calls d1)"
proof -
  let ?ds = "submit_details t"
  let ?n = "next_handle d"
  let ?D = "record_calls (?n + 2) calls d1"
  from inv have len: "length ?ds = length gs"
    and srt: "sorted_wrt (<) (map cmdbuf ?ds)"
    and bnd: "\<forall>x\<in>set ?ds. next_handle dev0 < cmdbuf x \<and> cmdbuf x \<le> next_handle d"
    and n0: "next_handle dev0 \<le> next_handle d"
    and oth: "\<forall>cb. cb \<notin> cmdbuf ` set ?ds \<longrightarrow> cmdbuf_cmds d cb = cmdbuf_cmds dev0 cb"
    by (simp_all add: runs_inv_def)
  have cl: "list_all2 (detail_holds_run dev0 d) (butlast ?ds) (butlast gs)"
    and op: "detail_holds_open_run dev0 d (last ?ds) (last gs)" if "?ds \<noteq> []"
    using inv that by (simp_all add: runs_inv_def)
  have fresh: "\<forall>x\<in>set ?ds. cmdbuf x < ?n + 2" using bnd by auto
  have lastne: "cmdbuf (last ?ds) \<noteq> ?n + 2" if "?ds \<noteq> []"
  proof -
    from that have "last ?ds \<in> set ?ds" by simp
    with fresh show ?thesis by fastforce
  qed
  have D1: "cmdbuf_cmds ?D (?n + 2) =
      cmdbuf_cmds d (?n + 2) @ [vkBeginCommandBuffer (begin_flags ty)] @ calls"
  proof (cases "?ds = []")
    case True
    with cmds show ?thesis by (simp add: Let_def)
  next
    case False
    with cmds lastne [OF False] show ?thesis by (simp add: Let_def)
  qed
  have D2: "cmdbuf_cmds ?D (cmdbuf (last ?ds)) =
      cmdbuf_cmds d (cmdbuf (last ?ds)) @ [vkEndCommandBuffer]" if "?ds \<noteq> []"
    using cmds lastne [OF that] that by (simp add: Let_def)
  have D3: "cmdbuf_cmds ?D x = cmdbuf_cmds d x"
    if "x \<noteq> ?n + 2" "?ds \<noteq> [] \<longrightarrow> x \<noteq> cmdbuf (last ?ds)" for x
    using cmds that by (simp add: Let_def)
  have cl': "list_all2 (detail_holds_run dev0 ?D) ?ds gs"
  proof (cases "?ds = []")
    case True
    with len show ?thesis by simp
  next
    case ne: False
    from ne len have gne: "gs \<noteq> []" by auto
    have lt: "\<forall>x\<in>set (butlast ?ds). cmdbuf x < cmdbuf (last ?ds)"
      using sorted_butlast_less [OF srt ne] .
    have a: "list_all2 (detail_holds_run dev0 ?D) (butlast ?ds) (butlast gs)"
      using cl [OF ne]
    proof (rule list.rel_mono_strong)
      fix x h assume x: "x \<in> set (butlast ?ds)" "detail_holds_run dev0 d x h"
      then have "x \<in> set ?ds" by (auto dest: in_set_butlastD)
      with fresh have "cmdbuf x \<noteq> ?n + 2" by fastforce
      moreover from x(1) lt have "cmdbuf x \<noteq> cmdbuf (last ?ds)" by fastforce
      ultimately have "cmdbuf_cmds ?D (cmdbuf x) = cmdbuf_cmds d (cmdbuf x)"
        using D3 [of "cmdbuf x"] by blast
      with x(2) show "detail_holds_run dev0 ?D x h"
        by (simp add: detail_holds_run_def)
    qed
    from D2 [OF ne] op [OF ne]
    have b: "detail_holds_run dev0 ?D (last ?ds) (last gs)"
      by (simp add: detail_holds_run_def detail_holds_open_run_def)
    from a b have "list_all2 (detail_holds_run dev0 ?D)
        (butlast ?ds @ [last ?ds]) (butlast gs @ [last gs])"
      by (simp add: list_all2_appendI)
    with ne gne show ?thesis by simp
  qed
  have "?n + 2 \<notin> cmdbuf ` set ?ds" using fresh by fastforce
  with oth have "cmdbuf_cmds d (?n + 2) = cmdbuf_cmds dev0 (?n + 2)" by blast
  with D1 new have op': "detail_holds_open_run dev0 ?D new (ty, calls)"
    by (simp add: detail_holds_open_run_def)
  have oth': "\<forall>x. x \<notin> cmdbuf ` set (?ds @ [new]) \<longrightarrow> cmdbuf_cmds ?D x = cmdbuf_cmds dev0 x"
  proof (intro allI impI)
    fix x assume x: "x \<notin> cmdbuf ` set (?ds @ [new])"
    with new have a: "x \<noteq> ?n + 2" and n: "x \<notin> cmdbuf ` set ?ds" by auto
    from n have b: "?ds \<noteq> [] \<longrightarrow> x \<noteq> cmdbuf (last ?ds)"
      using last_in_set [of ?ds] by blast
    from D3 [OF a b] oth n show "cmdbuf_cmds ?D x = cmdbuf_cmds dev0 x" by simp
  qed
  have srt': "sorted_wrt (<) (map cmdbuf (?ds @ [new]))"
    using srt fresh new by (simp add: sorted_wrt_append)
  have bnd': "\<forall>x\<in>set (?ds @ [new]). next_handle dev0 < cmdbuf x \<and> cmdbuf x \<le> next_handle ?D"
    using bnd n0 nh new by auto
  have n0': "next_handle dev0 \<le> next_handle ?D" using n0 nh by simp
  have len': "length (?ds @ [new]) = length (gs @ [(ty, calls)])" using len by simp
  have bl: "butlast (?ds @ [new]) = ?ds" "last (?ds @ [new]) = new" "?ds @ [new] \<noteq> []"
    "butlast (gs @ [(ty, calls)]) = gs" "last (gs @ [(ty, calls)]) = (ty, calls)"
    by simp_all
  show ?thesis
    unfolding runs_inv_def sd bl
    using len' cl' op' srt' bnd' n0' oth' by blast
qed


lemma add_piece_join:
  "gs \<noteq> [] \<Longrightarrow> (if ty = L_SUBMIT_TYPE_ANY then fst (last gs) else ty) = fst (last gs) \<Longrightarrow>
   add_piece gs (ty, calls) = butlast gs @ [(fst (last gs), snd (last gs) @ calls)]"
  by (cases "ty = L_SUBMIT_TYPE_ANY") (simp_all add: add_piece_def)

lemma add_piece_open:
  "ty \<noteq> L_SUBMIT_TYPE_ANY \<Longrightarrow> gs = [] \<or> fst (last gs) \<noteq> ty \<Longrightarrow>
   add_piece gs (ty, calls) = gs @ [(ty, calls)]"
  by (auto simp add: add_piece_def)

lemma piece_runs_inv:
  assumes inv: "runs_inv dev0 gs t d" and g: "get_cmdbuf t ty d = Inr (cb, t1, d1)"
  shows "runs_inv dev0 (add_piece gs (ty, calls)) t1 (record_calls cb calls d1)"
proof -
  let ?ds = "submit_details t"
  let ?r = "if ty = L_SUBMIT_TYPE_ANY then submit_ty (last ?ds) else ty"
  from inv have len: "length ?ds = length gs" by (simp add: runs_inv_def)
  have cls: "fst (last gs) = submit_ty (last ?ds)" if "?ds \<noteq> []"
    using inv that by (simp add: runs_inv_def detail_holds_open_run_def)
  show ?thesis
  proof (cases "?ds \<noteq> [] \<and> ?r = submit_ty (last ?ds)")
    case True
    then have ne: "?ds \<noteq> []" and r: "?r = submit_ty (last ?ds)" by simp_all
    from get_cmdbuf_same [OF g ne r]
    have s: "t1 = t" "d1 = d" "cb = cmdbuf (last ?ds)" by simp_all
    from ne len have gne: "gs \<noteq> []" by auto
    have "(if ty = L_SUBMIT_TYPE_ANY then fst (last gs) else ty) = fst (last gs)"
      using cls [OF ne] r by (cases "ty = L_SUBMIT_TYPE_ANY") simp_all
    from add_piece_join [OF gne this]
    have ap: "add_piece gs (ty, calls) = butlast gs @ [(fst (last gs), snd (last gs) @ calls)]" .
    from piece_joins_run [OF inv ne] show ?thesis by (simp only: ap s)
  next
    case False
    note o = get_cmdbuf_opens [OF g False]
    have "gs = [] \<or> fst (last gs) \<noteq> ty"
    proof (cases "?ds = []")
      case True
      with len show ?thesis by simp
    next
      case ne: False
      with False o(1) have "submit_ty (last ?ds) \<noteq> ty" by auto
      with cls [OF ne] show ?thesis by simp
    qed
    from add_piece_open [OF o(1) this]
    have ap: "add_piece gs (ty, calls) = gs @ [(ty, calls)]" .
    have "runs_inv dev0 (gs @ [(ty, calls)]) t1 (record_calls (next_handle d + 2) calls d1)"
      by (rule piece_opens_run [OF inv o(3) o(5) _ _ o(2)]) simp_all
    then show ?thesis by (simp only: ap o(4))
  qed
qed

lemma piece_steps_runs_inv:
  "piece_steps ps t dev t' dev' \<Longrightarrow> runs_inv dev0 gs t dev \<Longrightarrow>
   runs_inv dev0 (foldl add_piece gs ps) t' dev'"
proof (induction arbitrary: gs rule: piece_steps.induct)
  case (no_piece dev' dev t)
  from runs_inv_effects [OF no_piece.hyps] no_piece.prems show ?case by simp
next
  case (one_piece d dev t ty cb t1 d1 ps calls t' dev')
  from runs_inv_effects [OF one_piece.hyps(1)] one_piece.prems have "runs_inv dev0 gs t d"
    by simp
  from piece_runs_inv [OF this one_piece.hyps(2)] one_piece.IH show ?case by simp
qed

lemma runs_inv_start:
  "submit_details t = [] \<Longrightarrow> runs_inv dev [] t dev"
  by (simp add: runs_inv_def)


subsection \<open>The runs of the pieces\<close>

lemma group_runs_last:
  "xs \<noteq> [] \<Longrightarrow> group_runs xs \<noteq> [] \<and> fst (last (group_runs xs)) = fst (last xs)"
  by (induction xs rule: group_runs.induct) auto

lemma group_runs_Nil [simp]: "group_runs xs = [] \<longleftrightarrow> xs = []"
  using group_runs_last [of xs] by (cases xs) auto

lemma group_runs_snoc:
  "group_runs (xs @ [(k, v)]) =
     (if xs \<noteq> [] \<and> fst (last xs) = k
      then butlast (group_runs xs) @ [(k, snd (last (group_runs xs)) @ v)]
      else group_runs xs @ [(k, v)])"
proof (induction xs rule: group_runs.induct)
  case 1
  then show ?case by simp
next
  case (2 p)
  then show ?case by (cases p) simp
next
  case (3 ty calls ty' calls' ps)
  show ?case
  proof (cases "ty = ty'")
    case True
    with 3(1) show ?thesis by simp
  next
    case False
    have ne: "group_runs ((ty', calls') # ps) \<noteq> []" by simp
    from False 3(2) ne show ?thesis by (simp add: butlast_append last_append)
  qed
qed

lemma resolve_pieces_Nil [simp]: "resolve_pieces cur ps = [] \<longleftrightarrow> ps = []"
  by (cases ps) (auto split: if_splits)

lemma resolve_pieces_snoc:
  "resolve_pieces cur (ps @ [(ty, calls)]) =
     resolve_pieces cur ps @
       [(if ty = L_SUBMIT_TYPE_ANY
         then (if ps = [] then cur else fst (last (resolve_pieces cur ps))) else ty, calls)]"
  by (induction cur ps rule: resolve_pieces.induct) auto

lemma foldl_add_piece:
  "foldl add_piece [] ps = group_runs (resolve_pieces L_SUBMIT_TYPE_ANY ps)"
proof (induction ps rule: rev_induct)
  case Nil
  then show ?case by simp
next
  case (snoc p ps)
  obtain ty calls where p: "p = (ty, calls)" by (cases p)
  let ?R = "resolve_pieces L_SUBMIT_TYPE_ANY ps"
  let ?G = "group_runs ?R"
  have l: "?R \<noteq> [] \<Longrightarrow> fst (last ?G) = fst (last ?R)"
    using group_runs_last [of ?R] by simp
  show ?case
  proof (cases "ps = []")
    case True
    then show ?thesis by (simp add: p add_piece_def)
  next
    case False
    then have R: "?R \<noteq> []" and G: "?G \<noteq> []" by simp_all
    from False l [OF R] R G snoc.IH show ?thesis
      by (simp add: p resolve_pieces_snoc group_runs_snoc add_piece_def Let_def)
  qed
qed

lemma command_pieces_classes: "map fst (command_pieces c) = required_classes c"
proof (cases c)
  case (L_COMMAND_TYPE_DISPATCH task rsc_pool nworkgrp)
  then show ?thesis by (cases nworkgrp) simp
qed (simp_all add: comp_def)

lemma resolve_pieces_classes:
  "map fst (resolve_pieces cur ps) = resolve_classes cur (map fst ps)"
  by (induction cur ps rule: resolve_pieces.induct) auto

lemma group_runs_classes: "map fst (group_runs ps) = remdups_adj (map fst ps)"
  by (induction ps rule: group_runs.induct) auto

lemma detail_runs_classes: "map fst (detail_runs cmds) = class_runs cmds"
  by (simp add: detail_runs_def class_runs_def group_runs_classes resolve_pieces_classes
      map_concat command_pieces_classes comp_def)


lemma group_runs_calls: "concat (map snd (group_runs ps)) = concat (map snd ps)"
  by (induction ps rule: group_runs.induct) auto

lemma resolve_pieces_calls: "concat (map snd (resolve_pieces cur ps)) = concat (map snd ps)"
  by (induction cur ps rule: resolve_pieces.induct) auto

text \<open>The runs of a sequence hold the calls of its commands, all of them and in order.\<close>

lemma detail_runs_calls:
  "concat (map snd (detail_runs cmds)) = concat (map command_calls cmds)"
  by (induction cmds)
     (simp_all add: detail_runs_def group_runs_calls resolve_pieces_calls command_calls_def)


subsection \<open>What a translation leaves in the command buffers\<close>

text \<open>Ending the command buffer of the last submit detail completes the invariant: every
  detail holds its run.\<close>

lemma runs_inv_end:
  assumes inv: "runs_inv dev0 gs t d" and ne: "submit_details t \<noteq> []"
    and e: "cmdbuf_cmds d' =
      (cmdbuf_cmds d)(cmdbuf (last (submit_details t)) :=
         cmdbuf_cmds d (cmdbuf (last (submit_details t))) @ [vkEndCommandBuffer])"
  shows "list_all2 (detail_holds_run dev0 d') (submit_details t) gs
    \<and> distinct (map cmdbuf (submit_details t))
    \<and> (\<forall>x\<in>set (submit_details t). next_handle dev0 < cmdbuf x)
    \<and> (\<forall>cb. cb \<notin> cmdbuf ` set (submit_details t) \<longrightarrow> cmdbuf_cmds d' cb = cmdbuf_cmds dev0 cb)"
proof -
  let ?ds = "submit_details t"
  from inv have len: "length ?ds = length gs"
    and srt: "sorted_wrt (<) (map cmdbuf ?ds)"
    and bnd: "\<forall>x\<in>set ?ds. next_handle dev0 < cmdbuf x \<and> cmdbuf x \<le> next_handle d"
    and oth: "\<forall>cb. cb \<notin> cmdbuf ` set ?ds \<longrightarrow> cmdbuf_cmds d cb = cmdbuf_cmds dev0 cb"
    by (simp_all add: runs_inv_def)
  from inv ne have cl: "list_all2 (detail_holds_run dev0 d) (butlast ?ds) (butlast gs)"
    and op: "detail_holds_open_run dev0 d (last ?ds) (last gs)"
    by (simp_all add: runs_inv_def)
  from ne len have gne: "gs \<noteq> []" by auto
  have lt: "\<forall>x\<in>set (butlast ?ds). cmdbuf x < cmdbuf (last ?ds)"
    using sorted_butlast_less [OF srt ne] .
  have a: "list_all2 (detail_holds_run dev0 d') (butlast ?ds) (butlast gs)"
    using cl
  proof (rule list.rel_mono_strong)
    fix x h assume x: "x \<in> set (butlast ?ds)" "detail_holds_run dev0 d x h"
    from x(1) lt have "cmdbuf x \<noteq> cmdbuf (last ?ds)" by fastforce
    with e have "cmdbuf_cmds d' (cmdbuf x) = cmdbuf_cmds d (cmdbuf x)" by simp
    with x(2) show "detail_holds_run dev0 d' x h" by (simp add: detail_holds_run_def)
  qed
  from e op have b: "detail_holds_run dev0 d' (last ?ds) (last gs)"
    by (simp add: detail_holds_run_def detail_holds_open_run_def)
  from a b have "list_all2 (detail_holds_run dev0 d')
      (butlast ?ds @ [last ?ds]) (butlast gs @ [last gs])"
    by (simp add: list_all2_appendI)
  with ne gne have 1: "list_all2 (detail_holds_run dev0 d') ?ds gs" by simp
  from srt have 2: "distinct (map cmdbuf ?ds)" by (simp add: strict_sorted_iff)
  from bnd have 3: "\<forall>x\<in>set ?ds. next_handle dev0 < cmdbuf x" by blast
  have 4: "\<forall>cb. cb \<notin> cmdbuf ` set ?ds \<longrightarrow> cmdbuf_cmds d' cb = cmdbuf_cmds dev0 cb"
  proof (intro allI impI)
    fix cb assume n: "cb \<notin> cmdbuf ` set ?ds"
    with ne have "cb \<noteq> cmdbuf (last ?ds)" using last_in_set [of ?ds] by blast
    with e oth n show "cmdbuf_cmds d' cb = cmdbuf_cmds dev0 cb" by simp
  qed
  from 1 2 3 4 show ?thesis by blast
qed

lemma piece_steps_end:
  assumes s: "piece_steps ps t dev t1 dev1" and st: "submit_details t = []"
    and ne: "submit_details t1 \<noteq> []"
    and e: "cmdbuf_cmds dev' =
      (cmdbuf_cmds dev1)(cmdbuf (last (submit_details t1)) :=
         cmdbuf_cmds dev1 (cmdbuf (last (submit_details t1))) @ [vkEndCommandBuffer])"
  shows "list_all2 (detail_holds_run dev dev') (submit_details t1)
           (group_runs (resolve_pieces L_SUBMIT_TYPE_ANY ps))
    \<and> distinct (map cmdbuf (submit_details t1))
    \<and> (\<forall>x\<in>set (submit_details t1). next_handle dev < cmdbuf x)
    \<and> (\<forall>cb. cb \<notin> cmdbuf ` set (submit_details t1) \<longrightarrow> cmdbuf_cmds dev' cb = cmdbuf_cmds dev cb)"
proof -
  from piece_steps_runs_inv [OF s runs_inv_start [OF st]]
  have "runs_inv dev (group_runs (resolve_pieces L_SUBMIT_TYPE_ANY ps)) t1 dev1"
    by (simp add: foldl_add_piece)
  from runs_inv_end [OF this ne e] show ?thesis .
qed

lemma submit_cmds_runs:
  assumes "submit_cmds drain cmds dev = Inr (drain', dev')"
  shows "list_all2 (detail_holds_run dev dev') (drain_submit_details drain') (detail_runs cmds)
    \<and> distinct (map cmdbuf (drain_submit_details drain'))
    \<and> (\<forall>x\<in>set (drain_submit_details drain'). next_handle dev < cmdbuf x)
    \<and> (\<forall>cb. cb \<notin> cmdbuf ` set (drain_submit_details drain') \<longrightarrow>
          cmdbuf_cmds dev' cb = cmdbuf_cmds dev cb)"
proof -
  let ?t = "\<lparr>ctxt = drain_ctxt drain, submit_details = [], level = VK_COMMAND_BUFFER_LEVEL_PRIMARY\<rparr>"
  from assms obtain t1 dev1 where
    l: "submit_cmds_loop 0 cmds ?t dev = Inr (t1, dev1)"
    and ne: "submit_details t1 \<noteq> []"
    and d: "drain_submit_details drain' = submit_details t1"
    and e: "cmdbuf_cmds dev' =
      (cmdbuf_cmds dev1)(cmdbuf (last (submit_details t1)) :=
         cmdbuf_cmds dev1 (cmdbuf (last (submit_details t1))) @ [vkEndCommandBuffer])"
    by (auto simp add: submit_cmds_def Let_def end_cmdbuf_def record_vk_def log_msg_def
        submit_transact_submit_detail_def split: if_splits sum.splits)
  from piece_steps_end [OF submit_cmds_loop_pieces [OF l] _ ne e] d show ?thesis
    by (simp add: detail_runs_def)
qed

lemma create_transact_runs:
  assumes "create_transact label c cmds dev = Inr (tr, dev')"
  shows "list_all2 (detail_holds_run dev dev') (transact_submit_details tr) (detail_runs cmds)
    \<and> distinct (map cmdbuf (transact_submit_details tr))
    \<and> (\<forall>x\<in>set (transact_submit_details tr). next_handle dev < cmdbuf x)
    \<and> (\<forall>cb. cb \<notin> cmdbuf ` set (transact_submit_details tr) \<longrightarrow>
          cmdbuf_cmds dev' cb = cmdbuf_cmds dev cb)"
proof -
  let ?t = "\<lparr>ctxt = c, submit_details = [], level = VK_COMMAND_BUFFER_LEVEL_SECONDARY\<rparr>"
  from assms obtain t1 dev1 where
    l: "create_transact_loop cmds ?t dev = Inr (t1, dev1)"
    and ne: "submit_details t1 \<noteq> []"
    and d: "transact_submit_details tr = submit_details t1"
    and e: "cmdbuf_cmds dev' =
      (cmdbuf_cmds dev1)(cmdbuf (last (submit_details t1)) :=
         cmdbuf_cmds dev1 (cmdbuf (last (submit_details t1))) @ [vkEndCommandBuffer])"
    by (auto simp add: create_transact_def Let_def end_cmdbuf_def record_vk_def log_msg_def
        split: if_splits sum.splits)
  from piece_steps_end [OF create_transact_loop_pieces [OF l] _ ne e] d show ?thesis
    by (simp add: detail_runs_def)
qed

text \<open>A command with one piece: its handler calls \<open>_get_cmdbuf\<close> once and records the
  calls of the piece into the buffer it gets.\<close>

lemma record_cmd_single:
  assumes r: "record_cmd t c dev = Inr (t', dev')" and p: "command_pieces c = [(ty, calls)]"
  shows "\<exists>cb d1. get_cmdbuf t ty dev = Inr (cb, t', d1)
           \<and> device_effects dev' = device_effects (record_calls cb calls d1)"
proof -
  from record_cmd_pieces [OF r] p have "piece_steps [(ty, calls)] t dev t' dev'" by simp
  then obtain d cb t1 d1 where
    a: "device_effects d = device_effects dev" and g: "get_cmdbuf t ty d = Inr (cb, t1, d1)"
    and n: "piece_steps [] t1 (record_calls cb calls d1) t' dev'"
    by (auto elim: piece_steps.cases)
  from n have t: "t1 = t'" and e: "device_effects dev' = device_effects (record_calls cb calls d1)"
    by (auto elim: piece_steps.cases)
  from get_cmdbuf_cong [OF a [symmetric] g] obtain d1' where
    g': "get_cmdbuf t ty dev = Inr (cb, t1, d1')" and e': "device_effects d1' = device_effects d1"
    by blast
  from e e' have "device_effects dev' = device_effects (record_calls cb calls d1')"
    by (simp add: effects_eq_iff)
  with g' t show ?thesis by blast
qed

lemma record_cmd_same_class:
  assumes r: "record_cmd t c dev = Inr (t', dev')" and p: "command_pieces c = [(ty, calls)]"
    and ne: "submit_details t \<noteq> []"
    and s: "(if ty = L_SUBMIT_TYPE_ANY then submit_ty (last (submit_details t)) else ty) =
              submit_ty (last (submit_details t))"
  shows "t' = t
    \<and> cmdbuf_cmds dev' =
        (cmdbuf_cmds dev)(cmdbuf (last (submit_details t)) :=
           cmdbuf_cmds dev (cmdbuf (last (submit_details t))) @ calls)
    \<and> submits dev' = submits dev \<and> next_handle dev' = next_handle dev"
proof -
  from record_cmd_single [OF r p] obtain cb d1 where
    g: "get_cmdbuf t ty dev = Inr (cb, t', d1)"
    and e: "device_effects dev' = device_effects (record_calls cb calls d1)"
    by blast
  from get_cmdbuf_same [OF g ne s] e show ?thesis by (simp add: effects_eq_iff)
qed


lemma detail_holds_run_classes:
  "list_all2 (detail_holds_run dev dev') ds gs \<Longrightarrow> map submit_ty ds = map fst gs"
  by (induction rule: list_all2_induct) (simp_all add: detail_holds_run_def)

text \<open>Claim C1, as amended. Let a command require the classes it hands to
  \<open>_get_cmdbuf\<close>: dispatch compute; draw, draw-indexed, begin-render-pass and
  end-render-pass graphics; set-submit-type the class it names; an inline transaction the
  classes of the sub-transaction's details, in order; every other recognised command the
  current class. Whenever \<open>submit_cmds\<close> or \<open>create_transact\<close> accepts a command
  sequence, the submit details it returns partition the sequence into its maximal runs of
  equal class (\<open>detail_runs\<close>): there is one detail per run, in order; the detail has the
  class of its run, and its command buffer holds, after what it held before, the begin of
  the buffer, the Vulkan calls of the commands of the run in order, and the end of the
  buffer; the command buffers of the details are pairwise different, and no other command
  buffer changes. The classes of the details are the classes of the runs, and adjacent
  details differ in class; the runs hold all the calls of the commands, in order. A
  command with one required class that is the class of the current detail is recorded
  into the current detail: the recording keeps its submit details, the calls of the
  command are appended to the command buffer of the current detail, nothing is submitted
  and no handle is created.\<close>

theorem C1_class_runs:
  "(submit_cmds drain cmds dev = Inr (drain', dev') \<longrightarrow>
      list_all2 (detail_holds_run dev dev') (drain_submit_details drain') (detail_runs cmds)
      \<and> distinct (map cmdbuf (drain_submit_details drain'))
      \<and> (\<forall>cb. cb \<notin> cmdbuf ` set (drain_submit_details drain') \<longrightarrow>
            cmdbuf_cmds dev' cb = cmdbuf_cmds dev cb)
      \<and> map submit_ty (drain_submit_details drain') = class_runs cmds
      \<and> distinct_adj (map submit_ty (drain_submit_details drain')))
   \<and> (create_transact label c cmds dev = Inr (tr, dev'') \<longrightarrow>
      list_all2 (detail_holds_run dev dev'') (transact_submit_details tr) (detail_runs cmds)
      \<and> distinct (map cmdbuf (transact_submit_details tr))
      \<and> (\<forall>cb. cb \<notin> cmdbuf ` set (transact_submit_details tr) \<longrightarrow>
            cmdbuf_cmds dev'' cb = cmdbuf_cmds dev cb)
      \<and> map submit_ty (transact_submit_details tr) = class_runs cmds
      \<and> distinct_adj (map submit_ty (transact_submit_details tr)))
   \<and> (record_cmd t cmd d = Inr (t', d') \<and> command_pieces cmd = [(ty, calls)]
        \<and> submit_details t \<noteq> []
        \<and> (if ty = L_SUBMIT_TYPE_ANY then submit_ty (last (submit_details t)) else ty) =
            submit_ty (last (submit_details t)) \<longrightarrow>
      t' = t
      \<and> cmdbuf_cmds d' =
          (cmdbuf_cmds d)(cmdbuf (last (submit_details t)) :=
             cmdbuf_cmds d (cmdbuf (last (submit_details t))) @ calls)
      \<and> submits d' = submits d \<and> next_handle d' = next_handle d)
   \<and> concat (map snd (detail_runs cmds)) = concat (map command_calls cmds)"
proof -
  have r: "distinct_adj (class_runs cmds)" by (simp add: class_runs_def)
  have k: "concat (map snd (detail_runs cmds)) = concat (map command_calls cmds)"
    by (rule detail_runs_calls)
  have a: "submit_cmds drain cmds dev = Inr (drain', dev') \<longrightarrow>
      list_all2 (detail_holds_run dev dev') (drain_submit_details drain') (detail_runs cmds)
      \<and> distinct (map cmdbuf (drain_submit_details drain'))
      \<and> (\<forall>cb. cb \<notin> cmdbuf ` set (drain_submit_details drain') \<longrightarrow>
            cmdbuf_cmds dev' cb = cmdbuf_cmds dev cb)
      \<and> map submit_ty (drain_submit_details drain') = class_runs cmds
      \<and> distinct_adj (map submit_ty (drain_submit_details drain'))"
  proof
    assume "submit_cmds drain cmds dev = Inr (drain', dev')"
    note s = submit_cmds_runs [OF this]
    from s have "list_all2 (detail_holds_run dev dev') (drain_submit_details drain')
        (detail_runs cmds)" by blast
    from detail_holds_run_classes [OF this]
    have "map submit_ty (drain_submit_details drain') = class_runs cmds"
      by (simp add: detail_runs_classes)
    with s r show "list_all2 (detail_holds_run dev dev') (drain_submit_details drain')
        (detail_runs cmds)
      \<and> distinct (map cmdbuf (drain_submit_details drain'))
      \<and> (\<forall>cb. cb \<notin> cmdbuf ` set (drain_submit_details drain') \<longrightarrow>
            cmdbuf_cmds dev' cb = cmdbuf_cmds dev cb)
      \<and> map submit_ty (drain_submit_details drain') = class_runs cmds
      \<and> distinct_adj (map submit_ty (drain_submit_details drain'))"
      by simp
  qed
  have b: "create_transact label c cmds dev = Inr (tr, dev'') \<longrightarrow>
      list_all2 (detail_holds_run dev dev'') (transact_submit_details tr) (detail_runs cmds)
      \<and> distinct (map cmdbuf (transact_submit_details tr))
      \<and> (\<forall>cb. cb \<notin> cmdbuf ` set (transact_submit_details tr) \<longrightarrow>
            cmdbuf_cmds dev'' cb = cmdbuf_cmds dev cb)
      \<and> map submit_ty (transact_submit_details tr) = class_runs cmds
      \<and> distinct_adj (map submit_ty (transact_submit_details tr))"
  proof
    assume "create_transact label c cmds dev = Inr (tr, dev'')"
    note s = create_transact_runs [OF this]
    from s have "list_all2 (detail_holds_run dev dev'') (transact_submit_details tr)
        (detail_runs cmds)" by blast
    from detail_holds_run_classes [OF this]
    have "map submit_ty (transact_submit_details tr) = class_runs cmds"
      by (simp add: detail_runs_classes)
    with s r show "list_all2 (detail_holds_run dev dev'') (transact_submit_details tr)
        (detail_runs cmds)
      \<and> distinct (map cmdbuf (transact_submit_details tr))
      \<and> (\<forall>cb. cb \<notin> cmdbuf ` set (transact_submit_details tr) \<longrightarrow>
            cmdbuf_cmds dev'' cb = cmdbuf_cmds dev cb)
      \<and> map submit_ty (transact_submit_details tr) = class_runs cmds
      \<and> distinct_adj (map submit_ty (transact_submit_details tr))"
      by simp
  qed
  have g: "record_cmd t cmd d = Inr (t', d') \<and> command_pieces cmd = [(ty, calls)]
        \<and> submit_details t \<noteq> []
        \<and> (if ty = L_SUBMIT_TYPE_ANY then submit_ty (last (submit_details t)) else ty) =
            submit_ty (last (submit_details t)) \<longrightarrow>
      t' = t
      \<and> cmdbuf_cmds d' =
          (cmdbuf_cmds d)(cmdbuf (last (submit_details t)) :=
             cmdbuf_cmds d (cmdbuf (last (submit_details t))) @ calls)
      \<and> submits d' = submits d \<and> next_handle d' = next_handle d"
  proof
    assume h: "record_cmd t cmd d = Inr (t', d') \<and> command_pieces cmd = [(ty, calls)]
        \<and> submit_details t \<noteq> []
        \<and> (if ty = L_SUBMIT_TYPE_ANY then submit_ty (last (submit_details t)) else ty) =
            submit_ty (last (submit_details t))"
    then have h1: "record_cmd t cmd d = Inr (t', d')"
      and h2: "command_pieces cmd = [(ty, calls)]"
      and h3: "submit_details t \<noteq> []"
      and h4: "(if ty = L_SUBMIT_TYPE_ANY then submit_ty (last (submit_details t)) else ty) =
            submit_ty (last (submit_details t))"
      by blast+
    from record_cmd_same_class [OF h1 h2 h3 h4]
    show "t' = t
      \<and> cmdbuf_cmds d' =
          (cmdbuf_cmds d)(cmdbuf (last (submit_details t)) :=
             cmdbuf_cmds d (cmdbuf (last (submit_details t))) @ calls)
      \<and> submits d' = submits d \<and> next_handle d' = next_handle d" .
  qed
  show ?thesis by (rule conjI [OF a conjI [OF b conjI [OF g k]]])
qed

lemma ex_cross_class_runs:
  "detail_runs ex_cross_class =
     [(L_SUBMIT_TYPE_COMPUTE,
       [vkCmdBindPipeline VK_PIPELINE_BIND_POINT_COMPUTE 100,
        vkCmdBindDescriptorSets VK_PIPELINE_BIND_POINT_COMPUTE 101 102,
        vkCmdDispatch 256 1 1]),
      (L_SUBMIT_TYPE_GRAPHICS,
       [vkCmdBeginRenderPass
          \<lparr>rpbi_renderPass = 103, rpbi_framebuffer = 104, rpbi_extent = (4, 4),
           rpbi_clearValues = [[0, 0, 0, 0]]\<rparr> VK_SUBPASS_CONTENTS_INLINE,
        vkCmdBindPipeline VK_PIPELINE_BIND_POINT_GRAPHICS 100,
        vkCmdBindDescriptorSets VK_PIPELINE_BIND_POINT_GRAPHICS 101 102,
        vkCmdBindVertexBuffers 7 0,
        vkCmdDraw 3 1,
        vkCmdEndRenderPass])]"
  by (simp add: detail_runs_def ex_defs desc_set_calls_def VK_NULL_HANDLE_def)

lemma ex_secondary_runs:
  "detail_runs ex_secondary =
     [(L_SUBMIT_TYPE_COMPUTE,
       [vkCmdBindPipeline VK_PIPELINE_BIND_POINT_COMPUTE 100,
        vkCmdBindDescriptorSets VK_PIPELINE_BIND_POINT_COMPUTE 101 102,
        vkCmdDispatch 256 1 1,
        vkCmdResetQueryPool 9,
        vkCmdWriteTimestamp VK_PIPELINE_STAGE_ALL_COMMANDS_BIT 9]),
      (L_SUBMIT_TYPE_GRAPHICS,
       [vkCmdBindPipeline VK_PIPELINE_BIND_POINT_GRAPHICS 100,
        vkCmdBindDescriptorSets VK_PIPELINE_BIND_POINT_GRAPHICS 101 102,
        vkCmdBindVertexBuffers 7 0,
        vkCmdDraw 3 1])]"
  by (simp add: detail_runs_def ex_defs desc_set_calls_def VK_NULL_HANDLE_def)

text \<open>The theorem on the cross-class sequence of the spec, submitted (six commands, two
  runs: the set-submit-type and the dispatch in the compute detail with command buffer 2,
  the other four in the graphics detail with command buffer 5), on the three-command
  transaction (the timestamp write stays in the compute run), and on a dispatch recorded
  while a compute detail is open.\<close>

theorem C1_class_runs_witness:
  "drain_details (submit_cmds ex_drain ex_cross_class ex_dev) = Some ex_two_details
   \<and> buffer_after (submit_cmds ex_drain ex_cross_class ex_dev) 2 =
       Some [vkBeginCommandBuffer 0,
             vkCmdBindPipeline VK_PIPELINE_BIND_POINT_COMPUTE 100,
             vkCmdBindDescriptorSets VK_PIPELINE_BIND_POINT_COMPUTE 101 102,
             vkCmdDispatch 256 1 1,
             vkEndCommandBuffer]
   \<and> buffer_after (submit_cmds ex_drain ex_cross_class ex_dev) 5 =
       Some [vkBeginCommandBuffer VK_COMMAND_BUFFER_USAGE_RENDER_PASS_CONTINUE_BIT,
             vkCmdBeginRenderPass
               \<lparr>rpbi_renderPass = 103, rpbi_framebuffer = 104, rpbi_extent = (4, 4),
                rpbi_clearValues = [[0, 0, 0, 0]]\<rparr> VK_SUBPASS_CONTENTS_INLINE,
             vkCmdBindPipeline VK_PIPELINE_BIND_POINT_GRAPHICS 100,
             vkCmdBindDescriptorSets VK_PIPELINE_BIND_POINT_GRAPHICS 101 102,
             vkCmdBindVertexBuffers 7 0,
             vkCmdDraw 3 1,
             vkCmdEndRenderPass,
             vkEndCommandBuffer]
   \<and> buffer_after (submit_cmds ex_drain ex_cross_class ex_dev) 8 = Some []
   \<and> class_runs ex_cross_class = [L_SUBMIT_TYPE_COMPUTE, L_SUBMIT_TYPE_GRAPHICS]
   \<and> transact_details (create_transact ''tr'' ex_ctxt ex_secondary ex_dev) = Some ex_two_details
   \<and> buffer_after (create_transact ''tr'' ex_ctxt ex_secondary ex_dev) 2 =
       Some [vkBeginCommandBuffer 0,
             vkCmdBindPipeline VK_PIPELINE_BIND_POINT_COMPUTE 100,
             vkCmdBindDescriptorSets VK_PIPELINE_BIND_POINT_COMPUTE 101 102,
             vkCmdDispatch 256 1 1,
             vkCmdResetQueryPool 9,
             vkCmdWriteTimestamp VK_PIPELINE_STAGE_ALL_COMMANDS_BIT 9,
             vkEndCommandBuffer]
   \<and> class_runs ex_secondary = [L_SUBMIT_TYPE_COMPUTE, L_SUBMIT_TYPE_GRAPHICS]
   \<and> details_of (record_cmd (ex_open VK_COMMAND_BUFFER_LEVEL_PRIMARY)
        (L_COMMAND_TYPE_DISPATCH ex_task ex_pool (256, 1, 1)) ex_open_dev) =
       Some (submit_details (ex_open VK_COMMAND_BUFFER_LEVEL_PRIMARY))
   \<and> recorded_in (record_cmd (ex_open VK_COMMAND_BUFFER_LEVEL_PRIMARY)
        (L_COMMAND_TYPE_DISPATCH ex_task ex_pool (256, 1, 1)) ex_open_dev) 2 =
       Some [vkBeginCommandBuffer 0,
             vkCmdBindPipeline VK_PIPELINE_BIND_POINT_COMPUTE 100,
             vkCmdBindDescriptorSets VK_PIPELINE_BIND_POINT_COMPUTE 101 102,
             vkCmdDispatch 256 1 1]"
proof -
  let ?t = "ex_open VK_COMMAND_BUFFER_LEVEL_PRIMARY"
  let ?c = "L_COMMAND_TYPE_DISPATCH ex_task ex_pool (256, 1, 1)"
  from ex_submit obtain drain' dev' where
    e: "submit_cmds ex_drain ex_cross_class ex_dev = Inr (drain', dev')"
    and d: "drain_submit_details drain' = ex_two_details"
    by (auto simp add: drain_details_def split: sum.splits)
  from ex_transact obtain tr dev'' where
    f: "create_transact ''tr'' ex_ctxt ex_secondary ex_dev = Inr (tr, dev'')"
    and h: "transact_submit_details tr = ex_two_details"
    by (auto simp add: transact_details_def split: sum.splits)
  obtain t1 dev1 where
    g: "record_cmd ?t ?c ex_open_dev = Inr (t1, dev1)"
    by (simp add: record_cmd_dispatch_def get_cmdbuf_def get_submit_detail_def ex_open_def
        ex_ctxt_def vk_consts Let_def)
  note thm1 = C1_class_runs [where drain = ex_drain and cmds = ex_cross_class and dev = ex_dev
      and drain' = drain' and dev' = dev']
  note thm2 = C1_class_runs [where label = "''tr''" and c = ex_ctxt and cmds = ex_secondary
      and dev = ex_dev and tr = tr and dev'' = dev'']
  note thm3 = C1_class_runs [where t = ?t and cmd = ?c and d = ex_open_dev and t' = t1
      and d' = dev1 and ty = L_SUBMIT_TYPE_COMPUTE
      and calls = "[vkCmdBindPipeline VK_PIPELINE_BIND_POINT_COMPUTE 100,
        vkCmdBindDescriptorSets VK_PIPELINE_BIND_POINT_COMPUTE 101 102,
        vkCmdDispatch 256 1 1]"]
  from thm1 e d have r1:
    "list_all2 (detail_holds_run ex_dev dev') ex_two_details (detail_runs ex_cross_class)"
    "\<forall>cb. cb \<notin> cmdbuf ` set ex_two_details \<longrightarrow> cmdbuf_cmds dev' cb = cmdbuf_cmds ex_dev cb"
    "class_runs ex_cross_class = map submit_ty ex_two_details"
    by simp_all
  from thm2 f h have r2:
    "list_all2 (detail_holds_run ex_dev dev'') ex_two_details (detail_runs ex_secondary)"
    "class_runs ex_secondary = map submit_ty ex_two_details"
    by simp_all
  have p: "command_pieces ?c =
      [(L_SUBMIT_TYPE_COMPUTE,
        [vkCmdBindPipeline VK_PIPELINE_BIND_POINT_COMPUTE 100,
         vkCmdBindDescriptorSets VK_PIPELINE_BIND_POINT_COMPUTE 101 102,
         vkCmdDispatch 256 1 1])]"
    by (simp add: ex_defs desc_set_calls_def VK_NULL_HANDLE_def)
  from thm3 g p have r3: "t1 = ?t"
    "cmdbuf_cmds dev1 = (cmdbuf_cmds ex_open_dev)(2 := cmdbuf_cmds ex_open_dev 2 @
        [vkCmdBindPipeline VK_PIPELINE_BIND_POINT_COMPUTE 100,
         vkCmdBindDescriptorSets VK_PIPELINE_BIND_POINT_COMPUTE 101 102,
         vkCmdDispatch 256 1 1])"
    by (simp_all add: ex_open_def)
  from r1(1) have b1: "cmdbuf_cmds dev' 2 =
       [vkBeginCommandBuffer 0,
        vkCmdBindPipeline VK_PIPELINE_BIND_POINT_COMPUTE 100,
        vkCmdBindDescriptorSets VK_PIPELINE_BIND_POINT_COMPUTE 101 102,
        vkCmdDispatch 256 1 1,
        vkEndCommandBuffer]"
    and b2: "cmdbuf_cmds dev' 5 =
       [vkBeginCommandBuffer VK_COMMAND_BUFFER_USAGE_RENDER_PASS_CONTINUE_BIT,
        vkCmdBeginRenderPass
          \<lparr>rpbi_renderPass = 103, rpbi_framebuffer = 104, rpbi_extent = (4, 4),
           rpbi_clearValues = [[0, 0, 0, 0]]\<rparr> VK_SUBPASS_CONTENTS_INLINE,
        vkCmdBindPipeline VK_PIPELINE_BIND_POINT_GRAPHICS 100,
        vkCmdBindDescriptorSets VK_PIPELINE_BIND_POINT_GRAPHICS 101 102,
        vkCmdBindVertexBuffers 7 0,
        vkCmdDraw 3 1,
        vkCmdEndRenderPass,
        vkEndCommandBuffer]"
    by (simp_all add: ex_cross_class_runs ex_two_details_def detail_holds_run_def ex_dev_def
        begin_flags_def)
  from r1(2) have b3: "cmdbuf_cmds dev' 8 = []"
    by (simp add: ex_two_details_def ex_dev_def)
  from r2(1) have b4: "cmdbuf_cmds dev'' 2 =
       [vkBeginCommandBuffer 0,
        vkCmdBindPipeline VK_PIPELINE_BIND_POINT_COMPUTE 100,
        vkCmdBindDescriptorSets VK_PIPELINE_BIND_POINT_COMPUTE 101 102,
        vkCmdDispatch 256 1 1,
        vkCmdResetQueryPool 9,
        vkCmdWriteTimestamp VK_PIPELINE_STAGE_ALL_COMMANDS_BIT 9,
        vkEndCommandBuffer]"
    by (simp add: ex_secondary_runs ex_two_details_def detail_holds_run_def ex_dev_def
        begin_flags_def)
  from e d b1 b2 b3 r1(3) f h b4 r2(2) g r3 show ?thesis
    by (simp add: result_defs buffer_after_def ex_two_details_def ex_open_def ex_open_dev_def)
qed


text \<open>Claim C1 as stated fails: a dispatch followed by a set-submit-type of graphics is
  translated into two submit details, compute and graphics, while under the claim's
  classification (set-submit-type inherits the current class) the sequence is one run of
  compute.\<close>

theorem C1_counterexample:
  "transact_details (create_transact ''tr'' ex_ctxt
      [L_COMMAND_TYPE_DISPATCH ex_task ex_pool (256, 1, 1),
       L_COMMAND_TYPE_SET_SUBMIT_TYPE L_SUBMIT_TYPE_GRAPHICS] ex_dev) = Some ex_two_details
   \<and> map submit_ty ex_two_details = [L_SUBMIT_TYPE_COMPUTE, L_SUBMIT_TYPE_GRAPHICS]
   \<and> claimed_class_runs
      [L_COMMAND_TYPE_DISPATCH ex_task ex_pool (256, 1, 1),
       L_COMMAND_TYPE_SET_SUBMIT_TYPE L_SUBMIT_TYPE_GRAPHICS] = [L_SUBMIT_TYPE_COMPUTE]"
  by (simp add: translate_defs result_defs claimed_class_runs_def)

subsection \<open>Commands of class any\<close>

text \<open>A copy whose sizes differ fails on its own assertion, which comes before the class
  is looked up, whatever the submit details are.\<close>

lemma copy_size_mismatch:
  "bv_size src \<noteq> bv_size dst \<Longrightarrow>
   record_cmd t (L_COMMAND_TYPE_COPY_BUFFER src dst) dev =
     Inl (Panic ''buffer copy size mismatched'')"
  "\<not> (width isrc = width idst \<and> height isrc = height idst) \<Longrightarrow>
   record_cmd t (L_COMMAND_TYPE_COPY_IMAGE isrc idst) dev =
     Inl (Panic ''image copy size mismatched'')"
  by (simp_all add: record_cmd_copy_buf_def record_cmd_copy_img_def)

lemma any_class_pieces:
  "requires_any c \<Longrightarrow> command_pieces c = [(L_SUBMIT_TYPE_ANY, command_calls c)]"
  by (cases c) (simp_all add: command_calls_def)

lemma any_class_succeeds:
  assumes "submit_details t \<noteq> []"
    and "get_submit_detail (ctxt t) (submit_ty (last (submit_details t))) = Inr q"
    and "requires_any c" and "copy_sizes_match c" and "barrier_params_legal c"
  shows "\<exists>dev'. record_cmd t c dev = Inr (t, dev')"
proof -
  from assms(1,2)
  have g: "get_cmdbuf t L_SUBMIT_TYPE_ANY dev = Inr (cmdbuf (last (submit_details t)), t, dev)"
    by (simp add: get_cmdbuf_any_open)
  from assms(3-5) show ?thesis
    by (cases c) (auto simp add: g record_cmd_defs Let_def split: sum.splits)
qed

lemma any_class_calls:
  "requires_any c \<Longrightarrow> barrier_params_legal c \<Longrightarrow>
   c = L_COMMAND_TYPE_SET_SUBMIT_TYPE L_SUBMIT_TYPE_ANY \<or> command_calls c \<noteq> []"
  by (cases c)
     (auto simp add: command_calls_def buf_barrier_calls_def img_barrier_calls_def
        split: sum.splits)

text \<open>Claim C7. With no submit detail open, a command of class any (a copy, a barrier, a
  timestamp write, a set-submit-type of any) whose own size assertion holds fails with the
  panic that the submit type cannot be inferred. With a detail open whose class the
  context supports, such a command with legal barrier parameters succeeds and inherits
  the class of the current detail: the recording and its submit details are returned as
  they were, the calls of the command are appended to the command buffer of the current
  detail, no other command buffer changes, nothing is submitted and no handle is created;
  and but for a set-submit-type of any, the command does record calls.\<close>

theorem C7_any_class_command:
  "(submit_details t = [] \<and> requires_any c \<and> copy_sizes_match c \<longrightarrow>
      record_cmd t c dev =
        Inl (Panic ''cannot infer submit type for submit-type-independent command''))
   \<and> (submit_details t \<noteq> []
        \<and> get_submit_detail (ctxt t) (submit_ty (last (submit_details t))) = Inr q
        \<and> requires_any c \<and> copy_sizes_match c \<and> barrier_params_legal c \<longrightarrow>
      (\<exists>dev'. record_cmd t c dev = Inr (t, dev')
         \<and> cmdbuf_cmds dev' =
             (cmdbuf_cmds dev)(cmdbuf (last (submit_details t)) :=
                cmdbuf_cmds dev (cmdbuf (last (submit_details t))) @ command_calls c)
         \<and> submits dev' = submits dev \<and> next_handle dev' = next_handle dev)
      \<and> (c = L_COMMAND_TYPE_SET_SUBMIT_TYPE L_SUBMIT_TYPE_ANY \<or> command_calls c \<noteq> []))"
proof -
  have a: "submit_details t = [] \<and> requires_any c \<and> copy_sizes_match c \<longrightarrow>
      record_cmd t c dev =
        Inl (Panic ''cannot infer submit type for submit-type-independent command'')"
  proof
    assume "submit_details t = [] \<and> requires_any c \<and> copy_sizes_match c"
    then show "record_cmd t c dev =
        Inl (Panic ''cannot infer submit type for submit-type-independent command'')"
      by (cases c) (simp_all add: get_cmdbuf_any_empty record_cmd_defs)
  qed
  have b: "submit_details t \<noteq> []
        \<and> get_submit_detail (ctxt t) (submit_ty (last (submit_details t))) = Inr q
        \<and> requires_any c \<and> copy_sizes_match c \<and> barrier_params_legal c \<longrightarrow>
      (\<exists>dev'. record_cmd t c dev = Inr (t, dev')
         \<and> cmdbuf_cmds dev' =
             (cmdbuf_cmds dev)(cmdbuf (last (submit_details t)) :=
                cmdbuf_cmds dev (cmdbuf (last (submit_details t))) @ command_calls c)
         \<and> submits dev' = submits dev \<and> next_handle dev' = next_handle dev)
      \<and> (c = L_COMMAND_TYPE_SET_SUBMIT_TYPE L_SUBMIT_TYPE_ANY \<or> command_calls c \<noteq> [])"
  proof
    assume h: "submit_details t \<noteq> []
        \<and> get_submit_detail (ctxt t) (submit_ty (last (submit_details t))) = Inr q
        \<and> requires_any c \<and> copy_sizes_match c \<and> barrier_params_legal c"
    then have h1: "submit_details t \<noteq> []"
      and h2: "get_submit_detail (ctxt t) (submit_ty (last (submit_details t))) = Inr q"
      and h3: "requires_any c" and h4: "copy_sizes_match c" and h5: "barrier_params_legal c"
      by blast+
    from any_class_succeeds [OF h1 h2 h3 h4 h5] obtain dev' where
      r: "record_cmd t c dev = Inr (t, dev')" by blast
    from record_cmd_same_class [OF r any_class_pieces [OF h3] h1]
    have "cmdbuf_cmds dev' =
             (cmdbuf_cmds dev)(cmdbuf (last (submit_details t)) :=
                cmdbuf_cmds dev (cmdbuf (last (submit_details t))) @ command_calls c)
         \<and> submits dev' = submits dev \<and> next_handle dev' = next_handle dev"
      by simp
    with r any_class_calls [OF h3 h5]
    show "(\<exists>dev'. record_cmd t c dev = Inr (t, dev')
         \<and> cmdbuf_cmds dev' =
             (cmdbuf_cmds dev)(cmdbuf (last (submit_details t)) :=
                cmdbuf_cmds dev (cmdbuf (last (submit_details t))) @ command_calls c)
         \<and> submits dev' = submits dev \<and> next_handle dev' = next_handle dev)
      \<and> (c = L_COMMAND_TYPE_SET_SUBMIT_TYPE L_SUBMIT_TYPE_ANY \<or> command_calls c \<noteq> [])"
      by blast
  qed
  show ?thesis by (rule conjI [OF a b])
qed

text \<open>The theorem at a timestamp write: it fails on the empty recording and, on the
  recording with a compute detail open, leaves the one compute detail and lands in its
  command buffer 2, after the begin; command buffer 5 stays empty.\<close>

theorem C7_any_class_command_witness:
  "record_cmd (ex_empty VK_COMMAND_BUFFER_LEVEL_PRIMARY)
      (L_COMMAND_TYPE_WRITE_TIMESTAMP \<lparr>query_pool = 9\<rparr>) ex_dev =
     Inl (Panic ''cannot infer submit type for submit-type-independent command'')
   \<and> classes_of (record_cmd (ex_open VK_COMMAND_BUFFER_LEVEL_PRIMARY)
        (L_COMMAND_TYPE_WRITE_TIMESTAMP \<lparr>query_pool = 9\<rparr>) ex_open_dev) =
       Some [L_SUBMIT_TYPE_COMPUTE]
   \<and> recorded_in (record_cmd (ex_open VK_COMMAND_BUFFER_LEVEL_PRIMARY)
        (L_COMMAND_TYPE_WRITE_TIMESTAMP \<lparr>query_pool = 9\<rparr>) ex_open_dev) 2 =
       Some [vkBeginCommandBuffer 0, vkCmdResetQueryPool 9,
             vkCmdWriteTimestamp VK_PIPELINE_STAGE_ALL_COMMANDS_BIT 9]
   \<and> recorded_in (record_cmd (ex_open VK_COMMAND_BUFFER_LEVEL_PRIMARY)
        (L_COMMAND_TYPE_WRITE_TIMESTAMP \<lparr>query_pool = 9\<rparr>) ex_open_dev) 5 = Some []"
proof -
  let ?c = "L_COMMAND_TYPE_WRITE_TIMESTAMP \<lparr>query_pool = 9\<rparr>"
  let ?t = "ex_open VK_COMMAND_BUFFER_LEVEL_PRIMARY"
  have a: "record_cmd (ex_empty VK_COMMAND_BUFFER_LEVEL_PRIMARY) ?c ex_dev =
      Inl (Panic ''cannot infer submit type for submit-type-independent command'')"
    using C7_any_class_command
      [where t = "ex_empty VK_COMMAND_BUFFER_LEVEL_PRIMARY" and c = ?c and dev = ex_dev]
    by (simp add: ex_empty_def)
  obtain dev' where b:
    "record_cmd ?t ?c ex_open_dev = Inr (?t, dev')"
    "cmdbuf_cmds dev' =
       (cmdbuf_cmds ex_open_dev)(cmdbuf (last (submit_details ?t)) :=
          cmdbuf_cmds ex_open_dev (cmdbuf (last (submit_details ?t))) @ command_calls ?c)"
    using C7_any_class_command [where t = ?t and c = ?c and dev = ex_open_dev and q = 1]
    by (auto simp add: ex_open_def ex_ctxt_def get_submit_detail_def vk_consts)
  from a b show ?thesis
    by (simp add: result_defs ex_open_def ex_open_dev_def command_calls_def)
qed


subsection \<open>The log does not steer the translation\<close>
















end
